theory Spec2Isabelle
  imports Main
begin

section \<open>Data model (supabase-migration.sql)\<close>

text \<open>
  The tables the order and user routes read and write. Money columns are
  \<open>DECIMAL(10,2)\<close>; amounts are modelled as integers, that is, as whole numbers of the currency:
  on whole numbers the double arithmetic of the handlers is exact, and everything proved
  here is about such amounts. Fractional prices, and the rounding of JavaScript numbers on
  them, are outside the model. Timestamps are microseconds
  since the epoch, the precision of a PostgreSQL \<open>TIMESTAMP\<close>. Columns that no modelled
  handler reads (guest e-mail and phone, product description, ...) are left out. The
  \<open>users\<close> table is not modelled: the foreign keys of \<open>orders.client_id\<close> and
  \<open>user_debt_adjustments.user_id\<close> make every stored client id the id of a user.
\<close>

datatype category = Accessories | Smartphones

datatype currency = EUR | MKD

datatype status = Pending | Approved | Shipped | Completed | Cancelled

datatype adjustment_type = Manual_set | Manual_reduction

datatype stock_status = Enabled | Disabled

record product =
  p_id :: int
  p_name :: string
  p_price :: int
  p_stock_quantity :: int
  p_stock_status :: stock_status
  p_category :: category

record order_row =
  o_id :: int
  o_client_id :: "int option"
  o_guest_name :: "string option"
  o_status :: status
  o_original_status :: status
  o_total_amount :: int
  o_discount_amount :: int
  o_discount_currency :: string
  o_original_total :: int

record order_item =
  oi_order_id :: int
  oi_product_id :: int
  oi_quantity :: int
  oi_price :: int

record adjustment =
  a_user_id :: int
  a_amount :: int
  a_type :: adjustment_type
  a_currency :: "currency option"
  a_notes :: "string option"
  a_created_by :: int
  a_created_at :: int

text \<open>\<open>orders_seq\<close> is the next value of the \<open>SERIAL\<close> key of \<open>orders\<close>.\<close>

record db =
  products :: "product list"
  orders :: "order_row list"
  order_items :: "order_item list"
  user_debt_adjustments :: "adjustment list"
  orders_seq :: int

text \<open>The hard-coded domain rule: smartphones settle in EUR, everything else in MKD.
  The argument is what \<open>productResult.rows[0]?.category\<close> yields: \<open>None\<close> when the
  product does not exist.\<close>

definition currency_of :: "category option \<Rightarrow> currency" where
  "currency_of c = (if c = Some Smartphones then EUR else MKD)"

definition find_product :: "db \<Rightarrow> int \<Rightarrow> product option" where
  "find_product d pid = find (\<lambda>p. p_id p = pid) (products d)"

definition find_order :: "db \<Rightarrow> int \<Rightarrow> order_row option" where
  "find_order d oid = find (\<lambda>r. o_id r = oid) (orders d)"

definition category_of :: "db \<Rightarrow> int \<Rightarrow> category option" where
  "category_of d pid = map_option p_category (find_product d pid)"

section \<open>Balance deriver\<close>

subsection \<open>GET /users/:id/profile: debt from the ledger\<close>

text \<open>The rows of
  \<open>SELECT currency, COALESCE(SUM(adjustment_amount), 0) FROM user_debt_adjustments
    WHERE user_id = $1 GROUP BY currency\<close>: one row per currency value (NULL included)
  that occurs among the user's entries.\<close>

definition sums_by_currency :: "db \<Rightarrow> int \<Rightarrow> (currency option \<times> int) list" where
  "sums_by_currency d uid =
     (let rows = filter (\<lambda>a. a_user_id a = uid) (user_debt_adjustments d)
      in map (\<lambda>c. (c, sum_list (map a_amount (filter (\<lambda>a. a_currency a = c) rows))))
           (remdups (map a_currency rows)))"

text \<open>The \<open>forEach\<close> over the rows: \<open>if (row.currency === 'EUR') eurSum = sum;
  if (row.currency === 'MKD') mkdSum = sum\<close>. The state is \<open>(eurSum, mkdSum)\<close>.\<close>

fun assign_sums :: "(currency option \<times> int) list \<Rightarrow> int \<times> int \<Rightarrow> int \<times> int" where
  "assign_sums [] acc = acc"
| "assign_sums ((c, s) # rows) (eurSum, mkdSum) =
     assign_sums rows
       (if c = Some EUR then s else eurSum, if c = Some MKD then s else mkdSum)"

record debt_summary =
  eurDebt :: int
  mkdDebt :: int
  totalDebt :: int

definition profile_debt :: "db \<Rightarrow> int \<Rightarrow> debt_summary" where
  "profile_debt d uid =
     (let (eurSum, mkdSum) = assign_sums (sums_by_currency d uid) (0, 0)
      in \<lparr> eurDebt = - eurSum, mkdDebt = - mkdSum, totalDebt = - eurSum + - mkdSum \<rparr>)"

subsection \<open>GET /orders/:id/invoice: the debt figures of the invoice\<close>

text \<open>The joined sub-select
  \<open>SELECT user_id, ABS(SUM(adjustment_amount)) FROM user_debt_adjustments
    WHERE currency = c GROUP BY user_id\<close>, left-joined on the order's client and
  wrapped in \<open>COALESCE(..., 0)\<close>: no row for the client gives 0.\<close>

definition joined_debt :: "db \<Rightarrow> int option \<Rightarrow> currency \<Rightarrow> int" where
  "joined_debt d client c =
     (case client of
        None \<Rightarrow> 0
      | Some u \<Rightarrow>
          (let rows = filter (\<lambda>a. a_user_id a = u \<and> a_currency a = Some c)
                        (user_debt_adjustments d)
           in if rows = [] then 0 else \<bar>sum_list (map a_amount rows)\<bar>))"

text \<open>The "direct debt query":
  \<open>ABS(SUM(CASE WHEN currency = c THEN adjustment_amount ELSE 0 END)) ... WHERE user_id = $1\<close>;
  \<open>SUM\<close> over no rows is NULL, which \<open>parseFloat(x || 0)\<close> reads as 0.\<close>

definition direct_debt :: "db \<Rightarrow> int \<Rightarrow> currency \<Rightarrow> int" where
  "direct_debt d u c =
     \<bar>sum_list (map (\<lambda>a. if a_currency a = Some c then a_amount a else 0)
        (filter (\<lambda>a. a_user_id a = u) (user_debt_adjustments d)))\<bar>"

datatype invoice_result =
  Invoice_not_found
| Invoice_no_items
| Invoice int int

text \<open>The handler up to the point where the debt figures are final: the order row with
  the joined debts (restricted to the caller's own orders unless admin), the 400 for an
  order without items, and the override by the direct query when it differs. The result
  \<open>Invoice e m\<close> carries \<open>order.client_eur_debt\<close> and \<open>order.client_mkd_debt\<close> as
  the PDF prints them (each printed when \<open>> 0\<close>).\<close>

definition GET_orders_invoice :: "db \<Rightarrow> bool \<Rightarrow> int \<Rightarrow> int \<Rightarrow> invoice_result" where
  "GET_orders_invoice d isAdmin uid orderId =
     (case find_order d orderId of
        None \<Rightarrow> Invoice_not_found
      | Some ord \<Rightarrow>
          if \<not> isAdmin \<and> o_client_id ord \<noteq> Some uid then Invoice_not_found
          else if filter (\<lambda>i. oi_order_id i = orderId \<and> find_product d (oi_product_id i) \<noteq> None)
                    (order_items d) = []
          then Invoice_no_items
          else
            (let client_eur_debt = joined_debt d (o_client_id ord) EUR;
                 client_mkd_debt = joined_debt d (o_client_id ord) MKD
             in case o_client_id ord of
                  None \<Rightarrow> Invoice client_eur_debt client_mkd_debt
                | Some u \<Rightarrow>
                    (let directEur = direct_debt d u EUR; directMkd = direct_debt d u MKD
                     in if directEur \<noteq> client_eur_debt \<or> directMkd \<noteq> client_mkd_debt
                        then Invoice directEur directMkd
                        else Invoice client_eur_debt client_mkd_debt)))"

text \<open>The ledger sum of a client in a currency, and the balance of the specification:
  \<open>currentBalance(client, currency) = - sum(amount)\<close>.\<close>

definition ledger_sum :: "db \<Rightarrow> int \<Rightarrow> currency \<Rightarrow> int" where
  "ledger_sum d uid c =
     sum_list (map a_amount
       (filter (\<lambda>a. a_user_id a = uid \<and> a_currency a = Some c) (user_debt_adjustments d)))"

definition currentBalance :: "db \<Rightarrow> int \<Rightarrow> currency \<Rightarrow> int" where
  "currentBalance d uid c = - ledger_sum d uid c"

section \<open>Strings of the generated notes\<close>

text \<open>Decimal rendering of an integer inside a template literal.\<close>

fun show_nat :: "nat \<Rightarrow> string" where
  "show_nat n =
     (if n < 10 then [''0123456789'' ! n]
      else show_nat (n div 10) @ [''0123456789'' ! (n mod 10)])"

declare show_nat.simps [simp del]

definition show_int :: "int \<Rightarrow> string" where
  "show_int i = (if i < 0 then CHR ''-'' # show_nat (nat (- i)) else show_nat (nat i))"

text \<open>\<open>Array.prototype.join\<close>.\<close>

fun join :: "string \<Rightarrow> string list \<Rightarrow> string" where
  "join sep [] = []"
| "join sep [x] = x"
| "join sep (x # y # ys) = x @ sep @ join sep (y # ys)"

text \<open>\<open>String.prototype.includes\<close>.\<close>

fun starts_with :: "string \<Rightarrow> string \<Rightarrow> bool" where
  "starts_with s [] = True"
| "starts_with [] (c # cs) = False"
| "starts_with (x # xs) (c # cs) = (x = c \<and> starts_with xs cs)"

fun includes_str :: "string \<Rightarrow> string \<Rightarrow> bool" where
  "includes_str [] sub = (sub = [])"
| "includes_str (x # xs) sub = (starts_with (x # xs) sub \<or> includes_str xs sub)"

section \<open>Order mutation reconciler (server/routes/orders.js)\<close>

text \<open>An element of the \<open>items\<close> and \<open>originalItems\<close> arrays of a request body.
  \<open>productId\<close> stands for \<open>item.productId || item.product_id\<close> and \<open>name\<close> for
  \<open>item.name || item.product_name\<close>: whichever spelling the caller used.\<close>

record item =
  productId :: int
  quantity :: int
  price :: int
  name :: string

subsection \<open>JavaScript \<open>Map\<close>\<close>

text \<open>A \<open>Map\<close> iterates in the order of first insertion; \<open>set\<close> on a key that is
  present replaces the value in place.\<close>

fun map_set :: "'k \<Rightarrow> 'v \<Rightarrow> ('k \<times> 'v) list \<Rightarrow> ('k \<times> 'v) list" where
  "map_set k v [] = [(k, v)]"
| "map_set k v ((k', v') # m) = (if k' = k then (k, v) # m else (k', v') # map_set k v m)"

definition map_get :: "('k \<times> 'v) list \<Rightarrow> 'k \<Rightarrow> 'v option" where
  "map_get m k = map_of m k"

text \<open>\<open>items.forEach(item => m.set(item.productId, val(item)))\<close> on a fresh map.\<close>

definition build_map :: "(item \<Rightarrow> 'v) \<Rightarrow> item list \<Rightarrow> (int \<times> 'v) list" where
  "build_map val items = foldl (\<lambda>m it. map_set (productId it) (val it) m) [] items"

subsection \<open>checkItemsChanged\<close>

definition checkItemsChanged :: "item list \<Rightarrow> item list \<Rightarrow> bool" where
  "checkItemsChanged originalItems newItems =
     (if length originalItems \<noteq> length newItems then True
      else
        (let originalMap = build_map quantity originalItems;
             newMap = build_map quantity newItems
         in if list_ex (\<lambda>(pid, originalQty).
                  map_get newMap pid = None \<or> map_get newMap pid \<noteq> Some originalQty) originalMap
            then True
            else if list_ex (\<lambda>(pid, newQty). map_get originalMap pid = None) newMap
            then True
            else False))"

subsection \<open>calculateNetDebtChange\<close>

text \<open>An element of \<open>quantityChanges\<close>: exactly one of \<open>increase\<close> and \<open>decrease\<close> is
  set by the code that pushes it; the other is \<open>undefined\<close>.\<close>

record quantity_change =
  qc_productId :: int
  qc_name :: string
  qc_increase :: "int option"
  qc_decrease :: "int option"
  qc_price :: int

text \<open>Truthiness of an optional number: \<open>undefined\<close> and 0 are falsy.\<close>

definition truthy :: "int option \<Rightarrow> bool" where
  "truthy v = (case v of None \<Rightarrow> False | Some n \<Rightarrow> n \<noteq> 0)"

text \<open>The value stored under a product id: \<open>{quantity, price, name}\<close>, kept here as
  the item itself.\<close>

definition item_map :: "item list \<Rightarrow> (int \<times> item) list" where
  "item_map items = build_map (\<lambda>it. it) items"

text \<open>First loop, over \<open>newMap\<close>: added items and quantity increases.\<close>

definition addedItems :: "(int \<times> item) list \<Rightarrow> (int \<times> item) list \<Rightarrow> item list" where
  "addedItems originalMap newMap =
     map (\<lambda>(pid, newItem).
            \<lparr> productId = pid, quantity = quantity newItem, price = price newItem,
              name = name newItem \<rparr>)
       (filter (\<lambda>(pid, newItem). map_get originalMap pid = None) newMap)"

definition increases :: "(int \<times> item) list \<Rightarrow> (int \<times> item) list \<Rightarrow> quantity_change list" where
  "increases originalMap newMap =
     concat (map (\<lambda>(pid, newItem).
       (case map_get originalMap pid of
          None \<Rightarrow> []
        | Some originalItem \<Rightarrow>
            if quantity newItem > quantity originalItem
            then [\<lparr> qc_productId = pid, qc_name = name newItem,
                    qc_increase = Some (quantity newItem - quantity originalItem),
                    qc_decrease = None, qc_price = price newItem \<rparr>]
            else [])) newMap)"

text \<open>Second loop, over \<open>originalMap\<close>: removed items and quantity decreases.\<close>

definition removedItems :: "(int \<times> item) list \<Rightarrow> (int \<times> item) list \<Rightarrow> item list" where
  "removedItems originalMap newMap =
     map (\<lambda>(pid, originalItem).
            \<lparr> productId = pid, quantity = quantity originalItem, price = price originalItem,
              name = name originalItem \<rparr>)
       (filter (\<lambda>(pid, originalItem). map_get newMap pid = None) originalMap)"

definition decreases :: "(int \<times> item) list \<Rightarrow> (int \<times> item) list \<Rightarrow> quantity_change list" where
  "decreases originalMap newMap =
     concat (map (\<lambda>(pid, originalItem).
       (case map_get newMap pid of
          None \<Rightarrow> []
        | Some newItem \<Rightarrow>
            if quantity newItem < quantity originalItem
            then [\<lparr> qc_productId = pid, qc_name = name originalItem,
                    qc_increase = None,
                    qc_decrease = Some (quantity originalItem - quantity newItem),
                    qc_price = price originalItem \<rparr>]
            else [])) originalMap)"

text \<open>The three accumulation loops. The state is \<open>(eurNetChange, mkdNetChange)\<close>;
  \<open>cat\<close> answers \<open>SELECT category FROM products WHERE id = $1\<close>.\<close>

definition add_to :: "currency \<Rightarrow> int \<Rightarrow> int \<times> int \<Rightarrow> int \<times> int" where
  "add_to c v acc = (case acc of (eur, mkd) \<Rightarrow> if c = EUR then (eur + v, mkd) else (eur, mkd + v))"

definition net_added :: "(int \<Rightarrow> category option) \<Rightarrow> item list \<Rightarrow> int \<times> int \<Rightarrow> int \<times> int" where
  "net_added cat its acc =
     foldl (\<lambda>acc it. add_to (currency_of (cat (productId it))) (quantity it * price it) acc) acc its"

definition net_removed :: "(int \<Rightarrow> category option) \<Rightarrow> item list \<Rightarrow> int \<times> int \<Rightarrow> int \<times> int" where
  "net_removed cat its acc =
     foldl (\<lambda>acc it. add_to (currency_of (cat (productId it))) (- (quantity it * price it)) acc) acc its"

definition net_changed ::
  "(int \<Rightarrow> category option) \<Rightarrow> quantity_change list \<Rightarrow> int \<times> int \<Rightarrow> int \<times> int" where
  "net_changed cat qcs acc =
     foldl (\<lambda>acc qc.
        if truthy (qc_increase qc)
        then add_to (currency_of (cat (qc_productId qc))) (the (qc_increase qc) * qc_price qc) acc
        else if truthy (qc_decrease qc)
        then add_to (currency_of (cat (qc_productId qc))) (- (the (qc_decrease qc) * qc_price qc)) acc
        else acc) acc qcs"

text \<open>The note.\<close>

definition item_label :: "item \<Rightarrow> string" where
  "item_label it = name it @ '' (x'' @ show_int (quantity it) @ '')''"

definition change_label :: "quantity_change \<Rightarrow> string" where
  "change_label qc =
     (if truthy (qc_increase qc)
      then qc_name qc @ '' (+'' @ show_int (the (qc_increase qc)) @ '')''
      else qc_name qc @ '' (-'' @
             (case qc_decrease qc of None \<Rightarrow> ''undefined'' | Some n \<Rightarrow> show_int n) @ '')'')"

definition noteText :: "item list \<Rightarrow> item list \<Rightarrow> quantity_change list \<Rightarrow> int \<Rightarrow> string" where
  "noteText added removed changes orderId =
     (let noteParts =
        (if added \<noteq> [] \<and> removed = [] \<and> changes = [] then
           [''Items increased in order #'' @ show_int orderId @ ''. Added: '' @
              join '', '' (map item_label added)]
         else if removed \<noteq> [] \<and> added = [] \<and> changes = [] then
           [''Items reduced from order #'' @ show_int orderId @ ''. Removed: '' @
              join '', '' (map item_label removed)]
         else if changes \<noteq> [] \<and> added = [] \<and> removed = [] then
           [''Items quantity updated in order #'' @ show_int orderId @ ''. Quantity changes: '' @
              join '', '' (map change_label changes)]
         else if added \<noteq> [] \<or> removed \<noteq> [] \<or> changes \<noteq> [] then
           (''Items '' @
              join '' and ''
                ((if added \<noteq> [] then [''increased''] else []) @
                 (if removed \<noteq> [] then [''reduced''] else []) @
                 (if changes \<noteq> [] then [''quantity updated''] else [])) @
              '' in order #'' @ show_int orderId) #
           ((if added \<noteq> [] then [''Increased: '' @ join '', '' (map item_label added)] else []) @
            (if removed \<noteq> [] then [''Reduced: '' @ join '', '' (map item_label removed)] else []) @
            (if changes \<noteq> [] then [''Quantity changes: '' @ join '', '' (map change_label changes)]
             else []))
         else [])
      in if noteParts \<noteq> [] then join ''. '' noteParts else ''Order items updated'')"

record net_debt_change =
  eurNetChange :: int
  mkdNetChange :: int
  eurNote :: string
  mkdNote :: string

definition calculateNetDebtChange ::
  "(int \<Rightarrow> category option) \<Rightarrow> item list \<Rightarrow> item list \<Rightarrow> int \<Rightarrow> net_debt_change" where
  "calculateNetDebtChange cat originalItems newItems orderId =
     (let originalMap = item_map originalItems;
          newMap = item_map newItems;
          added = addedItems originalMap newMap;
          removed = removedItems originalMap newMap;
          changes = increases originalMap newMap @ decreases originalMap newMap;
          (eur, mkd) = net_changed cat changes (net_removed cat removed (net_added cat added (0, 0)));
          note = noteText added removed changes orderId
      in \<lparr> eurNetChange = eur, mkdNetChange = mkd, eurNote = note, mkdNote = note \<rparr>)"

section \<open>HTTP responses\<close>

text \<open>The status code of a response, with the payload of a success.\<close>

datatype 'a response =
  Ok 'a
| Created 'a
| Bad_request
| Forbidden
| Not_found
| Server_error

text \<open>\<open>req.user\<close>, as the authentication middleware supplies it.\<close>

record actor =
  user_id :: int
  is_admin :: bool

section \<open>POST /orders\<close>

text \<open>The body of the request; the fields that are destructured with a default carry
  the default when the caller leaves them out (\<open>c_status = None\<close> reads as
  \<open>'pending'\<close>).\<close>

record create_req =
  c_items :: "item list"
  c_guestName :: "string option"
  c_clientId :: "int option"
  c_status :: "status option"
  c_discount :: int
  c_discountCurrency :: string
  c_totalMkd :: int
  c_totalEur :: int

definition valid_create :: "create_req \<Rightarrow> bool" where
  "valid_create r =
     (c_items r \<noteq> [] \<and>
      list_all (\<lambda>it. 1 \<le> productId it \<and> 1 \<le> quantity it) (c_items r) \<and>
      c_guestName r \<noteq> Some [] \<and>
      (case c_clientId r of None \<Rightarrow> True | Some u \<Rightarrow> 1 \<le> u) \<and>
      (case c_status r of None \<Rightarrow> True | Some s \<Rightarrow> s = Pending \<or> s = Completed))"

text \<open>The validation loop: \<open>(totalAmount, eurPendingTotal, mkdPendingTotal,
  validatedItems)\<close>, or the 400 of the first item that is unknown, disabled or short of
  stock.\<close>

fun validate_items ::
  "db \<Rightarrow> item list \<Rightarrow> int \<times> int \<times> int \<times> item list \<Rightarrow> (int \<times> int \<times> int \<times> item list) option" where
  "validate_items d [] acc = Some acc"
| "validate_items d (it # its) (totalAmount, eurPendingTotal, mkdPendingTotal, validatedItems) =
     (case find_product d (productId it) of
        None \<Rightarrow> None
      | Some p \<Rightarrow>
          if p_stock_status p = Disabled then None
          else if p_stock_quantity p < quantity it then None
          else
            (let lineTotal = p_price p * quantity it
             in validate_items d its
                  (totalAmount + lineTotal,
                   if p_category p = Smartphones then eurPendingTotal + lineTotal else eurPendingTotal,
                   if p_category p = Smartphones then mkdPendingTotal else mkdPendingTotal + lineTotal,
                   validatedItems @
                     [\<lparr> productId = p_id p, quantity = quantity it, price = p_price p,
                        name = p_name p \<rparr>])))"

definition update_stock :: "int \<Rightarrow> int \<Rightarrow> db \<Rightarrow> db" where
  \<comment> \<open>\<open>UPDATE products SET stock_quantity = stock_quantity + delta WHERE id = pid\<close>\<close>
  "update_stock pid delta d =
     d\<lparr> products :=
          map (\<lambda>p. if p_id p = pid then p\<lparr> p_stock_quantity := p_stock_quantity p + delta \<rparr> else p)
            (products d) \<rparr>"

definition insert_order_item :: "int \<Rightarrow> item \<Rightarrow> db \<Rightarrow> db" where
  "insert_order_item orderId it d =
     d\<lparr> order_items := order_items d @
          [\<lparr> oi_order_id = orderId, oi_product_id = productId it, oi_quantity = quantity it,
             oi_price = price it \<rparr>] \<rparr>"

definition insert_adjustment :: "adjustment \<Rightarrow> db \<Rightarrow> db" where
  "insert_adjustment a d = d\<lparr> user_debt_adjustments := user_debt_adjustments d @ [a] \<rparr>"

text \<open>The row every order-driven insert into \<open>user_debt_adjustments\<close> writes:
  the type is always \<open>'manual_reduction'\<close>; \<open>created_at\<close> is the default
  \<open>CURRENT_TIMESTAMP\<close>, passed in as \<open>now\<close>.\<close>

definition ledger_row :: "int \<Rightarrow> int \<Rightarrow> currency \<Rightarrow> string \<Rightarrow> int \<Rightarrow> int \<Rightarrow> adjustment" where
  "ledger_row clientId amount c notes createdBy now =
     \<lparr> a_user_id = clientId, a_amount = amount, a_type = Manual_reduction,
       a_currency = Some c, a_notes = Some notes, a_created_by = createdBy,
       a_created_at = now \<rparr>"

definition creation_notes :: "int \<Rightarrow> create_req \<Rightarrow> string" where
  "creation_notes orderId r =
     ''Debt increase from pending order #'' @ show_int orderId @
     (if c_discount r > 0
      then '' (Discount: '' @ show_int (c_discount r) @ '' '' @
             (if c_totalEur r > 0 \<and> c_totalMkd r = 0 then ''EUR''
              else if c_totalMkd r > 0 \<and> c_totalEur r = 0 then ''MKD''
              else ''MKD/EUR'') @ '')''
      else '''')"

text \<open>The handler. It runs outside a transaction, on a database that executes every
  statement; all its failures are found before the first write. \<open>now\<close> is the
  \<open>CURRENT_TIMESTAMP\<close> the ledger rows get.\<close>

definition POST_orders :: "int \<Rightarrow> actor \<Rightarrow> create_req \<Rightarrow> db \<Rightarrow> int response \<times> db" where
  "POST_orders now usr r d =
     (if \<not> valid_create r then (Bad_request, d)
      else if c_clientId r \<noteq> None \<and> \<not> is_admin usr then (Forbidden, d)
      else if c_guestName r \<noteq> None \<and> \<not> is_admin usr then (Forbidden, d)
      else
        (let status = (case c_status r of None \<Rightarrow> Pending | Some s \<Rightarrow> s);
             guest = (c_guestName r \<noteq> None);
             clientId = (if guest then None
                         else case c_clientId r of None \<Rightarrow> Some (user_id usr) | Some u \<Rightarrow> Some u)
         in case validate_items d (c_items r) (0, 0, 0, []) of
              None \<Rightarrow> (Bad_request, d)
            | Some (totalAmount, eurPendingTotal, mkdPendingTotal, validatedItems) \<Rightarrow>
                (let finalEurTotal = (if c_totalEur r > 0 then c_totalEur r else eurPendingTotal);
                     finalMkdTotal = (if c_totalMkd r > 0 then c_totalMkd r else mkdPendingTotal);
                     finalTotalAmount = finalEurTotal + finalMkdTotal;
                     orderId = orders_seq d;
                     d1 = d\<lparr> orders := orders d @
                            [\<lparr> o_id = orderId, o_client_id = clientId,
                               o_guest_name = c_guestName r, o_status = status,
                               o_original_status = status, o_total_amount = finalTotalAmount,
                               o_discount_amount = c_discount r,
                               o_discount_currency = c_discountCurrency r,
                               o_original_total = totalAmount \<rparr>],
                            orders_seq := orderId + 1 \<rparr>;
                     d2 = foldl (\<lambda>d it. update_stock (productId it) (- quantity it)
                                          (insert_order_item orderId it d)) d1 validatedItems;
                     d3 = (if \<not> guest \<and> truthy clientId \<and> status = Pending
                           then
                             (let notes = creation_notes orderId r;
                                  d' = (if finalEurTotal > 0
                                        then insert_adjustment
                                               (ledger_row (the clientId) (- finalEurTotal) EUR notes
                                                  (user_id usr) now) d2
                                        else d2)
                              in if finalMkdTotal > 0
                                 then insert_adjustment
                                        (ledger_row (the clientId) (- finalMkdTotal) MKD notes
                                           (user_id usr) now) d'
                                 else d')
                           else d2)
                 in (Created orderId, d3))))"

section \<open>The transaction connection\<close>

text \<open>Modelled from the spec: the persistence backend, \<open>server/database/connection.js\<close>
  (\<open>pool\<close>, \<open>query\<close>) and the PostgreSQL server behind it, is outside the code modelled here.
  The specification describes it as a relational store with explicit transaction
  begin/commit/rollback, whose failures "always trigger rollback of the enclosing
  transaction". \<open>pool.connect()\<close> gives a connection; the handlers below frame their
  statements with \<open>BEGIN\<close> ... \<open>COMMIT\<close> / \<open>ROLLBACK\<close> on it. \<open>committed\<close> is
  what other connections see and what remains after the request, \<open>working\<close> the
  state inside the open transaction. Any statement may fail (a constraint, an overflow of
  \<open>DECIMAL(10,2)\<close>, a lost connection): the schedule \<open>fault\<close> says which, by the number of
  statements the connection has executed so far. A failed statement aborts the
  transaction, as in PostgreSQL: every later statement fails until the rollback, and a
  \<open>COMMIT\<close> of an aborted transaction rolls back.\<close>

datatype error = Db_error | Product_not_found int | Insufficient_stock int int int

record conn =
  committed :: db
  working :: db
  aborted :: bool
  executed :: nat

type_synonym 'a tx = "conn \<Rightarrow> (error + 'a) \<times> conn"

definition connect :: "db \<Rightarrow> conn" where
  "connect d = \<lparr> committed = d, working = d, aborted = False, executed = 0 \<rparr>"

definition tx_return :: "'a \<Rightarrow> 'a tx" where
  "tx_return a c = (Inr a, c)"

definition tx_throw :: "error \<Rightarrow> 'a tx" where
  "tx_throw e c = (Inl e, c)"

definition tx_bind :: "'a tx \<Rightarrow> ('a \<Rightarrow> 'b tx) \<Rightarrow> 'b tx" where
  "tx_bind m f c = (case m c of (Inl e, c') \<Rightarrow> (Inl e, c') | (Inr a, c') \<Rightarrow> f a c')"

text \<open>\<open>try { await m } catch (debtError) { console.error(...) }\<close>: the error is logged
  and dropped.\<close>

definition tx_try :: "unit tx \<Rightarrow> unit tx" where
  "tx_try m c = (case m c of (Inl e, c') \<Rightarrow> (Inr (), c') | (Inr a, c') \<Rightarrow> (Inr a, c'))"

text \<open>\<open>for (const x of xs) { await f(x) }\<close>.\<close>

primrec tx_forEach :: "('a \<Rightarrow> unit tx) \<Rightarrow> 'a list \<Rightarrow> unit tx" where
  "tx_forEach f [] = tx_return ()"
| "tx_forEach f (x # xs) = tx_bind (f x) (\<lambda>_. tx_forEach f xs)"

text \<open>\<open>await client.query(stmt)\<close> inside the transaction; \<open>stmt\<close> is what the
  statement returns and how it changes the tables.\<close>

definition client_query :: "(nat \<Rightarrow> bool) \<Rightarrow> (db \<Rightarrow> 'a \<times> db) \<Rightarrow> 'a tx" where
  "client_query fault stmt c =
     (let c1 = c\<lparr> executed := Suc (executed c) \<rparr>
      in if aborted c then (Inl Db_error, c1)
         else if fault (executed c) then (Inl Db_error, c1\<lparr> aborted := True \<rparr>)
         else (case stmt (working c) of (a, d') \<Rightarrow> (Inr a, c1\<lparr> working := d' \<rparr>)))"

definition sql_read :: "(db \<Rightarrow> 'a) \<Rightarrow> db \<Rightarrow> 'a \<times> db" where
  "sql_read f d = (f d, d)"

definition sql_write :: "(db \<Rightarrow> db) \<Rightarrow> db \<Rightarrow> unit \<times> db" where
  "sql_write f d = ((), f d)"

definition tx_begin :: "(nat \<Rightarrow> bool) \<Rightarrow> unit tx" where
  "tx_begin fault c =
     (let c1 = c\<lparr> executed := Suc (executed c) \<rparr>
      in if fault (executed c) then (Inl Db_error, c1)
         else (Inr (), c1\<lparr> working := committed c, aborted := False \<rparr>))"

definition tx_rollback :: "conn \<Rightarrow> conn" where
  "tx_rollback c = c\<lparr> working := committed c, aborted := False \<rparr>"

definition tx_commit :: "(nat \<Rightarrow> bool) \<Rightarrow> unit tx" where
  "tx_commit fault c =
     (let c1 = c\<lparr> executed := Suc (executed c) \<rparr>
      in if fault (executed c) then (Inl Db_error, c1)
         else if aborted c then (Inr (), tx_rollback c1)
         else (Inr (), c1\<lparr> committed := working c \<rparr>))"

text \<open>The schedule of a database that executes every statement.\<close>

definition no_fault :: "nat \<Rightarrow> bool" where
  "no_fault n = False"

section \<open>PUT /orders/:id\<close>

record update_req =
  u_status :: "status option"
  u_items :: "item list option"
  u_originalItems :: "item list option"
  u_preserveDiscount :: bool
  u_originalDiscount :: int

definition valid_update :: "update_req \<Rightarrow> bool" where
  "valid_update r =
     ((case u_status r of None \<Rightarrow> True | Some s \<Rightarrow> s = Pending \<or> s = Completed) \<and>
      (case u_items r of
         None \<Rightarrow> True
       | Some its \<Rightarrow>
           its \<noteq> [] \<and>
           list_all (\<lambda>it. 1 \<le> productId it \<and> 1 \<le> quantity it \<and> 0 \<le> price it) its))"

text \<open>The payload of the 200: \<open>status\<close> (\<open>None\<close> prints as \<open>'unchanged'\<close>) and
  \<open>itemsUpdated\<close>.\<close>

record update_ok =
  r_status :: "status option"
  r_itemsUpdated :: bool

definition set_status :: "status \<Rightarrow> int \<Rightarrow> db \<Rightarrow> db" where
  \<comment> \<open>\<open>UPDATE orders SET status = $1 WHERE id = $2\<close>\<close>
  "set_status s orderId d =
     d\<lparr> orders := map (\<lambda>r. if o_id r = orderId then r\<lparr> o_status := s \<rparr> else r) (orders d) \<rparr>"

definition current_items :: "int \<Rightarrow> db \<Rightarrow> order_item list" where
  \<comment> \<open>\<open>SELECT ... FROM order_items oi JOIN products p ON oi.product_id = p.id
      WHERE oi.order_id = $1\<close>\<close>
  "current_items orderId d =
     filter (\<lambda>i. oi_order_id i = orderId \<and> find_product d (oi_product_id i) \<noteq> None)
       (order_items d)"

definition order_client :: "int \<Rightarrow> db \<Rightarrow> int option" where
  \<comment> \<open>\<open>orderClientResult.rows[0]?.client_id\<close>\<close>
  "order_client orderId d =
     (case find_order d orderId of None \<Rightarrow> None | Some r \<Rightarrow> o_client_id r)"

definition delete_order_items :: "int \<Rightarrow> db \<Rightarrow> db" where
  "delete_order_items orderId d =
     d\<lparr> order_items := filter (\<lambda>i. oi_order_id i \<noteq> orderId) (order_items d) \<rparr>"

definition items_total :: "int \<Rightarrow> db \<Rightarrow> int" where
  \<comment> \<open>\<open>SELECT SUM(oi.quantity * oi.price) ... WHERE oi.order_id = $1\<close>, then
      \<open>totals.total_amount || 0\<close>\<close>
  "items_total orderId d =
     sum_list (map (\<lambda>i. oi_quantity i * oi_price i)
       (filter (\<lambda>i. oi_order_id i = orderId) (order_items d)))"

definition set_total :: "int \<Rightarrow> int \<Rightarrow> db \<Rightarrow> db" where
  "set_total amount orderId d =
     d\<lparr> orders := map (\<lambda>r. if o_id r = orderId then r\<lparr> o_total_amount := amount \<rparr> else r)
                     (orders d) \<rparr>"

text \<open>One round of the loop over the new items: the stock check with its two
  \<open>throw\<close>s, the stock reduction and the insert.\<close>

definition insert_new_item :: "(nat \<Rightarrow> bool) \<Rightarrow> int \<Rightarrow> item \<Rightarrow> unit tx" where
  "insert_new_item fault orderId it =
     tx_bind (client_query fault (sql_read (\<lambda>d. find_product d (productId it)))) (\<lambda>row.
       case row of
         None \<Rightarrow> tx_throw (Product_not_found (productId it))
       | Some p \<Rightarrow>
           if p_stock_quantity p < quantity it
           then tx_throw (Insufficient_stock (productId it) (p_stock_quantity p) (quantity it))
           else
             tx_bind (client_query fault (sql_write (update_stock (productId it) (- quantity it))))
               (\<lambda>_. client_query fault (sql_write (insert_order_item orderId it))))"

text \<open>The ledger rows the edit sets out to write: one per currency with a non-zero net
  change, when the order has a client.\<close>

definition edit_entries :: "net_debt_change \<Rightarrow> int option \<Rightarrow> int \<Rightarrow> int \<Rightarrow> adjustment list" where
  "edit_entries net clientId uid now =
     (if eurNetChange net \<noteq> 0 \<and> truthy clientId
      then [ledger_row (the clientId) (- eurNetChange net) EUR (eurNote net) uid now] else []) @
     (if mkdNetChange net \<noteq> 0 \<and> truthy clientId
      then [ledger_row (the clientId) (- mkdNetChange net) MKD (mkdNote net) uid now] else [])"

text \<open>The item replacement: restore the stock of the stored items, delete them, insert
  the new ones, write the net ledger rows (each insert in its own \<open>try\<close>/\<open>catch\<close>),
  recompute the total. The two loops that only re-read and log the stock are left out; the
  category look-ups of \<open>calculateNetDebtChange\<close> are read in one statement.\<close>

definition replace_items ::
  "(nat \<Rightarrow> bool) \<Rightarrow> int \<Rightarrow> int \<Rightarrow> int \<Rightarrow> update_req \<Rightarrow> item list \<Rightarrow> unit tx" where
  "replace_items fault now uid orderId r items =
     tx_bind (client_query fault (sql_read (current_items orderId))) (\<lambda>currentItems.
     tx_bind (tx_forEach (\<lambda>i. client_query fault
                (sql_write (update_stock (oi_product_id i) (oi_quantity i)))) currentItems) (\<lambda>_.
     tx_bind (client_query fault (sql_read (order_client orderId))) (\<lambda>clientId.
     tx_bind (client_query fault (sql_write (delete_order_items orderId))) (\<lambda>_.
     tx_bind (tx_forEach (insert_new_item fault orderId) items) (\<lambda>_.
     tx_bind (client_query fault (sql_read (\<lambda>d.
                calculateNetDebtChange (category_of d)
                  (case u_originalItems r of None \<Rightarrow> [] | Some its \<Rightarrow> its) items orderId))) (\<lambda>net.
     tx_bind (if eurNetChange net \<noteq> 0 \<and> truthy clientId
              then tx_try (client_query fault (sql_write (insert_adjustment
                     (ledger_row (the clientId) (- eurNetChange net) EUR (eurNote net) uid now))))
              else tx_return ()) (\<lambda>_.
     tx_bind (if mkdNetChange net \<noteq> 0 \<and> truthy clientId
              then tx_try (client_query fault (sql_write (insert_adjustment
                     (ledger_row (the clientId) (- mkdNetChange net) MKD (mkdNote net) uid now))))
              else tx_return ()) (\<lambda>_.
     tx_bind (client_query fault (sql_read (items_total orderId))) (\<lambda>sumTotal.
     client_query fault (sql_write (set_total
       (if u_preserveDiscount r \<and> u_originalDiscount r > 0
        then max 0 (sumTotal - u_originalDiscount r) else sumTotal) orderId)))))))))))"

definition update_status_if_given :: "(nat \<Rightarrow> bool) \<Rightarrow> int \<Rightarrow> update_req \<Rightarrow> unit tx" where
  "update_status_if_given fault orderId r =
     (case u_status r of
        None \<Rightarrow> tx_return ()
      | Some s \<Rightarrow> client_query fault (sql_write (set_status s orderId)))"

definition commit_with :: "(nat \<Rightarrow> bool) \<Rightarrow> 'a \<Rightarrow> 'a tx" where
  "commit_with fault resp = tx_bind (tx_commit fault) (\<lambda>_. tx_return resp)"

text \<open>The body of the inner \<open>try\<close>, from \<open>BEGIN\<close> to the \<open>COMMIT\<close> of the branch taken.\<close>

definition PUT_orders_tx ::
  "(nat \<Rightarrow> bool) \<Rightarrow> int \<Rightarrow> int \<Rightarrow> int \<Rightarrow> update_req \<Rightarrow> update_ok tx" where
  "PUT_orders_tx fault now uid orderId r =
     tx_bind (tx_begin fault) (\<lambda>_.
     tx_bind (update_status_if_given fault orderId r) (\<lambda>_.
       case u_items r of
         None \<Rightarrow> commit_with fault \<lparr> r_status = u_status r, r_itemsUpdated = False \<rparr>
       | Some items \<Rightarrow>
           if \<not> checkItemsChanged (case u_originalItems r of None \<Rightarrow> [] | Some its \<Rightarrow> its) items
           then
             tx_bind (update_status_if_given fault orderId r) (\<lambda>_.
               commit_with fault \<lparr> r_status = u_status r, r_itemsUpdated = False \<rparr>)
           else
             tx_bind (replace_items fault now uid orderId r items) (\<lambda>_.
               commit_with fault \<lparr> r_status = u_status r, r_itemsUpdated = True \<rparr>)))"

text \<open>The handler: validation, the existence check, the transaction, and the
  \<open>catch\<close> that rolls back and answers 500. \<open>uid\<close> is the id of the admin the
  middleware let through, \<open>now\<close> the timestamp of the transaction.\<close>

definition PUT_orders ::
  "(nat \<Rightarrow> bool) \<Rightarrow> int \<Rightarrow> int \<Rightarrow> int \<Rightarrow> update_req \<Rightarrow> db \<Rightarrow> update_ok response \<times> db" where
  "PUT_orders fault now uid orderId r d =
     (if \<not> valid_update r then (Bad_request, d)
      else if find_order d orderId = None then (Not_found, d)
      else
        (case PUT_orders_tx fault now uid orderId r (connect d) of
           (Inr resp, c) \<Rightarrow> (Ok resp, committed c)
         | (Inl e, c) \<Rightarrow> (Server_error, committed (tx_rollback c))))"

section \<open>DELETE /orders/:id\<close>

definition stored_items :: "int \<Rightarrow> db \<Rightarrow> order_item list" where
  \<comment> \<open>\<open>SELECT product_id, quantity FROM order_items WHERE order_id = $1\<close>\<close>
  "stored_items orderId d = filter (\<lambda>i. oi_order_id i = orderId) (order_items d)"

definition delete_order :: "int \<Rightarrow> db \<Rightarrow> db" where
  "delete_order orderId d = d\<lparr> orders := filter (\<lambda>r. o_id r \<noteq> orderId) (orders d) \<rparr>"

text \<open>The transaction; \<open>None\<close> is the early return of the 404 branch, which rolls back.\<close>

definition DELETE_orders_tx :: "(nat \<Rightarrow> bool) \<Rightarrow> int \<Rightarrow> nat option tx" where
  "DELETE_orders_tx fault orderId =
     tx_bind (tx_begin fault) (\<lambda>_.
     tx_bind (client_query fault (sql_read (\<lambda>d. find_order d orderId))) (\<lambda>orderResult.
       case orderResult of
         None \<Rightarrow> tx_return None
       | Some ord \<Rightarrow>
           tx_bind (client_query fault (sql_read (stored_items orderId))) (\<lambda>rows.
           tx_bind (tx_forEach (\<lambda>i. client_query fault
                      (sql_write (update_stock (oi_product_id i) (oi_quantity i)))) rows) (\<lambda>_.
           tx_bind (client_query fault (sql_write (delete_order_items orderId))) (\<lambda>_.
           tx_bind (client_query fault (sql_write (delete_order orderId))) (\<lambda>_.
           commit_with fault (Some (length rows))))))))"

definition DELETE_orders :: "(nat \<Rightarrow> bool) \<Rightarrow> int \<Rightarrow> db \<Rightarrow> nat response \<times> db" where
  "DELETE_orders fault orderId d =
     (case DELETE_orders_tx fault orderId (connect d) of
        (Inr None, c) \<Rightarrow> (Not_found, committed (tx_rollback c))
      | (Inr (Some itemsRestored), c) \<Rightarrow> (Ok itemsRestored, committed c)
      | (Inl e, c) \<Rightarrow> (Server_error, committed (tx_rollback c)))"

section \<open>PUT /orders/:id/status\<close>

text \<open>The route is registered twice. Express runs the first registration, which answers
  every request; the second ("for backward compatibility") is written out as well. Both
  validate \<open>status\<close> with \<open>isIn(['pending', 'completed'])\<close> (a missing status fails)
  and run outside a transaction.\<close>

definition valid_status :: "status option \<Rightarrow> bool" where
  "valid_status s = (s = Some Pending \<or> s = Some Completed)"

definition PUT_orders_status :: "int \<Rightarrow> status option \<Rightarrow> db \<Rightarrow> status response \<times> db" where
  "PUT_orders_status orderId s d =
     (if \<not> valid_status s then (Bad_request, d)
      else
        (let d' = set_status (the s) orderId d
         in case find_order d' orderId of
              None \<Rightarrow> (Not_found, d')
            | Some r \<Rightarrow> (Ok (o_status r), d')))"

definition PUT_orders_status_compat :: "int \<Rightarrow> status option \<Rightarrow> db \<Rightarrow> status response \<times> db" where
  "PUT_orders_status_compat orderId s d =
     (if \<not> valid_status s then (Bad_request, d)
      else if find_order d orderId = None then (Not_found, d)
      else (Ok (the s), set_status (the s) orderId d))"

definition order_status :: "db \<Rightarrow> int \<Rightarrow> status option" where
  "order_status d orderId = map_option o_status (find_order d orderId)"

section \<open>GET /users/debt-logs: debt before and after an entry\<close>

text \<open>\<open>beforeTimestamp = new Date(adjustment.created_at.getTime() - 1000)\<close>: a
  JavaScript \<open>Date\<close> counts whole milliseconds, and the buffer is one second.\<close>

definition beforeTimestamp :: "adjustment \<Rightarrow> int" where
  "beforeTimestamp adj = (a_created_at adj div 1000 - 1000) * 1000"

text \<open>\<open>SELECT COALESCE(SUM(adjustment_amount), 0) ... WHERE user_id = $1 AND currency = $2
  AND created_at < $3 AND adjustment_type = 'manual_reduction'\<close>; a NULL currency
  matches no row.\<close>

definition sum_before :: "db \<Rightarrow> adjustment \<Rightarrow> int" where
  "sum_before d adj =
     sum_list (map a_amount
       (filter (\<lambda>a. a_user_id a = a_user_id adj \<and>
                     a_currency adj \<noteq> None \<and> a_currency a = a_currency adj \<and>
                     a_created_at a < beforeTimestamp adj \<and>
                     a_type a = Manual_reduction)
          (user_debt_adjustments d)))"

definition notes_include :: "adjustment \<Rightarrow> string \<Rightarrow> bool" where
  \<comment> \<open>\<open>adjustment.notes && adjustment.notes.includes(sub)\<close>\<close>
  "notes_include adj sub =
     (case a_notes adj of None \<Rightarrow> False | Some s \<Rightarrow> s \<noteq> [] \<and> includes_str s sub)"

record debt_history =
  debt_before :: int
  debt_after :: int

definition debt_history_of :: "db \<Rightarrow> adjustment \<Rightarrow> debt_history" where
  "debt_history_of d adj =
     (let debtBefore = \<bar>sum_before d adj\<bar>;
          rawAdjustmentAmount = a_amount adj;
          adjustmentAmount = \<bar>rawAdjustmentAmount\<bar>;
          debtAfter =
            (if notes_include adj ''increased'' \<or> notes_include adj ''Debt increase'' \<or>
                notes_include adj ''Added'' \<or> notes_include adj ''Increased''
             then debtBefore + adjustmentAmount
             else if notes_include adj ''reduced'' \<or> notes_include adj ''removed'' \<or>
                     notes_include adj ''Reduced''
             then debtBefore - adjustmentAmount
             else debtBefore + rawAdjustmentAmount)
      in \<lparr> debt_before = \<bar>debtBefore\<bar>, debt_after = \<bar>debtAfter\<bar> \<rparr>)"

text \<open>The logs of the response: the \<open>'manual_reduction'\<close> entries, each with its
  history. The page of the request is a part of this list; the client-name and date
  filters and the ordering select and arrange entries and do not enter the history.\<close>

definition GET_users_debt_logs :: "db \<Rightarrow> (adjustment \<times> debt_history) list" where
  "GET_users_debt_logs d =
     map (\<lambda>adj. (adj, debt_history_of d adj))
       (filter (\<lambda>a. a_type a = Manual_reduction) (user_debt_adjustments d))"

section \<open>Revenue\<close>

text \<open>The rows of \<open>orders o JOIN order_items oi ON o.id = oi.order_id
  JOIN products p ON oi.product_id = p.id\<close>.\<close>

definition order_item_product_rows :: "db \<Rightarrow> (order_row \<times> order_item \<times> product) list" where
  "order_item_product_rows d =
     concat (map (\<lambda>ord.
       concat (map (\<lambda>oi.
         map (\<lambda>p. (ord, oi, p)) (filter (\<lambda>p. p_id p = oi_product_id oi) (products d)))
         (filter (\<lambda>oi. oi_order_id oi = o_id ord) (order_items d))))
       (orders d))"

text \<open>\<open>COALESCE(SUM(CASE WHEN p.category [=, !=] 'smartphones'
  THEN oi.quantity * oi.price ELSE 0 END), 0)\<close> over the rows that pass \<open>WHERE\<close>.\<close>

definition revenue_sum ::
  "currency \<Rightarrow> (order_row \<times> order_item \<times> product) list \<Rightarrow> int" where
  "revenue_sum c rows =
     sum_list (map (\<lambda>(ord, oi, p).
        if currency_of (Some (p_category p)) = c then oi_quantity oi * oi_price oi else 0) rows)"

record revenue =
  eurRevenue :: int
  mkdRevenue :: int
  totalRevenue :: int

definition GET_orders_revenue :: "db \<Rightarrow> revenue" where
  "GET_orders_revenue d =
     (let rows = filter (\<lambda>(ord, oi, p). o_status ord = Completed) (order_item_product_rows d);
          eur = revenue_sum EUR rows; mkd = revenue_sum MKD rows
      in \<lparr> eurRevenue = eur, mkdRevenue = mkd, totalRevenue = eur + mkd \<rparr>)"

text \<open>The revenue and \<open>totalPaid\<close> of the financial summary of
  \<open>GET /users/:id/profile\<close>.\<close>

record profile_revenue =
  pr_eurRevenue :: int
  pr_mkdRevenue :: int
  pr_totalPaid :: int

definition profile_revenue_of :: "db \<Rightarrow> int \<Rightarrow> profile_revenue" where
  "profile_revenue_of d uid =
     (let rows = filter (\<lambda>(ord, oi, p). o_client_id ord = Some uid \<and> o_status ord = Completed)
                   (order_item_product_rows d);
          completedOrders = filter (\<lambda>ord. o_status ord = Completed)
                              (filter (\<lambda>ord. o_client_id ord = Some uid) (orders d))
      in \<lparr> pr_eurRevenue = revenue_sum EUR rows, pr_mkdRevenue = revenue_sum MKD rows,
           pr_totalPaid = sum_list (map o_total_amount completedOrders) \<rparr>)"

section \<open>Reference notions of the specification\<close>

text \<open>The per-currency total of a list of requested items at the shop's prices: the sum of
  \<open>price \<times> quantity\<close> over the items whose product settles in the currency.\<close>

definition requested_total :: "db \<Rightarrow> currency \<Rightarrow> item list \<Rightarrow> int" where
  "requested_total d c its =
     sum_list (map (\<lambda>it. case find_product d (productId it) of
                             None \<Rightarrow> 0
                           | Some p \<Rightarrow> p_price p * quantity it)
       (filter (\<lambda>it. currency_of (category_of d (productId it)) = c) its))"

text \<open>The total the creation charges to the ledger in a currency: the caller's
  discounted total when it is positive, the computed one otherwise.\<close>

definition final_total :: "create_req \<Rightarrow> db \<Rightarrow> currency \<Rightarrow> int" where
  "final_total r d c =
     (let given = (if c = EUR then c_totalEur r else c_totalMkd r)
      in if given > 0 then given else requested_total d c (c_items r))"

text \<open>The specification's debt before an entry: the negated sum of the amounts of all
  entries of the same client and currency created strictly earlier.\<close>

definition claimed_debt_before :: "db \<Rightarrow> adjustment \<Rightarrow> int" where
  "claimed_debt_before d adj =
     - sum_list (map a_amount
         (filter (\<lambda>a. a_user_id a = a_user_id adj \<and> a_currency a = a_currency adj \<and>
                       a_created_at a < a_created_at adj)
            (user_debt_adjustments d)))"

text \<open>The total of the stored items of an order in a currency (the \<open>eur_total\<close> and
  \<open>mkd_total\<close> of the order list), and the charged totals of the completed orders.\<close>

definition order_currency_total :: "db \<Rightarrow> currency \<Rightarrow> int \<Rightarrow> int" where
  "order_currency_total d c orderId =
     sum_list (map (\<lambda>oi. oi_quantity oi * oi_price oi)
       (filter (\<lambda>oi. oi_order_id oi = orderId \<and> find_product d (oi_product_id oi) \<noteq> None \<and>
                      currency_of (category_of d (oi_product_id oi)) = c)
          (order_items d)))"

definition charged_total_completed :: "db \<Rightarrow> int" where
  "charged_total_completed d =
     sum_list (map o_total_amount (filter (\<lambda>ord. o_status ord = Completed) (orders d)))"

text \<open>The two keyword tests of the debt log, and the conditions under which its "debt
  before" can agree with the specification's: every entry of the ledger has the type the
  log sums, and no entry of the client and currency lies in the last second before the
  entry.\<close>

definition says_increase :: "adjustment \<Rightarrow> bool" where
  "says_increase adj =
     (notes_include adj ''increased'' \<or> notes_include adj ''Debt increase'' \<or>
      notes_include adj ''Added'' \<or> notes_include adj ''Increased'')"

definition says_reduce :: "adjustment \<Rightarrow> bool" where
  "says_reduce adj =
     (notes_include adj ''reduced'' \<or> notes_include adj ''removed'' \<or>
      notes_include adj ''Reduced'')"

definition all_manual_reduction :: "db \<Rightarrow> bool" where
  "all_manual_reduction d = list_all (\<lambda>a. a_type a = Manual_reduction) (user_debt_adjustments d)"

definition quiet_second :: "db \<Rightarrow> adjustment \<Rightarrow> bool" where
  "quiet_second d adj =
     list_all (\<lambda>a. \<not> (a_user_id a = a_user_id adj \<and> a_currency a = a_currency adj \<and>
                       (a_created_at adj div 1000) * 1000 \<le> a_created_at a + 1000000 \<and>
                       a_created_at a < a_created_at adj))
       (user_debt_adjustments d)"

text \<open>The debt the log counts before an entry: the negated sum of the amounts of the
  \<open>'manual_reduction'\<close> entries of the same client and currency created more than one
  second (1000000 microseconds) before the entry's timestamp in whole milliseconds.\<close>

definition counted_debt_before :: "db \<Rightarrow> adjustment \<Rightarrow> int" where
  "counted_debt_before d adj =
     - sum_list (map a_amount
         (filter (\<lambda>a. a_user_id a = a_user_id adj \<and> a_currency a = a_currency adj \<and>
                       a_type a = Manual_reduction \<and>
                       a_created_at a + 1000000 < (a_created_at adj div 1000) * 1000)
            (user_debt_adjustments d)))"

text \<open>The rows of the join that belong to one order.\<close>

definition rows_of :: "db \<Rightarrow> order_row \<Rightarrow> (order_row \<times> order_item \<times> product) list" where
  "rows_of d ord = concat (map (\<lambda>oi.
         map (\<lambda>p. (ord, oi, p)) (filter (\<lambda>p. p_id p = oi_product_id oi) (products d)))
         (filter (\<lambda>oi. oi_order_id oi = o_id ord) (order_items d)))"

section \<open>What a transaction leaves behind\<close>

text \<open>Two properties of a piece of transaction code: it never changes the committed
  state, and it does not change the committed state when it throws.\<close>

definition keeps_committed :: "'a tx \<Rightarrow> bool" where
  "keeps_committed m = (\<forall>c r c'. m c = (r, c') \<longrightarrow> committed c' = committed c)"

definition throws_uncommitted :: "'a tx \<Rightarrow> bool" where
  "throws_uncommitted m = (\<forall>c e c'. m c = (Inl e, c') \<longrightarrow> committed c' = committed c)"

text \<open>The tables a successful item replacement commits, step by step: the stock of the
  stored items restored, the stored items deleted, the new items inserted with their stock
  taken, the net ledger rows appended, the total recomputed.\<close>

definition with_status :: "update_req \<Rightarrow> int \<Rightarrow> db \<Rightarrow> db" where
  "with_status r orderId d = (case u_status r of None \<Rightarrow> d | Some s \<Rightarrow> set_status s orderId d)"

definition restored :: "order_item list \<Rightarrow> db \<Rightarrow> db" where
  "restored rows d = foldl (\<lambda>d i. update_stock (oi_product_id i) (oi_quantity i) d) d rows"

definition inserted :: "int \<Rightarrow> item list \<Rightarrow> db \<Rightarrow> db" where
  "inserted orderId items d =
     foldl (\<lambda>d it. insert_order_item orderId it (update_stock (productId it) (- quantity it) d))
       d items"

definition net_of :: "update_req \<Rightarrow> item list \<Rightarrow> int \<Rightarrow> db \<Rightarrow> net_debt_change" where
  "net_of r items orderId d =
     calculateNetDebtChange (category_of d)
       (case u_originalItems r of None \<Rightarrow> [] | Some its \<Rightarrow> its) items orderId"

definition edited :: "int \<Rightarrow> int \<Rightarrow> int \<Rightarrow> update_req \<Rightarrow> item list \<Rightarrow> db \<Rightarrow> db" where
  "edited now uid orderId r items d =
     (let d1 = restored (current_items orderId d) d;
          clientId = order_client orderId d1;
          d2 = inserted orderId items (delete_order_items orderId d1);
          d3 = foldl (\<lambda>d a. insert_adjustment a d) d2
                 (edit_entries (net_of r items orderId d2) clientId uid now);
          sumTotal = items_total orderId d3
      in set_total (if u_preserveDiscount r \<and> u_originalDiscount r > 0
                    then max 0 (sumTotal - u_originalDiscount r) else sumTotal) orderId d3)"

text \<open>The stock checks of the insert loop, each on the tables the items before it have
  left: the product exists and has the quantity.\<close>

fun stock_ok :: "int \<Rightarrow> item list \<Rightarrow> db \<Rightarrow> bool" where
  "stock_ok orderId [] d = True"
| "stock_ok orderId (it # its) d =
     (case find_product d (productId it) of
        None \<Rightarrow> False
      | Some p \<Rightarrow>
          quantity it \<le> p_stock_quantity p \<and>
          stock_ok orderId its
            (insert_order_item orderId it (update_stock (productId it) (- quantity it) d)))"

section \<open>The net change of the specification\<close>

text \<open>The item sets of the specification hold a product at most once; \<open>held_item\<close> is
  the item a set holds for a product, \<open>item_pairs\<close> the set as product ids with
  quantities.\<close>

definition held_item :: "item list \<Rightarrow> int \<Rightarrow> item option" where
  "held_item its pid = find (\<lambda>it. productId it = pid) its"

definition item_pairs :: "item list \<Rightarrow> (int \<times> int) set" where
  "item_pairs its = set (map (\<lambda>it. (productId it, quantity it)) its)"

text \<open>The routing: smartphone-category products to EUR, all others to MKD.\<close>

definition settles_in :: "currency \<Rightarrow> category option \<Rightarrow> bool" where
  "settles_in c k = (case c of EUR \<Rightarrow> k = Some Smartphones | MKD \<Rightarrow> k \<noteq> Some Smartphones)"

text \<open>The financial effect of one product: an added product counts with its whole line, a
  removed product with its whole line negated, a changed quantity with the difference times
  the price (the new price for an increase, the old price for a decrease).\<close>

definition line_delta :: "item option \<Rightarrow> item option \<Rightarrow> int" where
  "line_delta old new =
     (case old of
        None \<Rightarrow> (case new of None \<Rightarrow> 0 | Some n \<Rightarrow> quantity n * price n)
      | Some x \<Rightarrow>
          (case new of
             None \<Rightarrow> - (quantity x * price x)
           | Some n \<Rightarrow>
               if quantity n > quantity x then (quantity n - quantity x) * price n
               else if quantity n < quantity x then - ((quantity x - quantity n) * price x)
               else 0))"

text \<open>The net change of a currency between an old and a new item set: the sum of the
  effects of the products of both sets that are routed to the currency.\<close>

definition spec_net_change ::
  "(int \<Rightarrow> category option) \<Rightarrow> currency \<Rightarrow> item list \<Rightarrow> item list \<Rightarrow> int" where
  "spec_net_change cat c old new =
     sum (\<lambda>pid. line_delta (held_item old pid) (held_item new pid))
       (Set.filter (\<lambda>pid. settles_in c (cat pid)) (productId ` (set old \<union> set new)))"

text \<open>The stored item rows of an order, read as an item set.\<close>

definition stored_as_items :: "int \<Rightarrow> db \<Rightarrow> item list" where
  "stored_as_items orderId d =
     map (\<lambda>i. \<lparr> productId = oi_product_id i, quantity = oi_quantity i, price = oi_price i,
                name = [] \<rparr>)
       (filter (\<lambda>i. oi_order_id i = orderId) (order_items d))"

text \<open>The columns of a ledger row the net change decides.\<close>

definition entry_amount :: "adjustment \<Rightarrow> int \<times> currency option \<times> int" where
  "entry_amount a = (a_user_id a, a_currency a, a_amount a)"

section \<open>The maps of the reconciler\<close>

text \<open>What the \<open>Map\<close> built from a list holds for a product (the later element when the
  list names a product twice), and the sum the three accumulation loops compute over the
  two maps.\<close>

definition item_of :: "item list \<Rightarrow> int \<Rightarrow> item option" where
  "item_of its pid = find (\<lambda>it. productId it = pid) (rev its)"

definition map_net_change ::
  "(int \<Rightarrow> category option) \<Rightarrow> currency \<Rightarrow> item list \<Rightarrow> item list \<Rightarrow> int" where
  "map_net_change cat c old new =
     sum (\<lambda>pid. line_delta (item_of old pid) (item_of new pid))
       (Set.filter (\<lambda>pid. currency_of (cat pid) = c) (productId ` (set old \<union> set new)))"

text \<open>The two halves of \<open>line_delta\<close>, as the two loops of the reconciler see them: what
  the new item of a product contributes given the old one, and what the old item
  contributes given the new one. \<open>pick\<close> reads one accumulator of the pair.\<close>

definition new_side :: "item option \<Rightarrow> item \<Rightarrow> int" where
  "new_side old n =
     (case old of
        None \<Rightarrow> quantity n * price n
      | Some x \<Rightarrow> if quantity n > quantity x then (quantity n - quantity x) * price n else 0)"

definition old_side :: "item \<Rightarrow> item option \<Rightarrow> int" where
  "old_side x new =
     (case new of
        None \<Rightarrow> - (quantity x * price x)
      | Some n \<Rightarrow> if quantity n < quantity x then - ((quantity x - quantity n) * price x) else 0)"

definition pick :: "currency \<Rightarrow> int \<times> int \<Rightarrow> int" where
  "pick c acc = (if c = EUR then fst acc else snd acc)"

text \<open>\<open>originalItems || []\<close>, and what the specification says of a new item that makes
  an edit fail: its product does not exist, or it asks for more than the stock available
  once the stored items of the order have been restored.\<close>

definition original_of :: "update_req \<Rightarrow> item list" where
  "original_of r = (case u_originalItems r of None \<Rightarrow> [] | Some its \<Rightarrow> its)"

definition restored_quantity :: "db \<Rightarrow> int \<Rightarrow> int \<Rightarrow> int" where
  "restored_quantity d orderId pid =
     sum_list (map oi_quantity (filter (\<lambda>i. oi_product_id i = pid) (current_items orderId d)))"

definition item_unavailable :: "db \<Rightarrow> int \<Rightarrow> item \<Rightarrow> bool" where
  "item_unavailable d orderId it =
     (case find_product d (productId it) of
        None \<Rightarrow> True
      | Some p \<Rightarrow> p_stock_quantity p + restored_quantity d orderId (productId it) < quantity it)"

text \<open>The columns of a ledger row that the reconciler computes.\<close>

definition entry_content :: "adjustment \<Rightarrow> currency option \<times> int \<times> string option" where
  "entry_content a = (a_currency a, a_amount a, a_notes a)"

section \<open>Concrete states\<close>

text \<open>A shop with one smartphone (EUR) and three accessories (MKD).\<close>

definition phone :: product where
  "phone = \<lparr> p_id = 1, p_name = ''Phone'', p_price = 100, p_stock_quantity = 5,
             p_stock_status = Enabled, p_category = Smartphones \<rparr>"

definition prodA :: product where
  "prodA = \<lparr> p_id = 2, p_name = ''A'', p_price = 10, p_stock_quantity = 5,
             p_stock_status = Enabled, p_category = Accessories \<rparr>"

definition prodB :: product where
  "prodB = \<lparr> p_id = 3, p_name = ''B'', p_price = 5, p_stock_quantity = 5,
             p_stock_status = Enabled, p_category = Accessories \<rparr>"

definition prodC :: product where
  "prodC = \<lparr> p_id = 4, p_name = ''C'', p_price = 20, p_stock_quantity = 5,
             p_stock_status = Enabled, p_category = Accessories \<rparr>"

definition shop :: db where
  "shop = \<lparr> products = [phone, prodA, prodB, prodC], orders = [], order_items = [],
            user_debt_adjustments = [], orders_seq = 1 \<rparr>"

text \<open>Client 7 bought one phone on a pending order (ledger entry -100 EUR) and then paid
  140 EUR, recorded by the admin (user 1) as a manual reduction of +140: the client is 40 EUR
  in credit.\<close>

definition credit_db :: db where
  "credit_db =
     \<lparr> products = [phone\<lparr> p_stock_quantity := 4 \<rparr>, prodA, prodB, prodC],
       orders = [\<lparr> o_id = 1, o_client_id = Some 7, o_guest_name = None, o_status = Pending,
                   o_original_status = Pending, o_total_amount = 100, o_discount_amount = 0,
                   o_discount_currency = ''EUR'', o_original_total = 100 \<rparr>],
       order_items = [\<lparr> oi_order_id = 1, oi_product_id = 1, oi_quantity = 1, oi_price = 100 \<rparr>],
       user_debt_adjustments =
         [ledger_row 7 (- 100) EUR ''Debt increase from pending order #1'' 7 1000000,
          \<lparr> a_user_id = 7, a_amount = 140, a_type = Manual_reduction, a_currency = Some EUR,
            a_notes = None, a_created_by = 1, a_created_at = 5000000 \<rparr>],
       orders_seq = 2 \<rparr>"

definition client7 :: actor where
  "client7 = \<lparr> user_id = 7, is_admin = False \<rparr>"

definition admin1 :: actor where
  "admin1 = \<lparr> user_id = 1, is_admin = True \<rparr>"

text \<open>One phone, no discount; the same with a discounted total of 90 EUR; the same
  created as completed.\<close>

definition phone_req :: create_req where
  "phone_req = \<lparr> c_items = [\<lparr> productId = 1, quantity = 1, price = 0, name = [] \<rparr>],
     c_guestName = None, c_clientId = None, c_status = None, c_discount = 0,
     c_discountCurrency = ''EUR'', c_totalMkd = 0, c_totalEur = 0 \<rparr>"

definition discounted_req :: create_req where
  "discounted_req = phone_req\<lparr> c_discount := 10, c_totalEur := 90 \<rparr>"

text \<open>A shop whose only product is given away.\<close>

definition gift_shop :: db where
  "gift_shop = shop\<lparr> products := [phone\<lparr> p_price := 0 \<rparr>] \<rparr>"

text \<open>The ledger of client 7: a pending order of 100 EUR at second 10, a payment of 30
  EUR at second 20, an order edit worth 10 EUR half a second later, and another of 10 EUR
  at second 30.\<close>

definition entry_order :: adjustment where
  "entry_order = ledger_row 7 (- 100) EUR ''Debt increase from pending order #1'' 7 10000000"

definition entry_payment :: adjustment where
  "entry_payment = ledger_row 7 30 EUR ''Payment'' 1 20000000"

definition entry_edit :: adjustment where
  "entry_edit = ledger_row 7 (- 10) EUR ''Items increased in order #1. Added: A (x1)'' 1 20500000"

definition entry_late :: adjustment where
  "entry_late = ledger_row 7 (- 10) EUR ''Items increased in order #1. Added: B (x2)'' 1 30000000"

definition log_db :: db where
  "log_db = shop\<lparr> user_debt_adjustments := [entry_order, entry_payment, entry_edit, entry_late] \<rparr>"

text \<open>Order 1 of \<open>credit_db\<close>, completed.\<close>

definition completed_db :: db where
  "completed_db = set_status Completed 1 credit_db"

text \<open>A ledger without a payment: the order of 100 EUR, an edit adding 20 EUR at second
  28.5, an edit adding 10 EUR at second 30, and an edit removing 5 EUR at second 40.\<close>

definition entry_early :: adjustment where
  "entry_early = ledger_row 7 (- 20) EUR ''Items increased in order #1. Added: C (x1)'' 1 28500000"

definition entry_removed :: adjustment where
  "entry_removed = ledger_row 7 5 EUR ''Items reduced from order #1. Removed: B (x1)'' 1 40000000"

definition steady_db :: db where
  "steady_db = shop\<lparr> user_debt_adjustments :=
                     [entry_order, entry_early, entry_late, entry_removed] \<rparr>"

text \<open>The shop after client 7 bought one phone as a completed order, charged 90 EUR
  after a discount of 10.\<close>

definition discount_sale_db :: db where
  "discount_sale_db =
     snd (POST_orders 1000000 client7 (discounted_req\<lparr> c_status := Some Completed \<rparr>) shop)"

text \<open>Request items over the accessories A (10 MKD), B (5 MKD), C (20 MKD) and the phone.\<close>

definition itemA :: "int \<Rightarrow> item" where
  "itemA q = \<lparr> productId = 2, quantity = q, price = 10, name = ''A'' \<rparr>"

definition itemB :: "int \<Rightarrow> item" where
  "itemB q = \<lparr> productId = 3, quantity = q, price = 5, name = ''B'' \<rparr>"

definition itemC :: "int \<Rightarrow> item" where
  "itemC q = \<lparr> productId = 4, quantity = q, price = 20, name = ''C'' \<rparr>"

definition itemPhone :: "int \<Rightarrow> item" where
  "itemPhone q = \<lparr> productId = 1, quantity = q, price = 100, name = ''Phone'' \<rparr>"

text \<open>The shop after client 7 ordered \<open>{A: 2, B: 1}\<close> (order 1, pending); after client 7
  ordered \<open>{C: 1}\<close> instead; after both orders (orders 1 and 2); and after an order of
  \<open>{A: 2, B: 3}\<close>.\<close>

definition order_ab_db :: db where
  "order_ab_db = snd (POST_orders 1000000 client7 (phone_req\<lparr> c_items := [itemA 2, itemB 1] \<rparr>) shop)"

definition order_c_db :: db where
  "order_c_db = snd (POST_orders 1000000 client7 (phone_req\<lparr> c_items := [itemC 1] \<rparr>) shop)"

definition two_orders_db :: db where
  "two_orders_db =
     snd (POST_orders 1500000 client7 (phone_req\<lparr> c_items := [itemC 1] \<rparr>) order_ab_db)"

definition order_23_db :: db where
  "order_23_db = snd (POST_orders 1000000 client7 (phone_req\<lparr> c_items := [itemA 2, itemB 3] \<rparr>) shop)"

text \<open>Edits: \<open>{A: 2, B: 1}\<close> to \<open>{A: 3, C: 1}\<close>; the same items in another order with a
  status change; \<open>{A: 3, C: 1}\<close> without \<open>originalItems\<close>; the stored items sent again without
  \<open>originalItems\<close>; a second phone and
  an A added to the one-phone order; an unknown product; more A than the shop has.\<close>

definition edit_req :: "item list option \<Rightarrow> item list \<Rightarrow> update_req" where
  "edit_req orig items = \<lparr> u_status = None, u_items = Some items, u_originalItems = orig,
     u_preserveDiscount = False, u_originalDiscount = 0 \<rparr>"

definition ab_to_ac :: update_req where
  "ab_to_ac = edit_req (Some [itemA 2, itemB 1]) [itemA 3, itemC 1]"

definition same_items :: update_req where
  "same_items = (edit_req (Some [itemA 2, itemB 1]) [itemB 1, itemA 2])\<lparr> u_status := Some Completed \<rparr>"

definition ac_unstated :: update_req where
  "ac_unstated = edit_req None [itemA 3, itemC 1]"

definition resend_items :: update_req where
  "resend_items = edit_req None [itemA 2, itemB 1]"

definition add_phone_and_a :: update_req where
  "add_phone_and_a = edit_req (Some [itemPhone 1]) [itemPhone 2, itemA 1]"

definition unknown_product :: update_req where
  "unknown_product = edit_req (Some [itemA 2, itemB 1])
     [itemA 2, \<lparr> productId = 99, quantity = 1, price = 1, name = ''X'' \<rparr>]"

definition too_many :: update_req where
  "too_many = edit_req (Some [itemA 2, itemB 1]) [itemA 6, itemB 1]"

text \<open>The schedule in which exactly the statement with the given number fails.\<close>

definition fault_at :: "nat \<Rightarrow> nat \<Rightarrow> bool" where
  "fault_at k n = (n = k)"

section \<open>Properties of the balance deriver\<close>

lemma assign_sums_absent:
  "Some EUR \<notin> fst ` set rows \<Longrightarrow> fst (assign_sums rows (e, m)) = e"
  "Some MKD \<notin> fst ` set rows \<Longrightarrow> snd (assign_sums rows (e, m)) = m"
  by (induction rows arbitrary: e m) auto

lemma assign_sums_eur:
  "distinct (map fst rows) \<Longrightarrow> (Some EUR, s) \<in> set rows \<Longrightarrow> fst (assign_sums rows (e, m)) = s"
proof (induction rows arbitrary: e m)
  case Nil
  then show ?case by simp
next
  case (Cons r rows)
  obtain c t where r: "r = (c, t)" by (cases r)
  show ?case
  proof (cases "c = Some EUR")
    case True
    with Cons.prems r have "t = s" and "Some EUR \<notin> fst ` set rows"
      by (auto simp: image_iff)
    with True r show ?thesis by (simp add: assign_sums_absent(1))
  next
    case False
    with Cons r show ?thesis by auto
  qed
qed

lemma assign_sums_mkd:
  "distinct (map fst rows) \<Longrightarrow> (Some MKD, s) \<in> set rows \<Longrightarrow> snd (assign_sums rows (e, m)) = s"
proof (induction rows arbitrary: e m)
  case Nil
  then show ?case by simp
next
  case (Cons r rows)
  obtain c t where r: "r = (c, t)" by (cases r)
  show ?case
  proof (cases "c = Some MKD")
    case True
    with Cons.prems r have "t = s" and "Some MKD \<notin> fst ` set rows"
      by (auto simp: image_iff)
    with True r show ?thesis by (simp add: assign_sums_absent(2))
  next
    case False
    with Cons r show ?thesis by auto
  qed
qed

lemma sums_by_currency_distinct: "distinct (map fst (sums_by_currency d uid))"
  by (simp add: sums_by_currency_def Let_def comp_def)

lemma sum_list_filter_none:
  "\<forall>x \<in> set xs. \<not> P x \<Longrightarrow> sum_list (map f (filter P xs)) = (0::int)"
  by (induction xs) auto

lemma filter_user_currency:
  "filter (\<lambda>a. a_currency a = c) (filter (\<lambda>a. a_user_id a = uid) xs)
     = filter (\<lambda>a. a_user_id a = uid \<and> a_currency a = c) xs"
  by (induction xs) auto

lemma profile_sum_eur:
  "fst (assign_sums (sums_by_currency d uid) (0, 0)) = ledger_sum d uid EUR"
proof (cases "Some EUR \<in> a_currency ` set (filter (\<lambda>a. a_user_id a = uid) (user_debt_adjustments d))")
  case True
  then have "(Some EUR, ledger_sum d uid EUR) \<in> set (sums_by_currency d uid)"
    by (auto simp: sums_by_currency_def Let_def ledger_sum_def filter_user_currency image_iff)
  then show ?thesis
    using assign_sums_eur [OF sums_by_currency_distinct] by blast
next
  case False
  then have "Some EUR \<notin> fst ` set (sums_by_currency d uid)"
    by (auto simp: sums_by_currency_def Let_def image_iff)
  moreover from False have "ledger_sum d uid EUR = 0"
    unfolding ledger_sum_def by (intro sum_list_filter_none) (auto simp: image_iff)
  ultimately show ?thesis by (simp add: assign_sums_absent(1))
qed

lemma profile_sum_mkd:
  "snd (assign_sums (sums_by_currency d uid) (0, 0)) = ledger_sum d uid MKD"
proof (cases "Some MKD \<in> a_currency ` set (filter (\<lambda>a. a_user_id a = uid) (user_debt_adjustments d))")
  case True
  then have "(Some MKD, ledger_sum d uid MKD) \<in> set (sums_by_currency d uid)"
    by (auto simp: sums_by_currency_def Let_def ledger_sum_def filter_user_currency image_iff)
  then show ?thesis
    using assign_sums_mkd [OF sums_by_currency_distinct] by blast
next
  case False
  then have "Some MKD \<notin> fst ` set (sums_by_currency d uid)"
    by (auto simp: sums_by_currency_def Let_def image_iff)
  moreover from False have "ledger_sum d uid MKD = 0"
    unfolding ledger_sum_def by (intro sum_list_filter_none) (auto simp: image_iff)
  ultimately show ?thesis by (simp add: assign_sums_absent(2))
qed

text \<open>The profile path reads the balance of the specification in both currencies.\<close>

lemma profile_debt_is_balance:
  "eurDebt (profile_debt d uid) = currentBalance d uid EUR"
  "mkdDebt (profile_debt d uid) = currentBalance d uid MKD"
  using profile_sum_eur [of d uid] profile_sum_mkd [of d uid]
  by (simp_all add: profile_debt_def currentBalance_def split_beta Let_def)

text \<open>
  Claim C1. Every read of the current debt of a client in a currency returns the negated
  sum of the client's ledger amounts in that currency, the profile summary and the debt
  figures of an invoice included. The profile does (\<open>profile_debt_is_balance\<close>); the invoice
  query takes \<open>ABS(SUM(...))\<close> instead. For client 7 of \<open>credit_db\<close>, whose entries
  -100 and +140 sum to +40, the balance is -40 (a credit of 40), the profile reports -40,
  and the invoice of order 1 carries an EUR debt of 40.
\<close>

theorem invoice_debt_is_abs_of_sum:
  "currentBalance credit_db 7 EUR = - 40 \<and>
   eurDebt (profile_debt credit_db 7) = - 40 \<and>
   GET_orders_invoice credit_db True 1 1 = Invoice 40 0"
  by code_simp

theorem invoice_debt_is_abs_of_sum_witness:
  "\<exists>e m. GET_orders_invoice credit_db True 1 1 = Invoice e m \<and>
     e = - currentBalance credit_db 7 EUR \<and> e \<noteq> currentBalance credit_db 7 EUR"
  using invoice_debt_is_abs_of_sum by simp

section \<open>Order creation and the ledger\<close>

lemma validate_items_totals:
  "validate_items d its (t, e, m, vs) = Some (t', e', m', vs') \<Longrightarrow>
     e' = e + requested_total d EUR its \<and> m' = m + requested_total d MKD its"
proof (induction its arbitrary: t e m vs)
  case Nil
  then show ?case by (simp add: requested_total_def)
next
  case (Cons it its)
  from Cons.prems obtain p where p: "find_product d (productId it) = Some p"
    by (auto split: option.splits)
  from Cons.prems p have rest:
    "validate_items d its
       (t + p_price p * quantity it,
        if p_category p = Smartphones then e + p_price p * quantity it else e,
        if p_category p = Smartphones then m else m + p_price p * quantity it,
        vs @ [\<lparr> productId = p_id p, quantity = quantity it, price = p_price p, name = p_name p \<rparr>])
     = Some (t', e', m', vs')"
    by (auto simp: Let_def split: if_splits)
  from Cons.IH [OF rest] p show ?case
    by (auto simp: requested_total_def category_of_def currency_of_def)
qed

lemma ledger_update_stock [simp]:
  "user_debt_adjustments (update_stock pid q d) = user_debt_adjustments d"
  by (simp add: update_stock_def)

lemma ledger_insert_order_item [simp]:
  "user_debt_adjustments (insert_order_item oid it d) = user_debt_adjustments d"
  by (simp add: insert_order_item_def)

lemma ledger_foldl_items:
  "user_debt_adjustments
     (foldl (\<lambda>d it. update_stock (productId it) (- quantity it) (insert_order_item oid it d)) d its)
   = user_debt_adjustments d"
  by (induction its arbitrary: d) simp_all

text \<open>
  Claim C5, amended. An order creation that succeeds appends ledger entries only when the
  order is created pending for a registered client (never for a guest order, never for an
  order created completed). It then appends one entry per currency whose final total is
  positive, with the negated final total as amount, where the final total of a currency is
  the caller's discounted total (\<open>totalEur\<close>, \<open>totalMkd\<close>) when that is positive and
  the total of the order's items in the currency otherwise.
\<close>

theorem creation_ledger_entries:
  assumes "POST_orders now usr r d = (Created oid, d')" and "1 \<le> user_id usr"
  shows "user_debt_adjustments d' = user_debt_adjustments d @
     (if c_guestName r = None \<and> c_status r \<noteq> Some Completed
      then (if final_total r d EUR > 0
            then [ledger_row (case c_clientId r of None \<Rightarrow> user_id usr | Some u \<Rightarrow> u)
                    (- final_total r d EUR) EUR (creation_notes oid r) (user_id usr) now]
            else []) @
           (if final_total r d MKD > 0
            then [ledger_row (case c_clientId r of None \<Rightarrow> user_id usr | Some u \<Rightarrow> u)
                    (- final_total r d MKD) MKD (creation_notes oid r) (user_id usr) now]
            else [])
      else [])"
proof -
  from assms(1) have valid: "valid_create r"
    by (auto simp: POST_orders_def split: if_splits)
  from assms(1) obtain t e m vs where v: "validate_items d (c_items r) (0, 0, 0, []) = Some (t, e, m, vs)"
    by (auto simp: POST_orders_def Let_def split: if_splits option.splits)
  from validate_items_totals [OF v]
  have e: "e = requested_total d EUR (c_items r)" and m: "m = requested_total d MKD (c_items r)"
    by simp_all
  from valid have st: "c_status r = None \<or> c_status r = Some Pending \<or> c_status r = Some Completed"
    by (auto simp: valid_create_def split: option.splits)
  from valid have cl: "case c_clientId r of None \<Rightarrow> True | Some u \<Rightarrow> 1 \<le> u"
    by (simp add: valid_create_def)
  from assms(1) v have oid: "oid = orders_seq d"
    by (auto simp: POST_orders_def Let_def split: if_splits)
  show ?thesis
    using assms st cl v oid
    by (auto simp: POST_orders_def Let_def final_total_def e m truthy_def insert_adjustment_def
          ledger_foldl_items split: if_splits option.splits)
qed

text \<open>The scenario of the specification: client 7 orders one phone of 100 EUR, pending;
  exactly one entry, EUR, -100.\<close>

theorem creation_ledger_entries_witness:
  "POST_orders 1000000 client7 phone_req shop
     = (Created 1, snd (POST_orders 1000000 client7 phone_req shop)) \<and>
   1 \<le> user_id client7 \<and>
   user_debt_adjustments (snd (POST_orders 1000000 client7 phone_req shop))
     = [ledger_row 7 (- 100) EUR ''Debt increase from pending order #1'' 7 1000000]"
proof -
  have h1: "POST_orders 1000000 client7 phone_req shop
     = (Created 1, snd (POST_orders 1000000 client7 phone_req shop))"
    by code_simp
  have h2: "1 \<le> user_id client7"
    by (simp add: client7_def)
  have "final_total phone_req shop EUR = 100" "final_total phone_req shop MKD = 0"
       "creation_notes 1 phone_req = ''Debt increase from pending order #1''"
    by code_simp+
  with creation_ledger_entries [OF h1 h2] h1 h2 show ?thesis
    by (simp add: phone_req_def shop_def client7_def)
qed

text \<open>
  The claim as stated fails in both directions of its wording. With a discounted total of
  90 EUR in the request, the entry of a one-phone order (items total 100 EUR) has amount
  -90, not the negated total of the items. And a pending client order whose items cost
  nothing is created without any entry.
\<close>

theorem creation_entry_counterexample:
  "fst (POST_orders 1000000 client7 discounted_req shop) = Created 1 \<and>
   requested_total shop EUR (c_items discounted_req) = 100 \<and>
   map a_amount (user_debt_adjustments (snd (POST_orders 1000000 client7 discounted_req shop)))
     = [- 90] \<and>
   fst (POST_orders 1000000 client7 phone_req gift_shop) = Created 1 \<and>
   user_debt_adjustments (snd (POST_orders 1000000 client7 phone_req gift_shop)) = []"
  by code_simp

section \<open>The debt log\<close>

lemma sum_before_counted:
  assumes cur: "a_currency E \<noteq> None"
  shows "sum_before d E = - counted_debt_before d E"
proof -
  have bt: "beforeTimestamp E = (a_created_at E div 1000) * 1000 - 1000000"
    by (simp add: beforeTimestamp_def algebra_simps)
  have "filter (\<lambda>a. a_user_id a = a_user_id E \<and> a_currency E \<noteq> None \<and>
                     a_currency a = a_currency E \<and> a_created_at a < beforeTimestamp E \<and>
                     a_type a = Manual_reduction) (user_debt_adjustments d)
      = filter (\<lambda>a. a_user_id a = a_user_id E \<and> a_currency a = a_currency E \<and>
                     a_type a = Manual_reduction \<and>
                     a_created_at a + 1000000 < (a_created_at E div 1000) * 1000)
          (user_debt_adjustments d)"
    using cur by (intro filter_cong refl) (auto simp: bt)
  then show ?thesis by (simp add: sum_before_def counted_debt_before_def)
qed

lemma counted_is_claimed:
  assumes "all_manual_reduction d" and "quiet_second d E"
  shows "counted_debt_before d E = claimed_debt_before d E"
proof -
  have ms: "(a_created_at E div 1000) * 1000 \<le> a_created_at E"
    by presburger
  have "filter (\<lambda>a. a_user_id a = a_user_id E \<and> a_currency a = a_currency E \<and>
                     a_type a = Manual_reduction \<and>
                     a_created_at a + 1000000 < (a_created_at E div 1000) * 1000)
          (user_debt_adjustments d)
      = filter (\<lambda>a. a_user_id a = a_user_id E \<and> a_currency a = a_currency E \<and>
                     a_created_at a < a_created_at E) (user_debt_adjustments d)"
    using assms ms
    unfolding all_manual_reduction_def quiet_second_def list_all_iff
    by (intro filter_cong refl) force
  then show ?thesis by (simp add: counted_debt_before_def claimed_debt_before_def)
qed

text \<open>
  Claim C9, amended. For every entry E of the debt log that has a currency, and for which
  the entries the log counts do not sum to a credit (the negated sum of the amounts of the
  \<open>'manual_reduction'\<close> entries of E's client and currency created more than one second
  before E's timestamp, taken in whole milliseconds, is not negative): the reported "debt
  before" equals that negated sum. It equals the negated sum of all strictly earlier
  entries of E's client and currency when, in addition, every entry of the ledger has the
  type \<open>'manual_reduction'\<close> and no entry of E's client and currency was created in the
  last second before E. The reported "debt after" is the "debt before" plus the absolute
  amount of E when E's notes contain one of the keywords "increased", "Debt increase",
  "Added", "Increased"; it is the "debt before" minus the absolute amount of E when the
  notes contain none of those but one of "reduced", "removed", "Reduced", and the absolute
  amount does not exceed the "debt before".
\<close>

theorem debt_log_before_and_after:
  assumes "(E, h) \<in> set (GET_users_debt_logs d)"
    and "a_currency E \<noteq> None" and "0 \<le> counted_debt_before d E"
  shows "debt_before h = counted_debt_before d E \<and>
         (all_manual_reduction d \<and> quiet_second d E \<longrightarrow>
            debt_before h = claimed_debt_before d E) \<and>
         (says_increase E \<longrightarrow> debt_after h = debt_before h + \<bar>a_amount E\<bar>) \<and>
         (\<not> says_increase E \<and> says_reduce E \<and> \<bar>a_amount E\<bar> \<le> debt_before h \<longrightarrow>
            debt_after h = debt_before h - \<bar>a_amount E\<bar>)"
proof -
  from assms(1) have h: "h = debt_history_of d E"
    by (auto simp: GET_users_debt_logs_def)
  have sb: "\<bar>sum_before d E\<bar> = counted_debt_before d E"
    using sum_before_counted [OF assms(2), of d] assms(3) by simp
  have 1: "debt_before h = counted_debt_before d E"
    using sb by (simp add: h debt_history_of_def Let_def)
  have 2: "debt_before h = claimed_debt_before d E"
    if "all_manual_reduction d" "quiet_second d E"
    using counted_is_claimed [OF that] 1 by simp
  have 3: "debt_after h = debt_before h + \<bar>a_amount E\<bar>" if "says_increase E"
    using that sb assms(3) 1
    by (simp add: h debt_history_of_def Let_def says_increase_def)
  have 4: "debt_after h = debt_before h - \<bar>a_amount E\<bar>"
    if "\<not> says_increase E" "says_reduce E" "\<bar>a_amount E\<bar> \<le> debt_before h"
    using that sb assms(3) 1
    by (simp add: h debt_history_of_def Let_def says_increase_def says_reduce_def)
  from 1 2 3 4 show ?thesis by blast
qed

text \<open>
  On \<open>steady_db\<close> the entry of second 30 has a "debt before" of 120: the entry created 1.5
  seconds earlier is counted, being outside the one-second buffer. The removal of second
  40 has a "debt before" of 130 and a "debt after" of 125.
\<close>

theorem debt_log_before_and_after_witness:
  "(entry_late, \<lparr> debt_before = 120, debt_after = 130 \<rparr>) \<in> set (GET_users_debt_logs steady_db) \<and>
   (entry_removed, \<lparr> debt_before = 130, debt_after = 125 \<rparr>) \<in> set (GET_users_debt_logs steady_db) \<and>
   a_currency entry_late = Some EUR \<and> a_currency entry_removed = Some EUR \<and>
   counted_debt_before steady_db entry_late = 120 \<and>
   counted_debt_before steady_db entry_removed = 130 \<and>
   all_manual_reduction steady_db \<and> quiet_second steady_db entry_late \<and>
   claimed_debt_before steady_db entry_late = 120 \<and>
   a_created_at entry_late - a_created_at entry_early = 1500000 \<and>
   says_increase entry_late \<and> \<not> says_increase entry_removed \<and> says_reduce entry_removed \<and>
   \<bar>a_amount entry_removed\<bar> \<le> 130"
proof -
  have m1: "(entry_late, \<lparr> debt_before = 120, debt_after = 130 \<rparr>) \<in> set (GET_users_debt_logs steady_db)"
    by code_simp
  have m2: "(entry_removed, \<lparr> debt_before = 130, debt_after = 125 \<rparr>) \<in> set (GET_users_debt_logs steady_db)"
    by code_simp
  have e1: "a_currency entry_late = Some EUR" and e2: "a_currency entry_removed = Some EUR"
    by code_simp+
  have c1: "a_currency entry_late \<noteq> None" and c2: "a_currency entry_removed \<noteq> None"
    by (simp_all add: e1 e2)
  have v1: "counted_debt_before steady_db entry_late = 120"
    and v2: "counted_debt_before steady_db entry_removed = 130"
    by code_simp+
  have n1: "0 \<le> counted_debt_before steady_db entry_late"
    and n2: "0 \<le> counted_debt_before steady_db entry_removed"
    by (simp_all add: v1 v2)
  have c: "all_manual_reduction steady_db" "quiet_second steady_db entry_late"
    "a_created_at entry_late - a_created_at entry_early = 1500000"
    "says_increase entry_late" "\<not> says_increase entry_removed" "says_reduce entry_removed"
    "\<bar>a_amount entry_removed\<bar> \<le> 130"
    by code_simp+
  from debt_log_before_and_after [OF m1 c1 n1] debt_log_before_and_after [OF m2 c2 n2]
    m1 m2 e1 e2 v1 v2 c
  show ?thesis by simp
qed

text \<open>
  The claim as stated fails on \<open>log_db\<close>, where the client owes throughout. The edit half
  a second after the payment of 30 gets a "debt before" of 100, the payment being inside
  the one-second buffer, where the negated sum of the strictly earlier entries is 70.
\<close>

theorem debt_log_counterexample:
  "(entry_edit, \<lparr> debt_before = 100, debt_after = 110 \<rparr>) \<in> set (GET_users_debt_logs log_db) \<and>
   claimed_debt_before log_db entry_edit = 70 \<and>
   a_created_at entry_edit - a_created_at entry_payment = 500000 \<and>
   map (\<lambda>(E, h). debt_before h) (GET_users_debt_logs log_db) = [0, 100, 100, 80] \<and>
   map (\<lambda>(E, h). claimed_debt_before log_db E) (GET_users_debt_logs log_db) = [0, 100, 70, 80]"
  by code_simp

section \<open>Revenue\<close>

lemma filter_by_id:
  "distinct (map p_id ps) \<Longrightarrow>
   filter (\<lambda>p. p_id p = k) ps = (case find (\<lambda>p. p_id p = k) ps of None \<Rightarrow> [] | Some p \<Rightarrow> [p])"
proof (induction ps)
  case Nil
  then show ?case by simp
next
  case (Cons p ps)
  show ?case
  proof (cases "p_id p = k")
    case True
    with Cons.prems have "filter (\<lambda>q. p_id q = k) ps = []"
      by (auto simp: filter_empty_conv image_iff)
    with True show ?thesis by simp
  next
    case False
    with Cons show ?thesis by simp
  qed
qed

lemma revenue_sum_append [simp]: "revenue_sum c (xs @ ys) = revenue_sum c xs + revenue_sum c ys"
  by (simp add: revenue_sum_def)

lemma revenue_sum_Nil [simp]: "revenue_sum c [] = 0"
  by (simp add: revenue_sum_def)

lemma revenue_rows_of_order:
  assumes "distinct (map p_id (products d))"
  shows "revenue_sum c (rows_of d ord) = order_currency_total d c (o_id ord)"
proof -
  have "revenue_sum c (concat (map (\<lambda>oi.
           map (\<lambda>p. (ord, oi, p)) (filter (\<lambda>p. p_id p = oi_product_id oi) (products d)))
           (filter (\<lambda>oi. oi_order_id oi = o_id ord) ois)))
        = sum_list (map (\<lambda>oi. oi_quantity oi * oi_price oi)
            (filter (\<lambda>oi. oi_order_id oi = o_id ord \<and> find_product d (oi_product_id oi) \<noteq> None \<and>
                           currency_of (category_of d (oi_product_id oi)) = c) ois))" for ois
    by (induction ois)
       (auto simp: filter_by_id [OF assms] find_product_def category_of_def revenue_sum_def
             split: option.splits)
  then show ?thesis by (simp add: rows_of_def order_currency_total_def)
qed

lemma revenue_of_orders:
  assumes "distinct (map p_id (products d))"
  shows "revenue_sum c (filter (\<lambda>row. Q (fst row)) (concat (map (rows_of d) os)))
         = sum_list (map (\<lambda>ord. order_currency_total d c (o_id ord)) (filter Q os))"
proof (induction os)
  case Nil
  then show ?case by simp
next
  case (Cons ord os)
  have "filter (\<lambda>row. Q (fst row)) (rows_of d ord) = (if Q ord then rows_of d ord else [])"
    by (auto simp: rows_of_def filter_concat filter_empty_conv comp_def intro!: filter_True)
  with Cons revenue_rows_of_order [OF assms, of c ord] show ?case by simp
qed

lemma rows_concat: "order_item_product_rows d = concat (map (rows_of d) (orders d))"
  unfolding order_item_product_rows_def rows_of_def [abs_def] by (rule refl)

text \<open>
  Claim C10, amended. With product ids unique, the revenue of a currency reported by the
  revenue endpoint (and, restricted to the client's orders, by the profile) is the sum, over
  the orders with status completed, of the order's item total in that currency: quantity
  times the price stored with the item, over the items whose product belongs to the
  currency's category. It does not depend on the ledger, and it does not depend on the
  charged totals (\<open>total_amount\<close>) of the orders.
\<close>

theorem revenue_from_completed_items:
  assumes "distinct (map p_id (products d))"
  shows "eurRevenue (GET_orders_revenue d)
           = sum_list (map (\<lambda>ord. order_currency_total d EUR (o_id ord))
               (filter (\<lambda>ord. o_status ord = Completed) (orders d))) \<and>
         mkdRevenue (GET_orders_revenue d)
           = sum_list (map (\<lambda>ord. order_currency_total d MKD (o_id ord))
               (filter (\<lambda>ord. o_status ord = Completed) (orders d))) \<and>
         pr_eurRevenue (profile_revenue_of d uid)
           = sum_list (map (\<lambda>ord. order_currency_total d EUR (o_id ord))
               (filter (\<lambda>ord. o_client_id ord = Some uid \<and> o_status ord = Completed) (orders d))) \<and>
         pr_mkdRevenue (profile_revenue_of d uid)
           = sum_list (map (\<lambda>ord. order_currency_total d MKD (o_id ord))
               (filter (\<lambda>ord. o_client_id ord = Some uid \<and> o_status ord = Completed) (orders d))) \<and>
         GET_orders_revenue (d\<lparr> user_debt_adjustments := l \<rparr>) = GET_orders_revenue d \<and>
         GET_orders_revenue (d\<lparr> orders := map (\<lambda>ord. ord\<lparr> o_total_amount := t ord \<rparr>) (orders d) \<rparr>)
           = GET_orders_revenue d"
proof -
  note r = revenue_of_orders [OF assms]
  have 1: "eurRevenue (GET_orders_revenue d)
           = sum_list (map (\<lambda>ord. order_currency_total d EUR (o_id ord))
               (filter (\<lambda>ord. o_status ord = Completed) (orders d)))"
    using r [of EUR "\<lambda>ord. o_status ord = Completed" "orders d"]
    by (simp add: GET_orders_revenue_def Let_def rows_concat case_prod_unfold)
  have 2: "mkdRevenue (GET_orders_revenue d)
           = sum_list (map (\<lambda>ord. order_currency_total d MKD (o_id ord))
               (filter (\<lambda>ord. o_status ord = Completed) (orders d)))"
    using r [of MKD "\<lambda>ord. o_status ord = Completed" "orders d"]
    by (simp add: GET_orders_revenue_def Let_def rows_concat case_prod_unfold)
  have 3: "pr_eurRevenue (profile_revenue_of d uid)
           = sum_list (map (\<lambda>ord. order_currency_total d EUR (o_id ord))
               (filter (\<lambda>ord. o_client_id ord = Some uid \<and> o_status ord = Completed) (orders d)))"
    using r [of EUR "\<lambda>ord. o_client_id ord = Some uid \<and> o_status ord = Completed" "orders d"]
    by (simp add: profile_revenue_of_def Let_def rows_concat case_prod_unfold)
  have 4: "pr_mkdRevenue (profile_revenue_of d uid)
           = sum_list (map (\<lambda>ord. order_currency_total d MKD (o_id ord))
               (filter (\<lambda>ord. o_client_id ord = Some uid \<and> o_status ord = Completed) (orders d)))"
    using r [of MKD "\<lambda>ord. o_client_id ord = Some uid \<and> o_status ord = Completed" "orders d"]
    by (simp add: profile_revenue_of_def Let_def rows_concat case_prod_unfold)
  have 5: "GET_orders_revenue (d\<lparr> user_debt_adjustments := l \<rparr>) = GET_orders_revenue d"
    by (simp add: GET_orders_revenue_def order_item_product_rows_def)
  have 6: "GET_orders_revenue (d\<lparr> orders := map (\<lambda>ord. ord\<lparr> o_total_amount := t ord \<rparr>) (orders d) \<rparr>)
           = GET_orders_revenue d"
    by (simp add: GET_orders_revenue_def order_item_product_rows_def Let_def revenue_sum_def
          filter_concat map_concat comp_def filter_map split_beta)
  from 1 2 3 4 5 6 show ?thesis by blast
qed

theorem revenue_from_completed_items_witness:
  "distinct (map p_id (products discount_sale_db)) \<and>
   eurRevenue (GET_orders_revenue discount_sale_db) = 100 \<and>
   sum_list (map (\<lambda>ord. order_currency_total discount_sale_db EUR (o_id ord))
     (filter (\<lambda>ord. o_status ord = Completed) (orders discount_sale_db))) = 100"
proof -
  have h: "distinct (map p_id (products discount_sale_db))"
    by code_simp
  have "eurRevenue (GET_orders_revenue discount_sale_db) = 100"
    by code_simp
  with revenue_from_completed_items [OF h, of 7] h show ?thesis by simp
qed

text \<open>
  The claim as stated fails on \<open>discount_sale_db\<close>: the one order is completed and was
  charged 90 EUR after a discount, and the EUR revenue is 100.
\<close>

theorem revenue_counterexample:
  "map o_status (orders discount_sale_db) = [Completed] \<and>
   eurRevenue (GET_orders_revenue discount_sale_db) = 100 \<and>
   mkdRevenue (GET_orders_revenue discount_sale_db) = 0 \<and>
   pr_eurRevenue (profile_revenue_of discount_sale_db 7) = 100 \<and>
   charged_total_completed discount_sale_db = 90"
  by code_simp

section \<open>Transactions\<close>

subsection \<open>Statements\<close>

lemma client_query_committed:
  "client_query fault stmt c = (r, c') \<Longrightarrow> committed c' = committed c"
  by (auto simp: client_query_def Let_def split: if_splits prod.splits)

lemma client_query_write_Inr:
  "client_query fault (sql_write f) c = (Inr u, c') \<Longrightarrow>
     working c' = f (working c) \<and> \<not> aborted c \<and> \<not> aborted c'"
  by (auto simp: client_query_def sql_write_def Let_def split: if_splits)

lemma client_query_read_Inr:
  "client_query fault (sql_read f) c = (Inr a, c') \<Longrightarrow>
     a = f (working c) \<and> working c' = working c \<and> \<not> aborted c \<and> \<not> aborted c'"
  by (auto simp: client_query_def sql_read_def Let_def split: if_splits)

lemma tx_try_write:
  "tx_try (client_query fault (sql_write f)) c = (r, c') \<Longrightarrow>
     r = Inr () \<and> (\<not> aborted c' \<longrightarrow> \<not> aborted c \<and> working c' = f (working c))"
  by (auto simp: tx_try_def client_query_def sql_write_def Let_def split: if_splits)

lemma tx_bind_Inr:
  assumes "tx_bind m f c = (Inr b, c2)"
  obtains a c1 where "m c = (Inr a, c1)" and "f a c1 = (Inr b, c2)"
  using assms by (auto simp: tx_bind_def split: prod.splits sum.splits)

lemma tx_return_eq [simp]: "tx_return a c = (r, c') \<longleftrightarrow> r = Inr a \<and> c' = c"
  by (auto simp: tx_return_def)

lemma tx_throw_eq [simp]: "tx_throw e c = (r, c') \<longleftrightarrow> r = Inl e \<and> c' = c"
  by (auto simp: tx_throw_def)

subsection \<open>The committed state\<close>

lemma keeps_committedD:
  "keeps_committed m \<Longrightarrow> m c = (r, c') \<Longrightarrow> committed c' = committed c"
  by (auto simp: keeps_committed_def)

lemma keeps_client_query [intro!, simp]: "keeps_committed (client_query fault stmt)"
  by (auto simp: keeps_committed_def dest: client_query_committed)

lemma keeps_return [intro!, simp]: "keeps_committed (tx_return a)"
  by (simp add: keeps_committed_def)

lemma keeps_throw [intro!, simp]: "keeps_committed (tx_throw e)"
  by (simp add: keeps_committed_def)

lemma keeps_begin [intro!, simp]: "keeps_committed (tx_begin fault)"
  by (auto simp: keeps_committed_def tx_begin_def Let_def split: if_splits)

lemma keeps_bind [intro!]:
  "keeps_committed m \<Longrightarrow> (\<And>a. keeps_committed (f a)) \<Longrightarrow> keeps_committed (tx_bind m f)"
  unfolding keeps_committed_def tx_bind_def
  by (auto split: prod.splits sum.splits)

lemma keeps_try [intro!]: "keeps_committed m \<Longrightarrow> keeps_committed (tx_try m)"
  unfolding keeps_committed_def tx_try_def
  by (auto split: prod.splits sum.splits)

lemma keeps_forEach [intro!]: "(\<And>x. keeps_committed (f x)) \<Longrightarrow> keeps_committed (tx_forEach f xs)"
  by (induction xs) auto

lemma keeps_insert_new_item [intro!, simp]: "keeps_committed (insert_new_item fault oid it)"
  unfolding insert_new_item_def by (auto split: option.splits)

lemma keeps_update_status [intro!, simp]: "keeps_committed (update_status_if_given fault oid r)"
  unfolding update_status_if_given_def by (auto split: option.splits)

lemma keeps_replace_items [intro!, simp]: "keeps_committed (replace_items fault now uid oid r items)"
  unfolding replace_items_def by (intro keeps_bind keeps_forEach) auto

lemma throws_uncommittedD:
  "throws_uncommitted m \<Longrightarrow> m c = (Inl e, c') \<Longrightarrow> committed c' = committed c"
  by (auto simp: throws_uncommitted_def)

lemma throws_of_keeps: "keeps_committed m \<Longrightarrow> throws_uncommitted m"
  by (auto simp: keeps_committed_def throws_uncommitted_def)

lemma throws_bind:
  "keeps_committed m \<Longrightarrow> (\<And>a. throws_uncommitted (f a)) \<Longrightarrow> throws_uncommitted (tx_bind m f)"
  unfolding keeps_committed_def throws_uncommitted_def tx_bind_def
  by (auto split: prod.splits sum.splits)

lemma throws_commit_with: "throws_uncommitted (commit_with fault resp)"
  by (auto simp: throws_uncommitted_def commit_with_def tx_bind_def tx_commit_def Let_def
        split: prod.splits sum.splits if_splits)

lemma throws_PUT_orders_tx: "throws_uncommitted (PUT_orders_tx fault now uid oid r)"
  unfolding PUT_orders_tx_def
  by (intro throws_bind keeps_begin keeps_update_status)
     (auto intro!: throws_bind throws_commit_with split: option.splits)

lemma throws_return: "throws_uncommitted (tx_return a)"
  by (simp add: throws_uncommitted_def)

lemma throws_DELETE_orders_tx: "throws_uncommitted (DELETE_orders_tx fault oid)"
  unfolding DELETE_orders_tx_def
  by (intro throws_bind keeps_begin keeps_client_query)
     (auto intro!: throws_bind throws_commit_with throws_return split: option.splits)

lemma committed_rollback [simp]: "committed (tx_rollback c) = committed c"
  by (simp add: tx_rollback_def)

lemma committed_connect [simp]: "committed (connect d) = d"
  by (simp add: connect_def)

lemma PUT_orders_failure:
  assumes "PUT_orders fault now uid oid r d = (resp, d')" and "\<forall>x. resp \<noteq> Ok x"
  shows "d' = d"
  using assms throws_uncommittedD [OF throws_PUT_orders_tx, of fault now uid oid r "connect d"]
  by (auto simp: PUT_orders_def split: if_splits prod.splits sum.splits)


subsection \<open>What a successful run has done\<close>

lemma forEach_write_Inr:
  "tx_forEach (\<lambda>i. client_query fault (sql_write (g i))) xs c = (Inr u, c') \<Longrightarrow>
     working c' = foldl (\<lambda>d i. g i d) (working c) xs \<and> (\<not> aborted c \<longrightarrow> \<not> aborted c')"
proof (induction xs arbitrary: c)
  case Nil
  then show ?case by simp
next
  case (Cons x xs)
  from Cons.prems obtain c1 where
    1: "client_query fault (sql_write (g x)) c = (Inr (), c1)" and
    2: "tx_forEach (\<lambda>i. client_query fault (sql_write (g i))) xs c1 = (Inr u, c')"
    by (auto elim!: tx_bind_Inr)
  from client_query_write_Inr [OF 1] Cons.IH [OF 2] show ?case by simp
qed

lemma insert_new_item_Inr:
  assumes "insert_new_item fault oid it c = (Inr u, c')"
  shows "working c' = insert_order_item oid it (update_stock (productId it) (- quantity it) (working c))"
    and "\<exists>p. find_product (working c) (productId it) = Some p \<and> quantity it \<le> p_stock_quantity p"
    and "\<not> aborted c'"
proof -
  from assms obtain row c1 where
    1: "client_query fault (sql_read (\<lambda>d. find_product d (productId it))) c = (Inr row, c1)" and
    2: "(case row of
         None \<Rightarrow> tx_throw (Product_not_found (productId it))
       | Some p \<Rightarrow>
           if p_stock_quantity p < quantity it
           then tx_throw (Insufficient_stock (productId it) (p_stock_quantity p) (quantity it))
           else
             tx_bind (client_query fault (sql_write (update_stock (productId it) (- quantity it))))
               (\<lambda>_. client_query fault (sql_write (insert_order_item oid it)))) c1 = (Inr u, c')"
    unfolding insert_new_item_def by (elim tx_bind_Inr)
  from client_query_read_Inr [OF 1]
  have row: "row = find_product (working c) (productId it)" and w1: "working c1 = working c"
    by simp_all
  from 2 obtain p where p: "row = Some p" and ok: "\<not> p_stock_quantity p < quantity it"
    and 3: "tx_bind (client_query fault (sql_write (update_stock (productId it) (- quantity it))))
               (\<lambda>_. client_query fault (sql_write (insert_order_item oid it))) c1 = (Inr u, c')"
    by (auto split: option.splits if_splits)
  from 3 obtain c2 where
    4: "client_query fault (sql_write (update_stock (productId it) (- quantity it))) c1 = (Inr (), c2)" and
    5: "client_query fault (sql_write (insert_order_item oid it)) c2 = (Inr u, c')"
    by (auto elim!: tx_bind_Inr)
  from client_query_write_Inr [OF 4] client_query_write_Inr [OF 5] w1
  show "working c' = insert_order_item oid it (update_stock (productId it) (- quantity it) (working c))"
    and "\<not> aborted c'" by simp_all
  from row p have "find_product (working c) (productId it) = Some p" by simp
  with ok
  show "\<exists>p. find_product (working c) (productId it) = Some p \<and> quantity it \<le> p_stock_quantity p"
    by (intro exI [of _ p]) simp
qed

lemma forEach_insert_Inr:
  "tx_forEach (insert_new_item fault oid) items c = (Inr u, c') \<Longrightarrow>
     working c' = inserted oid items (working c) \<and> stock_ok oid items (working c) \<and>
     (\<not> aborted c \<longrightarrow> \<not> aborted c')"
proof (induction items arbitrary: c)
  case Nil
  then show ?case by (simp add: inserted_def)
next
  case (Cons it items)
  from Cons.prems obtain c1 where
    1: "insert_new_item fault oid it c = (Inr (), c1)" and
    2: "tx_forEach (insert_new_item fault oid) items c1 = (Inr u, c')"
    by (auto elim!: tx_bind_Inr)
  from insert_new_item_Inr [OF 1] Cons.IH [OF 2] show ?case
    by (auto simp: inserted_def)
qed

lemma update_status_Inr:
  "update_status_if_given fault oid r c = (Inr u, c') \<Longrightarrow>
     working c' = with_status r oid (working c) \<and> (\<not> aborted c \<longrightarrow> \<not> aborted c')"
  by (auto simp: update_status_if_given_def with_status_def
        dest: client_query_write_Inr split: option.splits)

lemma tx_begin_Inr:
  "tx_begin fault c = (Inr u, c') \<Longrightarrow>
     working c' = committed c \<and> committed c' = committed c \<and> \<not> aborted c'"
  by (auto simp: tx_begin_def Let_def split: if_splits)

lemma commit_with_Inr:
  "commit_with fault resp c = (Inr a, c') \<Longrightarrow> \<not> aborted c \<Longrightarrow>
     a = resp \<and> committed c' = working c"
  by (auto simp: commit_with_def tx_commit_def Let_def elim!: tx_bind_Inr split: if_splits)

lemma maybe_insert_Inr:
  assumes "(if b then tx_try (client_query fault (sql_write (insert_adjustment a)))
            else tx_return ()) c = (r, c')"
    and "\<not> aborted c'"
  shows "\<not> aborted c \<and>
         working c' = foldl (\<lambda>d a. insert_adjustment a d) (working c) (if b then [a] else [])"
  using assms by (auto split: if_splits dest: tx_try_write)

lemma foldl_append_if:
  "foldl f (foldl f d (if b then [x] else [])) (if b' then [y] else [])
     = foldl f d ((if b then [x] else []) @ (if b' then [y] else []))"
  by simp

lemma replace_items_Inr:
  assumes "replace_items fault now uid oid r items c = (Inr u, c')"
  shows "working c' = edited now uid oid r items (working c)"
    and "stock_ok oid items (delete_order_items oid (restored (current_items oid (working c)) (working c)))"
    and "\<not> aborted c'"
proof -
  let ?ins = "\<lambda>b a. if b then tx_try (client_query fault (sql_write (insert_adjustment a)))
                      else tx_return ()"
  from assms obtain currentItems c1 c2 clientId c3 c4 c5 net c6 c7 c8 sumTotal c9 where
    s1: "client_query fault (sql_read (current_items oid)) c = (Inr currentItems, c1)" and
    s2: "tx_forEach (\<lambda>i. client_query fault
            (sql_write (update_stock (oi_product_id i) (oi_quantity i)))) currentItems c1 = (Inr (), c2)" and
    s3: "client_query fault (sql_read (order_client oid)) c2 = (Inr clientId, c3)" and
    s4: "client_query fault (sql_write (delete_order_items oid)) c3 = (Inr (), c4)" and
    s5: "tx_forEach (insert_new_item fault oid) items c4 = (Inr (), c5)" and
    s6: "client_query fault (sql_read (\<lambda>d.
            calculateNetDebtChange (category_of d)
              (case u_originalItems r of None \<Rightarrow> [] | Some its \<Rightarrow> its) items oid)) c5 = (Inr net, c6)" and
    s7: "?ins (eurNetChange net \<noteq> 0 \<and> truthy clientId)
           (ledger_row (the clientId) (- eurNetChange net) EUR (eurNote net) uid now) c6 = (Inr (), c7)" and
    s8: "?ins (mkdNetChange net \<noteq> 0 \<and> truthy clientId)
           (ledger_row (the clientId) (- mkdNetChange net) MKD (mkdNote net) uid now) c7 = (Inr (), c8)" and
    s9: "client_query fault (sql_read (items_total oid)) c8 = (Inr sumTotal, c9)" and
    s10: "client_query fault (sql_write (set_total
            (if u_preserveDiscount r \<and> u_originalDiscount r > 0
             then max 0 (sumTotal - u_originalDiscount r) else sumTotal) oid)) c9 = (Inr u, c')"
    unfolding replace_items_def by (elim tx_bind_Inr) (cases u, auto)
  note r1 = client_query_read_Inr [OF s1]
  note r2 = forEach_write_Inr [OF s2]
  note r3 = client_query_read_Inr [OF s3]
  note r4 = client_query_write_Inr [OF s4]
  note r5 = forEach_insert_Inr [OF s5]
  note r6 = client_query_read_Inr [OF s6]
  note r9 = client_query_read_Inr [OF s9]
  note r10 = client_query_write_Inr [OF s10]
  from r9 have n8: "\<not> aborted c8" by simp
  note r8 = maybe_insert_Inr [OF s8 n8]
  then have n7: "\<not> aborted c7" by simp
  note r7 = maybe_insert_Inr [OF s7 n7]
  have w2: "working c2 = restored (current_items oid (working c)) (working c)"
    using r1 r2 by (simp add: restored_def)
  have w5: "working c5 = inserted oid items (delete_order_items oid (working c2))"
    using r3 r4 r5 by simp
  have cl: "clientId = order_client oid (working c2)"
    using r3 by simp
  have net: "net = net_of r items oid (working c5)"
    using r6 by (simp add: net_of_def)
  have w8: "working c8 = foldl (\<lambda>d a. insert_adjustment a d) (working c5)
              (edit_entries net clientId uid now)"
    using r6 r7 r8 unfolding edit_entries_def by (simp only: foldl_append_if [symmetric])
  show "working c' = edited now uid oid r items (working c)"
    using r9 r10 w8 w5 w2 cl net by (simp add: edited_def Let_def)
  show "stock_ok oid items (delete_order_items oid (restored (current_items oid (working c)) (working c)))"
    using r3 r4 r5 w2 by simp
  show "\<not> aborted c'" using r10 by simp
qed


lemma PUT_orders_tx_Inr:
  assumes "PUT_orders_tx fault now uid oid r c = (Inr resp, c')"
  shows "u_items r = None \<Longrightarrow>
           resp = \<lparr> r_status = u_status r, r_itemsUpdated = False \<rparr> \<and>
           committed c' = with_status r oid (committed c)"
    and "u_items r = Some items \<Longrightarrow>
         \<not> checkItemsChanged (case u_originalItems r of None \<Rightarrow> [] | Some its \<Rightarrow> its) items \<Longrightarrow>
           resp = \<lparr> r_status = u_status r, r_itemsUpdated = False \<rparr> \<and>
           committed c' = with_status r oid (with_status r oid (committed c))"
    and "u_items r = Some items \<Longrightarrow>
         checkItemsChanged (case u_originalItems r of None \<Rightarrow> [] | Some its \<Rightarrow> its) items \<Longrightarrow>
           resp = \<lparr> r_status = u_status r, r_itemsUpdated = True \<rparr> \<and>
           committed c' = edited now uid oid r items (with_status r oid (committed c)) \<and>
           stock_ok oid items (delete_order_items oid
             (restored (current_items oid (with_status r oid (committed c)))
                (with_status r oid (committed c))))"
proof -
  from assms obtain c1 c2 where
    b: "tx_begin fault c = (Inr (), c1)" and
    s: "update_status_if_given fault oid r c1 = (Inr (), c2)" and
    rest: "(case u_items r of
         None \<Rightarrow> commit_with fault \<lparr> r_status = u_status r, r_itemsUpdated = False \<rparr>
       | Some items \<Rightarrow>
           if \<not> checkItemsChanged (case u_originalItems r of None \<Rightarrow> [] | Some its \<Rightarrow> its) items
           then
             tx_bind (update_status_if_given fault oid r) (\<lambda>_.
               commit_with fault \<lparr> r_status = u_status r, r_itemsUpdated = False \<rparr>)
           else
             tx_bind (replace_items fault now uid oid r items) (\<lambda>_.
               commit_with fault \<lparr> r_status = u_status r, r_itemsUpdated = True \<rparr>)) c2 = (Inr resp, c')"
    unfolding PUT_orders_tx_def by (elim tx_bind_Inr) auto
  from tx_begin_Inr [OF b] update_status_Inr [OF s]
  have w2: "working c2 = with_status r oid (committed c)" and n2: "\<not> aborted c2"
    by simp_all
  {
    assume "u_items r = None"
    with rest have "commit_with fault \<lparr> r_status = u_status r, r_itemsUpdated = False \<rparr> c2 = (Inr resp, c')"
      by simp
    from commit_with_Inr [OF this n2] w2
    show "resp = \<lparr> r_status = u_status r, r_itemsUpdated = False \<rparr> \<and>
           committed c' = with_status r oid (committed c)" by simp
  }
  {
    assume "u_items r = Some items"
      "\<not> checkItemsChanged (case u_originalItems r of None \<Rightarrow> [] | Some its \<Rightarrow> its) items"
    with rest obtain c3 where
      s3: "update_status_if_given fault oid r c2 = (Inr (), c3)" and
      cm: "commit_with fault \<lparr> r_status = u_status r, r_itemsUpdated = False \<rparr> c3 = (Inr resp, c')"
      by (auto elim!: tx_bind_Inr)
    from update_status_Inr [OF s3] n2 w2
    have "working c3 = with_status r oid (with_status r oid (committed c))" "\<not> aborted c3"
      by simp_all
    with commit_with_Inr [OF cm]
    show "resp = \<lparr> r_status = u_status r, r_itemsUpdated = False \<rparr> \<and>
           committed c' = with_status r oid (with_status r oid (committed c))" by simp
  }
  {
    assume "u_items r = Some items"
      "checkItemsChanged (case u_originalItems r of None \<Rightarrow> [] | Some its \<Rightarrow> its) items"
    with rest obtain c3 where
      s3: "replace_items fault now uid oid r items c2 = (Inr (), c3)" and
      cm: "commit_with fault \<lparr> r_status = u_status r, r_itemsUpdated = True \<rparr> c3 = (Inr resp, c')"
      by (auto elim!: tx_bind_Inr)
    from replace_items_Inr [OF s3] w2 commit_with_Inr [OF cm]
    show "resp = \<lparr> r_status = u_status r, r_itemsUpdated = True \<rparr> \<and>
           committed c' = edited now uid oid r items (with_status r oid (committed c)) \<and>
           stock_ok oid items (delete_order_items oid
             (restored (current_items oid (with_status r oid (committed c)))
                (with_status r oid (committed c))))" by simp
  }
qed

lemma PUT_orders_Ok:
  assumes "PUT_orders fault now uid oid r d = (Ok resp, d')"
  shows "valid_update r" and "find_order d oid \<noteq> None"
    and "PUT_orders_tx fault now uid oid r (connect d) = (Inr resp, c') \<Longrightarrow> d' = committed c'"
    and "\<exists>c'. PUT_orders_tx fault now uid oid r (connect d) = (Inr resp, c') \<and> d' = committed c'"
  using assms by (auto simp: PUT_orders_def split: if_splits prod.splits sum.splits)

section \<open>The net change\<close>

subsection \<open>JavaScript maps\<close>

lemma map_of_map_set: "map_of (map_set k v m) k' = (if k' = k then Some v else map_of m k')"
  by (induction m) auto

lemma keys_map_set:
  "map fst (map_set k v m) = (if k \<in> set (map fst m) then map fst m else map fst m @ [k])"
  by (induction m) (force split: if_splits)+

lemma find_app:
  "find P (xs @ ys) = (case find P xs of None \<Rightarrow> find P ys | Some x \<Rightarrow> Some x)"
  by (induction xs) auto

lemma distinct_map_set: "distinct (map fst m) \<Longrightarrow> distinct (map fst (map_set k v m))"
  by (simp add: keys_map_set)

lemma set_keys_map_set: "fst ` set (map_set k v m) = insert k (fst ` set m)"
proof -
  have "set (map fst (map_set k v m)) = insert k (set (map fst m))"
    unfolding keys_map_set by auto
  then show ?thesis by simp
qed

lemma foldl_map_set_distinct:
  "distinct (map fst m0) \<Longrightarrow>
   distinct (map fst (foldl (\<lambda>m it. map_set (productId it) (val it) m) m0 its))"
  by (induction its arbitrary: m0) (simp_all add: distinct_map_set)

lemma foldl_map_set_keys:
  "fst ` set (foldl (\<lambda>m it. map_set (productId it) (val it) m) m0 its)
     = fst ` set m0 \<union> productId ` set its"
  by (induction its arbitrary: m0) (simp_all add: set_keys_map_set)

lemma foldl_map_set_get:
  "map_of (foldl (\<lambda>m it. map_set (productId it) (val it) m) m0 its) k
     = (case find (\<lambda>it. productId it = k) (rev its) of
          None \<Rightarrow> map_of m0 k | Some it \<Rightarrow> Some (val it))"
  by (induction its arbitrary: m0) (auto simp: map_of_map_set find_app split: option.splits)

lemma build_map_distinct: "distinct (map fst (build_map val its))"
  using foldl_map_set_distinct [of "[]" val its] by (simp add: build_map_def)

lemma build_map_keys: "fst ` set (build_map val its) = productId ` set its"
  using foldl_map_set_keys [of val "[]" its] by (simp add: build_map_def)

lemma build_map_get: "map_get (build_map val its) k = map_option val (item_of its k)"
  using foldl_map_set_get [of val "[]" its k]
  by (simp add: build_map_def map_get_def item_of_def split: option.splits)

lemma item_map_get: "map_get (item_map its) k = item_of its k"
  by (simp add: item_map_def build_map_get option.map_ident)

lemma item_map_entry:
  "(k, v) \<in> set (item_map its) \<Longrightarrow> item_of its k = Some v"
  using build_map_distinct [of "\<lambda>it. it" its]
  by (simp add: item_map_get [symmetric] map_get_def item_map_def)

lemma item_of_None: "item_of its k = None \<longleftrightarrow> k \<notin> productId ` set its"
  by (auto simp: item_of_def find_None_iff)

subsection \<open>Sums over the entries of a map\<close>

lemma sum_entries:
  assumes "distinct (map fst m)"
  shows "sum_list (map (\<lambda>(k, v). g k v) (filter (\<lambda>(k, v). P k) m))
         = sum (\<lambda>k. g k (the (map_of m k))) {k \<in> set (map fst m). P k}"
  using assms
proof (induction m)
  case Nil
  then show ?case by simp
next
  case (Cons e m)
  obtain k v where e: "e = (k, v)" by (cases e)
  let ?S = "{k' \<in> set (map fst m). P k'}"
  from Cons.prems e have k: "k \<notin> set (map fst m)" and d: "distinct (map fst m)" by auto
  have fin: "finite ?S" by simp
  have notin: "k \<notin> ?S" using k by simp
  have eq: "sum (\<lambda>k'. g k' (the (map_of (e # m) k'))) ?S
          = sum (\<lambda>k'. g k' (the (map_of m k'))) ?S"
    using k e by (intro sum.cong refl) auto
  have ih: "sum_list (map (\<lambda>(k, v). g k v) (filter (\<lambda>(k, v). P k) m))
          = sum (\<lambda>k'. g k' (the (map_of m k'))) ?S"
    by (rule Cons.IH [OF d])
  show ?case
  proof (cases "P k")
    case True
    then have S: "{k' \<in> set (map fst (e # m)). P k'} = insert k ?S"
      using e by auto
    have "sum (\<lambda>k'. g k' (the (map_of (e # m) k'))) (insert k ?S)
          = g k (the (map_of (e # m) k)) + sum (\<lambda>k'. g k' (the (map_of (e # m) k'))) ?S"
      using fin notin by (rule sum.insert)
    with True e ih eq S show ?thesis by simp
  next
    case False
    then have S: "{k' \<in> set (map fst (e # m)). P k'} = ?S"
      using e by auto
    with False e ih eq show ?thesis by simp
  qed
qed


lemma sum_all_entries:
  assumes "distinct (map fst m)"
  shows "sum_list (map (\<lambda>(k, v). g k v) m) = sum (\<lambda>k. g k (the (map_of m k))) (fst ` set m)"
  using sum_entries [OF assms, of g "\<lambda>_. True"] by simp

subsection \<open>The accumulation loops\<close>

lemma pick_add_to: "pick c (add_to c' v acc) = pick c acc + (if c' = c then v else 0)"
  by (cases acc; cases c; cases c') (simp_all add: pick_def add_to_def)

lemma pick_foldl_add_to:
  "pick c (foldl (\<lambda>acc x. add_to (cur x) (v x) acc) acc xs)
     = pick c acc + sum_list (map (\<lambda>x. if cur x = c then v x else 0) xs)"
  by (induction xs arbitrary: acc) (simp_all add: pick_add_to)

lemma pick_net_added:
  "pick c (net_added cat (addedItems om nm) acc)
     = pick c acc + sum_list (map (\<lambda>(k, n). if currency_of (cat k) = c
          then (if map_get om k = None then quantity n * price n else 0) else 0) nm)"
proof -
  have "sum_list (map (\<lambda>x. if currency_of (cat (productId x)) = c then quantity x * price x else 0)
          (addedItems om nm))
      = sum_list (map (\<lambda>(k, n). if currency_of (cat k) = c
          then (if map_get om k = None then quantity n * price n else 0) else 0) nm)"
    unfolding addedItems_def by (induction nm) auto
  then show ?thesis
    unfolding net_added_def by (simp add: pick_foldl_add_to)
qed

lemma pick_net_removed:
  "pick c (net_removed cat (removedItems om nm) acc)
     = pick c acc + sum_list (map (\<lambda>(k, x). if currency_of (cat k) = c
          then (if map_get nm k = None then - (quantity x * price x) else 0) else 0) om)"
proof -
  have "sum_list (map (\<lambda>x. if currency_of (cat (productId x)) = c then - (quantity x * price x) else 0)
          (removedItems om nm))
      = sum_list (map (\<lambda>(k, x). if currency_of (cat k) = c
          then (if map_get nm k = None then - (quantity x * price x) else 0) else 0) om)"
    unfolding removedItems_def by (induction om) auto
  then show ?thesis
    unfolding net_removed_def by (simp add: pick_foldl_add_to)
qed

lemma pick_net_changed:
  "pick c (net_changed cat qcs acc)
     = pick c acc + sum_list (map (\<lambda>qc. if currency_of (cat (qc_productId qc)) = c
          then (if truthy (qc_increase qc) then the (qc_increase qc) * qc_price qc
                else if truthy (qc_decrease qc) then - (the (qc_decrease qc) * qc_price qc)
                else 0) else 0) qcs)"
  unfolding net_changed_def
  by (induction qcs arbitrary: acc) (simp_all add: pick_add_to)

lemma sum_increases:
  "sum_list (map (\<lambda>qc. if currency_of (cat (qc_productId qc)) = c
          then (if truthy (qc_increase qc) then the (qc_increase qc) * qc_price qc
                else if truthy (qc_decrease qc) then - (the (qc_decrease qc) * qc_price qc)
                else 0) else 0) (increases om nm))
   = sum_list (map (\<lambda>(k, n). if currency_of (cat k) = c
          then (case map_get om k of None \<Rightarrow> 0
                | Some x \<Rightarrow> if quantity n > quantity x then (quantity n - quantity x) * price n else 0)
          else 0) nm)"
  unfolding increases_def
  by (induction nm) (auto simp: truthy_def split: option.splits)

lemma sum_decreases:
  "sum_list (map (\<lambda>qc. if currency_of (cat (qc_productId qc)) = c
          then (if truthy (qc_increase qc) then the (qc_increase qc) * qc_price qc
                else if truthy (qc_decrease qc) then - (the (qc_decrease qc) * qc_price qc)
                else 0) else 0) (decreases om nm))
   = sum_list (map (\<lambda>(k, x). if currency_of (cat k) = c
          then (case map_get nm k of None \<Rightarrow> 0
                | Some n \<Rightarrow> if quantity n < quantity x then - ((quantity x - quantity n) * price x) else 0)
          else 0) om)"
  unfolding decreases_def
  by (induction om) (auto simp: truthy_def split: option.splits)

lemma new_side_sum:
  "sum_list (map (\<lambda>(k, n). if currency_of (cat k) = c
          then (if map_get om k = None then quantity n * price n else 0) else 0) nm)
   + sum_list (map (\<lambda>(k, n). if currency_of (cat k) = c
          then (case map_get om k of None \<Rightarrow> 0
                | Some x \<Rightarrow> if quantity n > quantity x then (quantity n - quantity x) * price n else 0)
          else 0) nm)
   = sum_list (map (\<lambda>(k, n). if currency_of (cat k) = c then new_side (map_get om k) n else 0) nm)"
  by (induction nm) (auto simp: new_side_def split: option.splits)

lemma old_side_sum:
  "sum_list (map (\<lambda>(k, x). if currency_of (cat k) = c
          then (if map_get nm k = None then - (quantity x * price x) else 0) else 0) om)
   + sum_list (map (\<lambda>(k, x). if currency_of (cat k) = c
          then (case map_get nm k of None \<Rightarrow> 0
                | Some n \<Rightarrow> if quantity n < quantity x then - ((quantity x - quantity n) * price x) else 0)
          else 0) om)
   = sum_list (map (\<lambda>(k, x). if currency_of (cat k) = c then old_side x (map_get nm k) else 0) om)"
  by (induction om) (auto simp: old_side_def split: option.splits)

lemma pick_net:
  "pick c (net_changed cat (increases om nm @ decreases om nm)
             (net_removed cat (removedItems om nm) (net_added cat (addedItems om nm) (0, 0))))
   = sum_list (map (\<lambda>(k, n). if currency_of (cat k) = c then new_side (map_get om k) n else 0) nm)
   + sum_list (map (\<lambda>(k, x). if currency_of (cat k) = c then old_side x (map_get nm k) else 0) om)"
  unfolding pick_net_changed pick_net_removed pick_net_added map_append sum_list_append
    sum_increases sum_decreases new_side_sum [symmetric] old_side_sum [symmetric]
  by (simp add: pick_def)


subsection \<open>The reconciler computes the net change over its maps\<close>

lemma line_delta_sides:
  "line_delta old new
     = (case new of None \<Rightarrow> 0 | Some n \<Rightarrow> new_side old n)
     + (case old of None \<Rightarrow> 0 | Some x \<Rightarrow> old_side x new)"
  by (auto simp: line_delta_def new_side_def old_side_def split: option.splits)

lemma net_change_refines:
  "pick c (net_changed cat (increases (item_map old) (item_map new) @ decreases (item_map old) (item_map new))
             (net_removed cat (removedItems (item_map old) (item_map new))
               (net_added cat (addedItems (item_map old) (item_map new)) (0, 0))))
   = map_net_change cat c old new"
proof -
  let ?Kn = "productId ` set new" and ?Ko = "productId ` set old"
  let ?P = "\<lambda>k. currency_of (cat k) = c"
  let ?A = "\<lambda>k. if ?P k then (case item_of new k of None \<Rightarrow> 0 | Some n \<Rightarrow> new_side (item_of old k) n) else 0"
  let ?B = "\<lambda>k. if ?P k then (case item_of old k of None \<Rightarrow> 0 | Some x \<Rightarrow> old_side x (item_of new k)) else 0"
  have dn: "distinct (map fst (item_map new))" and dold: "distinct (map fst (item_map old))"
    by (simp_all add: item_map_def build_map_distinct)
  have kn: "fst ` set (item_map new) = ?Kn" and ko: "fst ` set (item_map old) = ?Ko"
    by (simp_all add: item_map_def build_map_keys)
  have mo: "map_of (item_map its) k = item_of its k" for its k
    using item_map_get [of its k] by (simp add: map_get_def)
  have S1: "sum_list (map (\<lambda>(k, n). if ?P k then new_side (map_get (item_map old) k) n else 0) (item_map new))
            = sum ?A ?Kn"
  proof -
    have "sum_list (map (\<lambda>(k, n). if ?P k then new_side (map_get (item_map old) k) n else 0) (item_map new))
          = sum (\<lambda>k. if ?P k then new_side (map_get (item_map old) k) (the (map_of (item_map new) k)) else 0) ?Kn"
      using sum_all_entries [OF dn, of "\<lambda>k n. if ?P k then new_side (map_get (item_map old) k) n else 0"]
      by (simp only: kn)
    also have "\<dots> = sum ?A ?Kn"
      by (intro sum.cong refl) (auto simp: mo item_map_get item_of_None split: option.splits)
    finally show ?thesis .
  qed
  have S2: "sum_list (map (\<lambda>(k, x). if ?P k then old_side x (map_get (item_map new) k) else 0) (item_map old))
            = sum ?B ?Ko"
  proof -
    have "sum_list (map (\<lambda>(k, x). if ?P k then old_side x (map_get (item_map new) k) else 0) (item_map old))
          = sum (\<lambda>k. if ?P k then old_side (the (map_of (item_map old) k)) (map_get (item_map new) k) else 0) ?Ko"
      using sum_all_entries [OF dold, of "\<lambda>k x. if ?P k then old_side x (map_get (item_map new) k) else 0"]
      by (simp only: ko)
    also have "\<dots> = sum ?B ?Ko"
      by (intro sum.cong refl) (auto simp: mo item_map_get item_of_None split: option.splits)
    finally show ?thesis .
  qed
  have fin: "finite (?Ko \<union> ?Kn)" by simp
  have "map_net_change cat c old new
        = sum (\<lambda>k. if ?P k then line_delta (item_of old k) (item_of new k) else 0) (?Ko \<union> ?Kn)"
    unfolding map_net_change_def image_Un
    using sum.inter_filter [OF fin, of "\<lambda>k. line_delta (item_of old k) (item_of new k)" ?P]
    by simp
  also have "\<dots> = sum (\<lambda>k. ?A k + ?B k) (?Ko \<union> ?Kn)"
    by (intro sum.cong refl) (simp add: line_delta_sides)
  also have "\<dots> = sum ?A (?Ko \<union> ?Kn) + sum ?B (?Ko \<union> ?Kn)"
    by (rule sum.distrib)
  also have "sum ?A (?Ko \<union> ?Kn) = sum ?A ?Kn"
    by (intro sum.mono_neutral_right) (auto simp: item_of_None [symmetric] split: option.splits)
  also have "sum ?B (?Ko \<union> ?Kn) = sum ?B ?Ko"
    by (intro sum.mono_neutral_right) (auto simp: item_of_None [symmetric] split: option.splits)
  finally show ?thesis
    unfolding pick_net S1 S2 by simp
qed

lemma calculateNetDebtChange_net:
  "eurNetChange (calculateNetDebtChange cat old new oid) = map_net_change cat EUR old new"
  "mkdNetChange (calculateNetDebtChange cat old new oid) = map_net_change cat MKD old new"
  using net_change_refines [of EUR cat old new] net_change_refines [of MKD cat old new]
  by (simp_all add: calculateNetDebtChange_def Let_def split_beta pick_def)

section \<open>Effects on the tables\<close>

subsection \<open>Statements, table by table\<close>

lemma update_stock_fields [simp]:
  "orders (update_stock pid q d) = orders d"
  "order_items (update_stock pid q d) = order_items d"
  "user_debt_adjustments (update_stock pid q d) = user_debt_adjustments d"
  "orders_seq (update_stock pid q d) = orders_seq d"
  by (simp_all add: update_stock_def)

lemma insert_order_item_fields [simp]:
  "products (insert_order_item oid it d) = products d"
  "orders (insert_order_item oid it d) = orders d"
  "user_debt_adjustments (insert_order_item oid it d) = user_debt_adjustments d"
  by (simp_all add: insert_order_item_def)

lemma insert_adjustment_fields [simp]:
  "products (insert_adjustment a d) = products d"
  "orders (insert_adjustment a d) = orders d"
  "order_items (insert_adjustment a d) = order_items d"
  "user_debt_adjustments (insert_adjustment a d) = user_debt_adjustments d @ [a]"
  by (simp_all add: insert_adjustment_def)

lemma delete_order_items_fields [simp]:
  "products (delete_order_items oid d) = products d"
  "orders (delete_order_items oid d) = orders d"
  "user_debt_adjustments (delete_order_items oid d) = user_debt_adjustments d"
  "order_items (delete_order_items oid d) = filter (\<lambda>i. oi_order_id i \<noteq> oid) (order_items d)"
  by (simp_all add: delete_order_items_def)

lemma delete_order_fields [simp]:
  "products (delete_order oid d) = products d"
  "order_items (delete_order oid d) = order_items d"
  "user_debt_adjustments (delete_order oid d) = user_debt_adjustments d"
  "orders (delete_order oid d) = filter (\<lambda>r. o_id r \<noteq> oid) (orders d)"
  by (simp_all add: delete_order_def)

lemma set_status_fields [simp]:
  "products (set_status s oid d) = products d"
  "order_items (set_status s oid d) = order_items d"
  "user_debt_adjustments (set_status s oid d) = user_debt_adjustments d"
  by (simp_all add: set_status_def)

lemma set_total_fields [simp]:
  "products (set_total t oid d) = products d"
  "order_items (set_total t oid d) = order_items d"
  "user_debt_adjustments (set_total t oid d) = user_debt_adjustments d"
  by (simp_all add: set_total_def)

lemma with_status_fields [simp]:
  "products (with_status r oid d) = products d"
  "order_items (with_status r oid d) = order_items d"
  "user_debt_adjustments (with_status r oid d) = user_debt_adjustments d"
  by (simp_all add: with_status_def split: option.splits)

lemma find_product_cong: "products d = products d' \<Longrightarrow> find_product d = find_product d'"
  by (simp add: find_product_def fun_eq_iff)

lemma category_of_cong: "products d = products d' \<Longrightarrow> category_of d = category_of d'"
  by (simp add: category_of_def find_product_def fun_eq_iff)

lemma find_map_same_id:
  "(\<And>p. p_id (g p) = p_id p) \<Longrightarrow>
   find (\<lambda>p. p_id p = k) (map g ps) = map_option g (find (\<lambda>p. p_id p = k) ps)"
  by (induction ps) auto

lemma find_product_update_stock:
  "find_product (update_stock pid q d) k
     = map_option (\<lambda>p. if p_id p = pid then p\<lparr> p_stock_quantity := p_stock_quantity p + q \<rparr> else p)
         (find_product d k)"
  unfolding find_product_def update_stock_def
  by (simp add: find_map_same_id)

lemma category_of_update_stock [simp]: "category_of (update_stock pid q d) = category_of d"
  by (auto simp: category_of_def find_product_update_stock fun_eq_iff option.map_comp comp_def
        intro!: option.map_cong)

lemma category_of_others [simp]:
  "category_of (insert_order_item oid it d) = category_of d"
  "category_of (insert_adjustment a d) = category_of d"
  "category_of (delete_order_items oid d) = category_of d"
  "category_of (set_status s oid d) = category_of d"
  "category_of (set_total t oid d) = category_of d"
  by (rule category_of_cong, simp)+

lemma find_order_id: "find_order d oid = Some x \<Longrightarrow> o_id x = oid"
  by (auto simp: find_order_def find_Some_iff)

subsection \<open>Restoring and inserting\<close>

lemma restored_fields [simp]:
  "orders (restored rows d) = orders d"
  "order_items (restored rows d) = order_items d"
  "user_debt_adjustments (restored rows d) = user_debt_adjustments d"
  "category_of (restored rows d) = category_of d"
  unfolding restored_def by (induction rows arbitrary: d) simp_all

lemma inserted_fields [simp]:
  "orders (inserted oid items d) = orders d"
  "user_debt_adjustments (inserted oid items d) = user_debt_adjustments d"
  "category_of (inserted oid items d) = category_of d"
  unfolding inserted_def
  by (induction items arbitrary: d) simp_all

lemma appended_fields [simp]:
  "products (foldl (\<lambda>d a. insert_adjustment a d) d as) = products d"
  "orders (foldl (\<lambda>d a. insert_adjustment a d) d as) = orders d"
  "order_items (foldl (\<lambda>d a. insert_adjustment a d) d as) = order_items d"
  "user_debt_adjustments (foldl (\<lambda>d a. insert_adjustment a d) d as) = user_debt_adjustments d @ as"
  by (induction as arbitrary: d) simp_all

lemma restored_products:
  "products (restored rows d)
     = map (\<lambda>p. p\<lparr> p_stock_quantity := p_stock_quantity p +
                     sum_list (map oi_quantity (filter (\<lambda>i. oi_product_id i = p_id p) rows)) \<rparr>)
         (products d)"
  unfolding restored_def
proof (induction rows arbitrary: d)
  case Nil
  then show ?case by (simp add: map_idI)
next
  case (Cons i rows)
  show ?case
    by (simp add: Cons.IH) (simp add: update_stock_def comp_def)
qed

lemma order_client_cong: "orders d = orders d' \<Longrightarrow> order_client oid d = order_client oid d'"
  by (simp add: order_client_def find_order_def)

lemma find_order_set_status:
  "find_order (set_status s oid d) k
     = map_option (\<lambda>r. if o_id r = oid then r\<lparr> o_status := s \<rparr> else r) (find_order d k)"
proof -
  have "find (\<lambda>r. o_id r = k) (map (\<lambda>r. if o_id r = oid then r\<lparr> o_status := s \<rparr> else r) xs)
        = map_option (\<lambda>r. if o_id r = oid then r\<lparr> o_status := s \<rparr> else r) (find (\<lambda>r. o_id r = k) xs)" for xs
    by (induction xs) auto
  then show ?thesis by (simp add: find_order_def set_status_def)
qed

lemma find_order_set_total:
  "find_order (set_total t oid d) k
     = map_option (\<lambda>r. if o_id r = oid then r\<lparr> o_total_amount := t \<rparr> else r) (find_order d k)"
proof -
  have "find (\<lambda>r. o_id r = k) (map (\<lambda>r. if o_id r = oid then r\<lparr> o_total_amount := t \<rparr> else r) xs)
        = map_option (\<lambda>r. if o_id r = oid then r\<lparr> o_total_amount := t \<rparr> else r) (find (\<lambda>r. o_id r = k) xs)" for xs
    by (induction xs) auto
  then show ?thesis by (simp add: find_order_def set_total_def)
qed

lemma order_client_with_status [simp]: "order_client oid (with_status r k d) = order_client oid d"
  by (auto simp: order_client_def with_status_def find_order_set_status split: option.splits)

lemma order_status_with_status:
  "order_status (with_status r oid d) oid
     = (case u_status r of None \<Rightarrow> order_status d oid
        | Some s \<Rightarrow> map_option (\<lambda>_. s) (find_order d oid))"
  by (cases "find_order d oid")
     (auto simp: order_status_def with_status_def find_order_set_status dest: find_order_id
        split: option.splits)

lemma order_status_set_total [simp]: "order_status (set_total t k d) oid = order_status d oid"
  by (auto simp: order_status_def find_order_set_total option.map_comp comp_def
        intro!: option.map_cong)

lemma order_status_cong: "orders d = orders d' \<Longrightarrow> order_status d oid = order_status d' oid"
  by (simp add: order_status_def find_order_def)

lemma category_of_with_status [simp]: "category_of (with_status r oid d) = category_of d"
  by (rule category_of_cong) simp

subsection \<open>What an edit commits\<close>

lemma edited_ledger:
  "user_debt_adjustments (edited now uid oid r items d)
     = user_debt_adjustments d @
       edit_entries (net_of r items oid d) (order_client oid d) uid now"
proof -
  have c: "category_of (inserted oid items
             (delete_order_items oid (restored (current_items oid d) d))) = category_of d"
    by simp
  have o: "order_client oid (restored (current_items oid d) d) = order_client oid d"
    by (rule order_client_cong) simp
  show ?thesis
    by (simp add: edited_def Let_def net_of_def c o)
qed

lemma edited_status: "order_status (edited now uid oid r items d) k = order_status d k"
proof -
  have "order_status (edited now uid oid r items d) k
        = order_status (foldl (\<lambda>d a. insert_adjustment a d)
            (inserted oid items (delete_order_items oid (restored (current_items oid d) d)))
            (edit_entries
               (net_of r items oid (inserted oid items (delete_order_items oid (restored (current_items oid d) d))))
               (order_client oid (restored (current_items oid d) d)) uid now)) k"
    by (simp add: edited_def Let_def)
  also have "\<dots> = order_status d k"
    by (rule order_status_cong) simp
  finally show ?thesis .
qed

section \<open>Order edits\<close>

subsection \<open>The handler\<close>

lemma PUT_orders_Ok_effect:
  assumes "PUT_orders fault now uid oid r d = (Ok resp, d')"
  shows "valid_update r" and "find_order d oid \<noteq> None"
    and "u_items r = None \<Longrightarrow>
           resp = \<lparr> r_status = u_status r, r_itemsUpdated = False \<rparr> \<and> d' = with_status r oid d"
    and "u_items r = Some items \<Longrightarrow> \<not> checkItemsChanged (original_of r) items \<Longrightarrow>
           resp = \<lparr> r_status = u_status r, r_itemsUpdated = False \<rparr> \<and>
           d' = with_status r oid (with_status r oid d)"
    and "u_items r = Some items \<Longrightarrow> checkItemsChanged (original_of r) items \<Longrightarrow>
           resp = \<lparr> r_status = u_status r, r_itemsUpdated = True \<rparr> \<and>
           d' = edited now uid oid r items (with_status r oid d) \<and>
           stock_ok oid items (delete_order_items oid
             (restored (current_items oid (with_status r oid d)) (with_status r oid d)))"
proof -
  from PUT_orders_Ok(4) [OF assms] obtain c' where
    run: "PUT_orders_tx fault now uid oid r (connect d) = (Inr resp, c')" and d': "d' = committed c'"
    by blast
  show "valid_update r" "find_order d oid \<noteq> None"
    using PUT_orders_Ok(1,2) [OF assms] by simp_all
  show "u_items r = None \<Longrightarrow>
           resp = \<lparr> r_status = u_status r, r_itemsUpdated = False \<rparr> \<and> d' = with_status r oid d"
    using PUT_orders_tx_Inr(1) [OF run] d' by simp
  show "u_items r = Some items \<Longrightarrow> \<not> checkItemsChanged (original_of r) items \<Longrightarrow>
           resp = \<lparr> r_status = u_status r, r_itemsUpdated = False \<rparr> \<and>
           d' = with_status r oid (with_status r oid d)"
    using PUT_orders_tx_Inr(2) [OF run, of items] d' by (simp add: original_of_def)
  show "u_items r = Some items \<Longrightarrow> checkItemsChanged (original_of r) items \<Longrightarrow>
           resp = \<lparr> r_status = u_status r, r_itemsUpdated = True \<rparr> \<and>
           d' = edited now uid oid r items (with_status r oid d) \<and>
           stock_ok oid items (delete_order_items oid
             (restored (current_items oid (with_status r oid d)) (with_status r oid d)))"
    using PUT_orders_tx_Inr(3) [OF run, of items] d' by (simp add: original_of_def)
qed

lemma PUT_orders_ledger:
  assumes "PUT_orders fault now uid oid r d = (resp, d')"
  shows "user_debt_adjustments d' = user_debt_adjustments d \<or>
         (\<exists>items x. u_items r = Some items \<and> resp = Ok x \<and> r_itemsUpdated x \<and>
            checkItemsChanged (original_of r) items \<and>
            user_debt_adjustments d' = user_debt_adjustments d @
              edit_entries (net_of r items oid d) (order_client oid d) uid now)"
proof (cases "\<exists>x. resp = Ok x")
  case False
  with PUT_orders_failure [OF assms] show ?thesis by simp
next
  case True
  then obtain x where x: "resp = Ok x" by blast
  note e = PUT_orders_Ok_effect [OF assms [unfolded x]]
  show ?thesis
  proof (cases "u_items r")
    case None
    with e(3) show ?thesis by simp
  next
    case (Some items)
    show ?thesis
    proof (cases "checkItemsChanged (original_of r) items")
      case False
      with e(4) [OF Some] show ?thesis by simp
    next
      case True
      with e(5) [OF Some] Some x show ?thesis
        by (simp add: edited_ledger net_of_def)
    qed
  qed
qed


text \<open>
  Claim C7, amended. Take two successful order-edit requests with identical \<open>items\<close>
  and \<open>originalItems\<close> that address the same order id, on databases with the same
  product categories in which the order has a client (or has none in both), whatever the
  stored item rows of the order are. Then the no-op decision (the \<open>itemsUpdated\<close> flag
  of the response) is the same, the computed net debt change and note are the same, and the
  ledger entries appended agree in currency, amount and note text. The note text contains
  the order id.
\<close>

theorem ledger_output_follows_payload:
  assumes "PUT_orders fault1 now1 uid1 oid r1 d1 = (Ok resp1, d1')"
    and "PUT_orders fault2 now2 uid2 oid r2 d2 = (Ok resp2, d2')"
    and "u_items r1 = u_items r2" and "u_originalItems r1 = u_originalItems r2"
    and "category_of d1 = category_of d2"
    and "truthy (order_client oid d1) = truthy (order_client oid d2)"
  shows "r_itemsUpdated resp1 = r_itemsUpdated resp2 \<and>
         (\<forall>items. net_of r1 items oid d1 = net_of r2 items oid d2) \<and>
         (\<exists>es1 es2.
            user_debt_adjustments d1' = user_debt_adjustments d1 @ es1 \<and>
            user_debt_adjustments d2' = user_debt_adjustments d2 @ es2 \<and>
            map entry_content es1 = map entry_content es2)"
proof -
  note e1 = PUT_orders_Ok_effect [OF assms(1)] and e2 = PUT_orders_Ok_effect [OF assms(2)]
  have orig: "original_of r1 = original_of r2"
    by (simp add: original_of_def assms(4))
  have net: "net_of r1 items oid d1 = net_of r2 items oid d2" for items
    by (simp add: net_of_def assms(4,5))
  have content: "map entry_content (edit_entries n (order_client oid d1) uid1 now1)
               = map entry_content (edit_entries n (order_client oid d2) uid2 now2)" for n
    using assms(6) by (simp add: edit_entries_def entry_content_def ledger_row_def)
  show ?thesis
  proof (cases "u_items r1")
    case None
    with e1(3) e2(3) assms(3) net show ?thesis by simp
  next
    case (Some items)
    then have Some2: "u_items r2 = Some items" using assms(3) by simp
    show ?thesis
    proof (cases "checkItemsChanged (original_of r1) items")
      case False
      with e1(4) [OF Some] e2(4) [OF Some2] orig net show ?thesis by simp
    next
      case True
      then have True2: "checkItemsChanged (original_of r2) items" using orig by simp
      from e1(5) [OF Some True] e2(5) [OF Some2 True2]
      have r: "r_itemsUpdated resp1 = r_itemsUpdated resp2"
        and l1: "user_debt_adjustments d1' = user_debt_adjustments d1 @
                   edit_entries (net_of r1 items oid d1) (order_client oid d1) uid1 now1"
        and l2: "user_debt_adjustments d2' = user_debt_adjustments d2 @
                   edit_entries (net_of r2 items oid d2) (order_client oid d2) uid2 now2"
        by (simp_all add: edited_ledger net_of_def)
      have c: "map entry_content (edit_entries (net_of r1 items oid d1) (order_client oid d1) uid1 now1)
             = map entry_content (edit_entries (net_of r2 items oid d2) (order_client oid d2) uid2 now2)"
        using content [of "net_of r2 items oid d2"] net [of items] by simp
      from r net l1 l2 c show ?thesis by blast
    qed
  qed
qed

theorem ledger_output_follows_payload_witness:
  "PUT_orders no_fault 2000000 1 1 ab_to_ac order_ab_db
     = (Ok \<lparr> r_status = None, r_itemsUpdated = True \<rparr>,
        snd (PUT_orders no_fault 2000000 1 1 ab_to_ac order_ab_db)) \<and>
   PUT_orders no_fault 3000000 1 1 ab_to_ac order_c_db
     = (Ok \<lparr> r_status = None, r_itemsUpdated = True \<rparr>,
        snd (PUT_orders no_fault 3000000 1 1 ab_to_ac order_c_db)) \<and>
   category_of order_ab_db = category_of order_c_db \<and>
   truthy (order_client 1 order_ab_db) \<and> truthy (order_client 1 order_c_db) \<and>
   order_items order_ab_db \<noteq> order_items order_c_db \<and>
   (\<exists>es1 es2.
      user_debt_adjustments (snd (PUT_orders no_fault 2000000 1 1 ab_to_ac order_ab_db))
        = user_debt_adjustments order_ab_db @ es1 \<and>
      user_debt_adjustments (snd (PUT_orders no_fault 3000000 1 1 ab_to_ac order_c_db))
        = user_debt_adjustments order_c_db @ es2 \<and>
      map entry_content es1 = map entry_content es2)"
proof -
  have h1: "PUT_orders no_fault 2000000 1 1 ab_to_ac order_ab_db
     = (Ok \<lparr> r_status = None, r_itemsUpdated = True \<rparr>,
        snd (PUT_orders no_fault 2000000 1 1 ab_to_ac order_ab_db))"
    by code_simp
  have h2: "PUT_orders no_fault 3000000 1 1 ab_to_ac order_c_db
     = (Ok \<lparr> r_status = None, r_itemsUpdated = True \<rparr>,
        snd (PUT_orders no_fault 3000000 1 1 ab_to_ac order_c_db))"
    by code_simp
  have eq: "map (\<lambda>p. (p_id p, p_category p)) (products order_ab_db)
        = map (\<lambda>p. (p_id p, p_category p)) (products order_c_db)"
    by code_simp
  have "map_option p_category (find (\<lambda>p. p_id p = k) ps)
        = map_of (map (\<lambda>p. (p_id p, p_category p)) ps) k" for ps :: "product list" and k
    by (induction ps) auto
  with eq have h3: "category_of order_ab_db = category_of order_c_db"
    by (simp add: category_of_def find_product_def fun_eq_iff)
  have t: "truthy (order_client 1 order_ab_db)" "truthy (order_client 1 order_c_db)"
    "order_items order_ab_db \<noteq> order_items order_c_db"
    by code_simp+
  then have h4: "truthy (order_client 1 order_ab_db) = truthy (order_client 1 order_c_db)"
    by simp
  from ledger_output_follows_payload [OF h1 h2 refl refl h3 h4] h1 h2 h3 t show ?thesis
    by simp
qed

text \<open>
  The claim as stated compares requests with identical payload on orders with different
  stored rows. Orders 1 and 2 of \<open>two_orders_db\<close> are such orders; the same payload
  appends the same amount, and a note that names order 1 in one case and order 2 in the
  other.
\<close>

theorem note_names_the_order_counterexample:
  "fst (PUT_orders no_fault 2000000 1 1 ab_to_ac two_orders_db)
     = Ok \<lparr> r_status = None, r_itemsUpdated = True \<rparr> \<and>
   fst (PUT_orders no_fault 2000000 1 2 ab_to_ac two_orders_db)
     = Ok \<lparr> r_status = None, r_itemsUpdated = True \<rparr> \<and>
   map oi_product_id (stored_items 1 two_orders_db) = [2, 3] \<and>
   map oi_product_id (stored_items 2 two_orders_db) = [4] \<and>
   map entry_content (drop 2 (user_debt_adjustments (snd (PUT_orders no_fault 2000000 1 1 ab_to_ac two_orders_db))))
     = [(Some MKD, - 25, Some ''Items increased and reduced and quantity updated in order #1. Increased: C (x1). Reduced: B (x1). Quantity changes: A (+1)'')] \<and>
   map entry_content (drop 2 (user_debt_adjustments (snd (PUT_orders no_fault 2000000 1 2 ab_to_ac two_orders_db))))
     = [(Some MKD, - 25, Some ''Items increased and reduced and quantity updated in order #2. Increased: C (x1). Reduced: B (x1). Quantity changes: A (+1)'')]"
  by code_simp


lemma item_of_member:
  "it \<in> set its \<Longrightarrow> distinct (map productId its) \<Longrightarrow> item_of its (productId it) = Some it"
proof (induction its)
  case Nil
  then show ?case by simp
next
  case (Cons x its)
  show ?case
  proof (cases "it \<in> set its")
    case True
    with Cons have "item_of its (productId it) = Some it" by simp
    then show ?thesis by (simp add: item_of_def find_app)
  next
    case False
    with Cons.prems have x: "it = x" and "productId x \<notin> productId ` set its" by auto
    then have "find (\<lambda>i. productId i = productId x) (rev its) = None"
      using item_of_None [of its "productId x"] by (simp add: item_of_def)
    with x show ?thesis by (simp add: item_of_def find_app)
  qed
qed

lemma item_of_Some: "item_of its k = Some it \<Longrightarrow> it \<in> set its \<and> productId it = k"
proof -
  assume "item_of its k = Some it"
  then obtain i where "i < length (rev its)" "productId (rev its ! i) = k" "it = rev its ! i"
    unfolding item_of_def find_Some_iff by blast
  then have "it \<in> set (rev its)" "productId it = k"
    using nth_mem [of i "rev its"] by simp_all
  then show ?thesis by simp
qed

lemma same_items_unchanged:
  assumes d1: "distinct (map productId orig)" and d2: "distinct (map productId items)"
    and eq: "set (map (\<lambda>it. (productId it, quantity it)) orig)
             = set (map (\<lambda>it. (productId it, quantity it)) items)"
  shows "\<not> checkItemsChanged orig items"
proof -
  let ?pq = "\<lambda>it. (productId it, quantity it)"
  have ids: "productId ` set orig = productId ` set items"
  proof -
    have "fst ` set (map ?pq orig) = fst ` set (map ?pq items)" using eq by simp
    then show ?thesis by (simp add: image_image)
  qed
  have len: "length orig = length items"
    using distinct_card [OF d1] distinct_card [OF d2] ids by simp
  have qty: "map_option quantity (item_of items k) = map_option quantity (item_of orig k)" for k
  proof (cases "item_of orig k")
    case None
    then have "k \<notin> productId ` set items" using ids by (simp add: item_of_None)
    with None show ?thesis by (simp add: item_of_None [symmetric])
  next
    case (Some x)
    from item_of_Some [OF Some] have "?pq x \<in> set (map ?pq orig)" and k: "productId x = k" by auto
    with eq obtain y where y: "y \<in> set items" "?pq y = ?pq x" by auto
    from item_of_member [OF y(1) d2] y(2) k have "item_of items k = Some y" by simp
    with Some y(2) show ?thesis by simp
  qed
  have a: "\<not> list_ex (\<lambda>(pid, originalQty).
              map_get (build_map quantity items) pid = None \<or>
              map_get (build_map quantity items) pid \<noteq> Some originalQty) (build_map quantity orig)"
  proof -
    have "map_get (build_map quantity items) pid = Some q"
      if "(pid, q) \<in> set (build_map quantity orig)" for pid q
    proof -
      from that build_map_distinct [of quantity orig]
      have "map_get (build_map quantity orig) pid = Some q" by (simp add: map_get_def)
      then show ?thesis by (simp add: build_map_get qty)
    qed
    then show ?thesis by (auto simp: list_ex_iff)
  qed
  have b: "\<not> list_ex (\<lambda>(pid, newQty). map_get (build_map quantity orig) pid = None)
             (build_map quantity items)"
  proof -
    have "map_get (build_map quantity orig) pid \<noteq> None"
      if "(pid, q) \<in> set (build_map quantity items)" for pid q
    proof -
      from that have "pid \<in> fst ` set (build_map quantity items)" by force
      then have "pid \<in> productId ` set orig" by (simp add: build_map_keys ids)
      then have "item_of orig pid \<noteq> None" by (simp add: item_of_None)
      then show ?thesis by (simp add: build_map_get)
    qed
    then show ?thesis by (auto simp: list_ex_iff)
  qed
  from len a b show ?thesis by (simp add: checkItemsChanged_def Let_def)
qed

lemma order_status_with_status_twice:
  "find_order d oid \<noteq> None \<Longrightarrow>
   order_status (with_status r oid (with_status r oid d)) oid
     = (case u_status r of None \<Rightarrow> order_status d oid | Some s \<Rightarrow> Some s)"
  "find_order d oid \<noteq> None \<Longrightarrow>
   order_status (with_status r oid d) oid
     = (case u_status r of None \<Rightarrow> order_status d oid | Some s \<Rightarrow> Some s)"
  by (cases "u_status r"; cases "find_order d oid";
      auto simp: order_status_def with_status_def find_order_set_status dest: find_order_id)+

text \<open>
  Claim C4, amended. An order-edit request whose new item set is identical to the
  \<open>originalItems\<close> of the same request (same product ids with the same quantities, in
  any order, no product id twice) is a no-op on ledger, stock and stored items: whatever
  the response, it appends no ledger entry, leaves every product's row and the order's
  item rows as they were, and a 200 response reports \<open>itemsUpdated = false\<close> with the status
  of the request applied to the order.
\<close>

theorem unchanged_items_are_no_op:
  assumes "PUT_orders fault now uid oid r d = (resp, d')"
    and "u_items r = Some items" and "u_originalItems r = Some orig"
    and "distinct (map productId orig)" and "distinct (map productId items)"
    and "set (map (\<lambda>it. (productId it, quantity it)) orig)
         = set (map (\<lambda>it. (productId it, quantity it)) items)"
  shows "products d' = products d \<and> order_items d' = order_items d \<and>
         user_debt_adjustments d' = user_debt_adjustments d \<and>
         (\<forall>x. resp = Ok x \<longrightarrow>
            x = \<lparr> r_status = u_status r, r_itemsUpdated = False \<rparr> \<and>
            order_status d' oid = (case u_status r of None \<Rightarrow> order_status d oid | Some s \<Rightarrow> Some s))"
proof (cases "\<exists>x. resp = Ok x")
  case False
  with PUT_orders_failure [OF assms(1)] show ?thesis by auto
next
  case True
  then obtain x where x: "resp = Ok x" by blast
  have same: "\<not> checkItemsChanged (original_of r) items"
    using same_items_unchanged [OF assms(4-6)] assms(3) by (simp add: original_of_def)
  note e = PUT_orders_Ok_effect [OF assms(1) [unfolded x]]
  from e(4) [OF assms(2) same] order_status_with_status_twice(1) [OF e(2), of r] x
  show ?thesis by simp
qed

theorem unchanged_items_are_no_op_witness:
  "PUT_orders no_fault 2000000 1 1 same_items order_ab_db
     = (Ok \<lparr> r_status = Some Completed, r_itemsUpdated = False \<rparr>,
        snd (PUT_orders no_fault 2000000 1 1 same_items order_ab_db)) \<and>
   u_items same_items = Some [itemB 1, itemA 2] \<and>
   u_originalItems same_items = Some [itemA 2, itemB 1] \<and>
   distinct (map productId [itemA 2, itemB 1]) \<and> distinct (map productId [itemB 1, itemA 2]) \<and>
   set (map (\<lambda>it. (productId it, quantity it)) [itemA 2, itemB 1])
     = set (map (\<lambda>it. (productId it, quantity it)) [itemB 1, itemA 2]) \<and>
   products (snd (PUT_orders no_fault 2000000 1 1 same_items order_ab_db)) = products order_ab_db \<and>
   order_items (snd (PUT_orders no_fault 2000000 1 1 same_items order_ab_db)) = order_items order_ab_db \<and>
   user_debt_adjustments (snd (PUT_orders no_fault 2000000 1 1 same_items order_ab_db))
     = user_debt_adjustments order_ab_db \<and>
   order_status order_ab_db 1 = Some Pending \<and>
   order_status (snd (PUT_orders no_fault 2000000 1 1 same_items order_ab_db)) 1 = Some Completed"
proof -
  have h1: "PUT_orders no_fault 2000000 1 1 same_items order_ab_db
     = (Ok \<lparr> r_status = Some Completed, r_itemsUpdated = False \<rparr>,
        snd (PUT_orders no_fault 2000000 1 1 same_items order_ab_db))"
    by code_simp
  have h2: "u_items same_items = Some [itemB 1, itemA 2]"
    and h3: "u_originalItems same_items = Some [itemA 2, itemB 1]"
    and st: "u_status same_items = Some Completed"
    by (simp_all add: same_items_def edit_req_def)
  have h4: "distinct (map productId [itemA 2, itemB 1])"
    and h5: "distinct (map productId [itemB 1, itemA 2])"
    and h6: "set (map (\<lambda>it. (productId it, quantity it)) [itemA 2, itemB 1])
             = set (map (\<lambda>it. (productId it, quantity it)) [itemB 1, itemA 2])"
    by (auto simp: itemA_def itemB_def)
  have p: "order_status order_ab_db 1 = Some Pending"
    by code_simp
  from unchanged_items_are_no_op [OF h1 h2 h3 h4 h5 h6] h1 h2 h3 h4 h5 h6 p st
  show ?thesis by simp
qed

text \<open>
  The claim as stated compares the new items with the stored items of the order. Order 1
  of \<open>order_ab_db\<close> stores \<open>{A: 2, B: 1}\<close>; a request with exactly these items and no
  \<open>originalItems\<close> is treated as a change and appends a second entry of -25 MKD.
\<close>

theorem stored_items_resent_counterexample:
  "map (\<lambda>i. (oi_product_id i, oi_quantity i)) (stored_items 1 order_ab_db) = [(2, 2), (3, 1)] \<and>
   map (\<lambda>it. (productId it, quantity it)) (the (u_items resend_items)) = [(2, 2), (3, 1)] \<and>
   fst (PUT_orders no_fault 2000000 1 1 resend_items order_ab_db)
     = Ok \<lparr> r_status = None, r_itemsUpdated = True \<rparr> \<and>
   map entry_content (user_debt_adjustments order_ab_db)
     = [(Some MKD, - 25, Some ''Debt increase from pending order #1'')] \<and>
   map entry_content (user_debt_adjustments (snd (PUT_orders no_fault 2000000 1 1 resend_items order_ab_db)))
     = [(Some MKD, - 25, Some ''Debt increase from pending order #1''),
        (Some MKD, - 25, Some ''Items increased in order #1. Added: A (x2), B (x1)'')]"
  by code_simp

subsection \<open>Stock checks\<close>

lemma find_product_id: "find_product d k = Some p \<Longrightarrow> p_id p = k"
  by (auto simp: find_product_def find_Some_iff)

lemma find_product_restored:
  "find_product (restored rows d) k
     = map_option (\<lambda>p. p\<lparr> p_stock_quantity := p_stock_quantity p +
                     sum_list (map oi_quantity (filter (\<lambda>i. oi_product_id i = k) rows)) \<rparr>)
         (find_product d k)"
proof -
  have "find_product (restored rows d) k
        = map_option (\<lambda>p. p\<lparr> p_stock_quantity := p_stock_quantity p +
                     sum_list (map oi_quantity (filter (\<lambda>i. oi_product_id i = p_id p) rows)) \<rparr>)
            (find_product d k)"
    unfolding find_product_def restored_products by (simp add: find_map_same_id)
  then show ?thesis
    by (cases "find_product d k") (auto dest: find_product_id)
qed

lemma stock_ok_available:
  "stock_ok oid items D \<Longrightarrow> list_all (\<lambda>it. 0 \<le> quantity it) items \<Longrightarrow>
   list_all (\<lambda>it. case find_product D (productId it) of
                     None \<Rightarrow> False
                   | Some p \<Rightarrow> quantity it \<le> p_stock_quantity p) items"
proof (induction items arbitrary: D)
  case Nil
  then show ?case by simp
next
  case (Cons it items)
  let ?D' = "insert_order_item oid it (update_stock (productId it) (- quantity it) D)"
  from Cons.prems(1) obtain p where p: "find_product D (productId it) = Some p"
    and q: "quantity it \<le> p_stock_quantity p" and rest: "stock_ok oid items ?D'"
    by (auto split: option.splits)
  from Cons.prems(2) have nn: "0 \<le> quantity it" and nns: "list_all (\<lambda>it. 0 \<le> quantity it) items"
    by simp_all
  have fp: "find_product ?D' k
            = map_option (\<lambda>p. if p_id p = productId it
                               then p\<lparr> p_stock_quantity := p_stock_quantity p + - quantity it \<rparr> else p)
                (find_product D k)" for k
    using find_product_cong [of ?D' "update_stock (productId it) (- quantity it) D"]
    by (simp add: find_product_update_stock)
  have "case find_product D (productId x) of
          None \<Rightarrow> False | Some p \<Rightarrow> quantity x \<le> p_stock_quantity p"
    if "x \<in> set items" for x
  proof -
    from Cons.IH [OF rest nns] that
    have a: "case find_product ?D' (productId x) of
               None \<Rightarrow> False | Some p \<Rightarrow> quantity x \<le> p_stock_quantity p"
      by (simp add: list_all_iff)
    then obtain p0 where p0: "find_product D (productId x) = Some p0"
      by (cases "find_product D (productId x)") (simp_all add: fp)
    with a nn have "quantity x \<le> p_stock_quantity p0"
      by (simp add: fp split: if_splits)
    with p0 show ?thesis by simp
  qed
  then have "list_all (\<lambda>it. case find_product D (productId it) of
                     None \<Rightarrow> False
                   | Some p \<Rightarrow> quantity it \<le> p_stock_quantity p) items"
    by (simp add: list_all_iff)
  with p q show ?case by simp
qed

lemma current_items_cong:
  "products d = products d' \<Longrightarrow> order_items d = order_items d' \<Longrightarrow>
   current_items oid d = current_items oid d'"
  by (simp add: current_items_def find_product_def)

lemma unavailable_not_stock_ok:
  assumes "list_ex (item_unavailable d oid) items" and "list_all (\<lambda>it. 0 \<le> quantity it) items"
  shows "\<not> stock_ok oid items (delete_order_items oid
           (restored (current_items oid (with_status r oid d)) (with_status r oid d)))"
proof
  let ?D = "delete_order_items oid
           (restored (current_items oid (with_status r oid d)) (with_status r oid d))"
  assume "stock_ok oid items ?D"
  from stock_ok_available [OF this assms(2)]
  have av: "list_all (\<lambda>it. case find_product ?D (productId it) of
                     None \<Rightarrow> False
                   | Some p \<Rightarrow> quantity it \<le> p_stock_quantity p) items" .
  have ci: "current_items oid (with_status r oid d) = current_items oid d"
    by (rule current_items_cong) simp_all
  have fp: "find_product ?D k
      = map_option (\<lambda>p. p\<lparr> p_stock_quantity := p_stock_quantity p + restored_quantity d oid k \<rparr>)
          (find_product d k)" for k
  proof -
    have "find_product ?D k = find_product (restored (current_items oid d) (with_status r oid d)) k"
      using find_product_cong [of ?D "restored (current_items oid (with_status r oid d)) (with_status r oid d)"]
      by (simp add: ci)
    also have "find_product (with_status r oid d) = find_product d"
      by (rule find_product_cong) simp
    then have "find_product (restored (current_items oid d) (with_status r oid d)) k
          = map_option (\<lambda>p. p\<lparr> p_stock_quantity := p_stock_quantity p + restored_quantity d oid k \<rparr>)
              (find_product d k)"
      by (simp add: find_product_restored restored_quantity_def)
    finally show ?thesis .
  qed
  from assms(1) obtain it where it: "it \<in> set items" "item_unavailable d oid it"
    by (auto simp: list_ex_iff)
  from av it(1) have "case find_product ?D (productId it) of
                     None \<Rightarrow> False
                   | Some p \<Rightarrow> quantity it \<le> p_stock_quantity p"
    by (simp add: list_all_iff)
  with it(2) show False
    by (auto simp: fp item_unavailable_def split: option.splits)
qed

lemma PUT_orders_responses:
  "PUT_orders fault now uid oid r d = (resp, d') \<Longrightarrow> valid_update r \<Longrightarrow> find_order d oid \<noteq> None \<Longrightarrow>
     resp = Server_error \<or> (\<exists>x. resp = Ok x)"
  by (auto simp: PUT_orders_def split: prod.splits sum.splits)

text \<open>
  Claim C2. Whatever statement of an order edit fails (under every fault schedule), a
  request that is not answered with 200 leaves the database exactly as it was: no stock
  change, no item change, no ledger entry, no total or status change. In particular an
  edit that changes the items fails, with a 500 and no effect, when a new item names a
  product that does not exist or asks for more than the stock available after the
  restoration. And the committed ledger is either unchanged or extended by all the entries
  the edit set out to write: a failed insert of one entry aborts the transaction, so the
  other entry is never committed without it.
\<close>

theorem failed_edit_leaves_no_trace:
  assumes "PUT_orders fault now uid oid r d = (resp, d')"
  shows "((\<forall>x. resp \<noteq> Ok x) \<longrightarrow> d' = d) \<and>
         (valid_update r \<and> find_order d oid \<noteq> None \<and>
          (\<exists>items. u_items r = Some items \<and> checkItemsChanged (original_of r) items \<and>
                   list_ex (item_unavailable d oid) items)
            \<longrightarrow> resp = Server_error \<and> d' = d) \<and>
         (user_debt_adjustments d' = user_debt_adjustments d \<or>
          (\<exists>items. u_items r = Some items \<and>
             user_debt_adjustments d' = user_debt_adjustments d @
               edit_entries (net_of r items oid d) (order_client oid d) uid now))"
proof -
  have 1: "d' = d" if "\<forall>x. resp \<noteq> Ok x"
    using PUT_orders_failure [OF assms that] .
  have 2: "resp = Server_error \<and> d' = d"
    if v: "valid_update r" and ex: "find_order d oid \<noteq> None"
      and items: "u_items r = Some items" and ch: "checkItemsChanged (original_of r) items"
      and un: "list_ex (item_unavailable d oid) items" for items
  proof -
    from v items have nn: "list_all (\<lambda>it. 0 \<le> quantity it) items"
      by (auto simp: valid_update_def list_all_iff)
    have "\<forall>x. resp \<noteq> Ok x"
    proof (intro allI notI)
      fix x assume "resp = Ok x"
      from PUT_orders_Ok_effect(5) [OF assms [unfolded this] items ch]
        unavailable_not_stock_ok [OF un nn, of r]
      show False by simp
    qed
    with PUT_orders_responses [OF assms v ex] 1 show ?thesis by auto
  qed
  have 3: "user_debt_adjustments d' = user_debt_adjustments d \<or>
          (\<exists>items. u_items r = Some items \<and>
             user_debt_adjustments d' = user_debt_adjustments d @
               edit_entries (net_of r items oid d) (order_client oid d) uid now)"
    using PUT_orders_ledger [OF assms] by blast
  from 1 2 3 show ?thesis by blast
qed

theorem failed_edit_leaves_no_trace_witness:
  "PUT_orders no_fault 2000000 1 1 unknown_product order_ab_db = (Server_error, order_ab_db) \<and>
   PUT_orders no_fault 2000000 1 1 too_many order_ab_db = (Server_error, order_ab_db) \<and>
   PUT_orders (fault_at 12) 2000000 1 1 add_phone_and_a credit_db = (Server_error, credit_db) \<and>
   PUT_orders (fault_at 13) 2000000 1 1 add_phone_and_a credit_db = (Server_error, credit_db) \<and>
   valid_update unknown_product \<and> valid_update too_many \<and> find_order order_ab_db 1 \<noteq> None \<and>
   checkItemsChanged (original_of unknown_product) (the (u_items unknown_product)) \<and>
   list_ex (item_unavailable order_ab_db 1) (the (u_items unknown_product)) \<and>
   checkItemsChanged (original_of too_many) (the (u_items too_many)) \<and>
   list_ex (item_unavailable order_ab_db 1) (the (u_items too_many)) \<and>
   map a_amount (edit_entries (net_of add_phone_and_a (the (u_items add_phone_and_a)) 1 credit_db)
     (order_client 1 credit_db) 1 2000000) = [- 100, - 10]"
proof -
  have h1: "PUT_orders no_fault 2000000 1 1 unknown_product order_ab_db = (Server_error, order_ab_db)"
    by code_simp
  have h2: "PUT_orders no_fault 2000000 1 1 too_many order_ab_db = (Server_error, order_ab_db)"
    by code_simp
  have h3: "PUT_orders (fault_at 12) 2000000 1 1 add_phone_and_a credit_db = (Server_error, credit_db)"
    by code_simp
  have h4: "PUT_orders (fault_at 13) 2000000 1 1 add_phone_and_a credit_db = (Server_error, credit_db)"
    by code_simp
  have c: "valid_update unknown_product" "valid_update too_many" "find_order order_ab_db 1 \<noteq> None"
    "checkItemsChanged (original_of unknown_product) (the (u_items unknown_product))"
    "list_ex (item_unavailable order_ab_db 1) (the (u_items unknown_product))"
    "checkItemsChanged (original_of too_many) (the (u_items too_many))"
    "list_ex (item_unavailable order_ab_db 1) (the (u_items too_many))"
    "map a_amount (edit_entries (net_of add_phone_and_a (the (u_items add_phone_and_a)) 1 credit_db)
       (order_client 1 credit_db) 1 2000000) = [- 100, - 10]"
    by code_simp+
  from failed_edit_leaves_no_trace [OF h1] failed_edit_leaves_no_trace [OF h3] h1 h2 h3 h4 c
  show ?thesis by simp
qed

subsection \<open>Status updates\<close>

lemma order_status_set_status:
  "order_status (set_status s oid d) oid = map_option (\<lambda>_. s) (find_order d oid)"
  by (cases "find_order d oid")
     (auto simp: order_status_def find_order_set_status dest: find_order_id)

lemma status_route_sets_requested:
  "PUT_orders_status oid s d = (Ok st, d') \<Longrightarrow>
     s = Some st \<and> (st = Pending \<or> st = Completed) \<and> order_status d' oid = Some st"
  using order_status_set_status [of "the s" oid d]
  by (cases "find_order d oid")
     (auto simp: PUT_orders_status_def valid_status_def Let_def order_status_def find_order_set_status
        split: if_splits option.splits)

lemma status_compat_route_sets_requested:
  "PUT_orders_status_compat oid s d = (Ok st, d') \<Longrightarrow>
     s = Some st \<and> (st = Pending \<or> st = Completed) \<and> order_status d' oid = Some st"
  using order_status_set_status [of "the s" oid d]
  by (cases "find_order d oid")
     (auto simp: PUT_orders_status_compat_def valid_status_def split: if_splits)

lemma edit_sets_requested:
  assumes "PUT_orders fault now uid oid r d = (Ok resp, d')"
  shows "order_status d' oid = (case u_status r of None \<Rightarrow> order_status d oid | Some st \<Rightarrow> Some st)"
    and "u_status r = None \<or> u_status r = Some Pending \<or> u_status r = Some Completed"
proof -
  note e = PUT_orders_Ok_effect [OF assms]
  note w = order_status_with_status_twice [OF e(2), of r]
  show "order_status d' oid = (case u_status r of None \<Rightarrow> order_status d oid | Some st \<Rightarrow> Some st)"
  proof (cases "u_items r")
    case None
    with e(3) w(2) show ?thesis by simp
  next
    case (Some items)
    show ?thesis
    proof (cases "checkItemsChanged (original_of r) items")
      case False
      with e(4) [OF Some] w(1) show ?thesis by simp
    next
      case True
      with e(5) [OF Some] w(2) show ?thesis by (simp add: edited_status)
    qed
  qed
  from e(1) show "u_status r = None \<or> u_status r = Some Pending \<or> u_status r = Some Completed"
    by (auto simp: valid_update_def split: option.splits)
qed

text \<open>
  Claim C8, amended. The status-update endpoint (both registrations) and the order-edit
  endpoint set the status of the order to the status of the request, which is pending or
  completed, whatever the status of the order was; without a status in the request the
  edit leaves the status as it is. They never produce approved, shipped or cancelled.
\<close>

theorem status_is_set_as_requested:
  "(PUT_orders_status oid s d = (Ok st, d') \<longrightarrow>
      s = Some st \<and> (st = Pending \<or> st = Completed) \<and> order_status d' oid = Some st) \<and>
   (PUT_orders_status_compat oid s d = (Ok st, d') \<longrightarrow>
      s = Some st \<and> (st = Pending \<or> st = Completed) \<and> order_status d' oid = Some st) \<and>
   (PUT_orders fault now uid oid r d = (Ok resp, d'') \<longrightarrow>
      (u_status r = None \<or> u_status r = Some Pending \<or> u_status r = Some Completed) \<and>
      order_status d'' oid = (case u_status r of None \<Rightarrow> order_status d oid | Some st \<Rightarrow> Some st))"
  using status_route_sets_requested [of oid s d st d']
    status_compat_route_sets_requested [of oid s d st d']
    edit_sets_requested [of fault now uid oid r d resp d'']
  by blast

theorem status_is_set_as_requested_witness:
  "order_status credit_db 1 = Some Pending \<and>
   PUT_orders_status 1 (Some Completed) credit_db = (Ok Completed, completed_db) \<and>
   PUT_orders_status_compat 1 (Some Completed) credit_db = (Ok Completed, completed_db) \<and>
   PUT_orders no_fault 2000000 1 1 same_items order_ab_db
     = (Ok \<lparr> r_status = Some Completed, r_itemsUpdated = False \<rparr>,
        snd (PUT_orders no_fault 2000000 1 1 same_items order_ab_db)) \<and>
   order_status completed_db 1 = Some Completed \<and>
   order_status (snd (PUT_orders no_fault 2000000 1 1 same_items order_ab_db)) 1 = Some Completed"
proof -
  have h1: "PUT_orders_status 1 (Some Completed) credit_db = (Ok Completed, completed_db)"
    by code_simp
  have h2: "PUT_orders_status_compat 1 (Some Completed) credit_db = (Ok Completed, completed_db)"
    by code_simp
  have h3: "PUT_orders no_fault 2000000 1 1 same_items order_ab_db
     = (Ok \<lparr> r_status = Some Completed, r_itemsUpdated = False \<rparr>,
        snd (PUT_orders no_fault 2000000 1 1 same_items order_ab_db))"
    by code_simp
  have st: "u_status same_items = Some Completed"
    by (simp add: same_items_def edit_req_def)
  have p: "order_status credit_db 1 = Some Pending"
    by code_simp
  from status_is_set_as_requested [of 1 "Some Completed" credit_db Completed completed_db
      no_fault 2000000 1 same_items "\<lparr> r_status = Some Completed, r_itemsUpdated = False \<rparr>"
      "snd (PUT_orders no_fault 2000000 1 1 same_items order_ab_db)"]
  have "order_status completed_db 1 = Some Completed" using h1 by simp
  moreover from status_is_set_as_requested [of 1 "Some Completed" order_ab_db Completed
      "snd (PUT_orders_status 1 (Some Completed) order_ab_db)"
      no_fault 2000000 1 same_items "\<lparr> r_status = Some Completed, r_itemsUpdated = False \<rparr>"
      "snd (PUT_orders no_fault 2000000 1 1 same_items order_ab_db)"]
  have "order_status (snd (PUT_orders no_fault 2000000 1 1 same_items order_ab_db)) 1 = Some Completed"
    using h3 st by simp
  ultimately show ?thesis using h1 h2 h3 p by simp
qed

text \<open>
  The claim as stated fails: order 1 of \<open>completed_db\<close> is completed, and both the
  status update and the order edit with status pending are answered with 200 and leave it
  pending.
\<close>

theorem completed_back_to_pending_counterexample:
  "order_status completed_db 1 = Some Completed \<and>
   fst (PUT_orders_status 1 (Some Pending) completed_db) = Ok Pending \<and>
   order_status (snd (PUT_orders_status 1 (Some Pending) completed_db)) 1 = Some Pending \<and>
   fst (PUT_orders no_fault 2000000 1 1
          \<lparr> u_status = Some Pending, u_items = None, u_originalItems = None,
            u_preserveDiscount = False, u_originalDiscount = 0 \<rparr> completed_db)
     = Ok \<lparr> r_status = Some Pending, r_itemsUpdated = False \<rparr> \<and>
   order_status (snd (PUT_orders no_fault 2000000 1 1
          \<lparr> u_status = Some Pending, u_items = None, u_originalItems = None,
            u_preserveDiscount = False, u_originalDiscount = 0 \<rparr> completed_db)) 1 = Some Pending"
  by code_simp

subsection \<open>Deletion\<close>

lemma DELETE_orders_tx_Inr:
  assumes "DELETE_orders_tx fault oid c = (Inr res, c')"
  shows "res = None \<Longrightarrow> committed c' = committed c"
    and "res = Some n \<Longrightarrow>
           find_order (committed c) oid \<noteq> None \<and> n = length (stored_items oid (committed c)) \<and>
           committed c' = delete_order oid (delete_order_items oid
             (restored (stored_items oid (committed c)) (committed c)))"
proof -
  from assms obtain c1 orderResult c2 where
    b: "tx_begin fault c = (Inr (), c1)" and
    s: "client_query fault (sql_read (\<lambda>d. find_order d oid)) c1 = (Inr orderResult, c2)" and
    rest: "(case orderResult of
         None \<Rightarrow> tx_return None
       | Some ord \<Rightarrow>
           tx_bind (client_query fault (sql_read (stored_items oid))) (\<lambda>rows.
           tx_bind (tx_forEach (\<lambda>i. client_query fault
                      (sql_write (update_stock (oi_product_id i) (oi_quantity i)))) rows) (\<lambda>_.
           tx_bind (client_query fault (sql_write (delete_order_items oid))) (\<lambda>_.
           tx_bind (client_query fault (sql_write (delete_order oid))) (\<lambda>_.
           commit_with fault (Some (length rows))))))) c2 = (Inr res, c')"
    unfolding DELETE_orders_tx_def by (elim tx_bind_Inr) auto
  note r1 = tx_begin_Inr [OF b] and r2 = client_query_read_Inr [OF s]
  have com2: "committed c2 = committed c"
    using r1 client_query_committed [OF s] by simp
  have w2: "working c2 = committed c" using r1 r2 by simp
  {
    assume "res = None"
    with rest have "orderResult = None"
      by (cases orderResult) (auto simp: commit_with_def elim!: tx_bind_Inr)
    with rest com2 show "committed c' = committed c" by simp
  }
  {
    assume res: "res = Some n"
    with rest obtain ord where ord: "orderResult = Some ord"
      by (cases orderResult) auto
    with rest obtain rows c3 c4 c5 c6 where
      s3: "client_query fault (sql_read (stored_items oid)) c2 = (Inr rows, c3)" and
      s4: "tx_forEach (\<lambda>i. client_query fault
             (sql_write (update_stock (oi_product_id i) (oi_quantity i)))) rows c3 = (Inr (), c4)" and
      s5: "client_query fault (sql_write (delete_order_items oid)) c4 = (Inr (), c5)" and
      s6: "client_query fault (sql_write (delete_order oid)) c5 = (Inr (), c6)" and
      s7: "commit_with fault (Some (length rows)) c6 = (Inr res, c')"
      by (auto elim!: tx_bind_Inr)
    note r3 = client_query_read_Inr [OF s3] and r4 = forEach_write_Inr [OF s4]
      and r5 = client_query_write_Inr [OF s5] and r6 = client_query_write_Inr [OF s6]
    from r6 have "\<not> aborted c6" by simp
    from commit_with_Inr [OF s7 this] r3 r4 r5 r6 w2 res ord r2
    show "find_order (committed c) oid \<noteq> None \<and> n = length (stored_items oid (committed c)) \<and>
           committed c' = delete_order oid (delete_order_items oid
             (restored (stored_items oid (committed c)) (committed c)))"
      by (simp add: restored_def)
  }
qed

text \<open>
  Claim C6. A deletion that succeeds finds the order, adds to the stock of every product
  the sum of the quantities of the order's stored items of that product (2 and 3 units in
  the witness), leaves the products the order does not reference as they were, and removes
  the order and all its items.
\<close>

theorem delete_restores_stock:
  assumes "DELETE_orders fault oid d = (Ok n, d')"
  shows "find_order d oid \<noteq> None \<and> n = length (stored_items oid d) \<and>
         products d' = map (\<lambda>p. p\<lparr> p_stock_quantity := p_stock_quantity p +
                           sum_list (map oi_quantity
                             (filter (\<lambda>i. oi_product_id i = p_id p) (stored_items oid d))) \<rparr>)
                         (products d) \<and>
         (\<forall>pid. pid \<notin> oi_product_id ` set (stored_items oid d) \<longrightarrow>
                find_product d' pid = find_product d pid) \<and>
         orders d' = filter (\<lambda>r. o_id r \<noteq> oid) (orders d) \<and>
         order_items d' = filter (\<lambda>i. oi_order_id i \<noteq> oid) (order_items d) \<and>
         user_debt_adjustments d' = user_debt_adjustments d"
proof -
  from assms obtain c' where
    run: "DELETE_orders_tx fault oid (connect d) = (Inr (Some n), c')" and d': "d' = committed c'"
    by (auto simp: DELETE_orders_def split: prod.splits sum.splits option.splits)
  from DELETE_orders_tx_Inr(2) [OF run refl] d'
  have ex: "find_order d oid \<noteq> None" and n: "n = length (stored_items oid d)"
    and eq: "d' = delete_order oid (delete_order_items oid (restored (stored_items oid d) d))"
    by simp_all
  have fp: "find_product d' pid = find_product d pid"
    if "pid \<notin> oi_product_id ` set (stored_items oid d)" for pid
  proof -
    from that have "filter (\<lambda>i. oi_product_id i = pid) (stored_items oid d) = []"
      by (auto simp: filter_empty_conv)
    moreover have "find_product d' pid = find_product (restored (stored_items oid d) d) pid"
      using find_product_cong [of d' "restored (stored_items oid d) d"] eq by simp
    ultimately show ?thesis
      by (simp add: find_product_restored option.map_ident)
  qed
  from ex n eq fp show ?thesis
    by (simp add: restored_products)
qed

theorem delete_restores_stock_witness:
  "DELETE_orders no_fault 1 order_23_db = (Ok 2, snd (DELETE_orders no_fault 1 order_23_db)) \<and>
   map (\<lambda>i. (oi_product_id i, oi_quantity i)) (stored_items 1 order_23_db) = [(2, 2), (3, 3)] \<and>
   map (\<lambda>p. (p_id p, p_stock_quantity p)) (products order_23_db) = [(1, 5), (2, 3), (3, 2), (4, 5)] \<and>
   map (\<lambda>p. (p_id p, p_stock_quantity p)) (products (snd (DELETE_orders no_fault 1 order_23_db)))
     = [(1, 5), (2, 5), (3, 5), (4, 5)] \<and>
   orders (snd (DELETE_orders no_fault 1 order_23_db)) = [] \<and>
   order_items (snd (DELETE_orders no_fault 1 order_23_db)) = []"
proof -
  have h: "DELETE_orders no_fault 1 order_23_db = (Ok 2, snd (DELETE_orders no_fault 1 order_23_db))"
    by code_simp
  have s: "map (\<lambda>i. (oi_product_id i, oi_quantity i)) (stored_items 1 order_23_db) = [(2, 2), (3, 3)]"
    "map (\<lambda>p. (p_id p, p_stock_quantity p)) (products order_23_db) = [(1, 5), (2, 3), (3, 2), (4, 5)]"
    "stored_items 1 order_23_db = order_items order_23_db"
    "map o_id (orders order_23_db) = [1]"
    "map oi_order_id (order_items order_23_db) = [1, 1]"
    by code_simp+
  have o: "orders (snd (DELETE_orders no_fault 1 order_23_db)) = []"
    using delete_restores_stock [OF h] s(4)
    by (auto simp: filter_empty_conv dest!: arg_cong [where f = set])
  have i: "order_items (snd (DELETE_orders no_fault 1 order_23_db)) = []"
    using delete_restores_stock [OF h] s(5)
    by (auto simp: filter_empty_conv dest!: arg_cong [where f = set])
  have "map (\<lambda>p. (p_id p, p_stock_quantity p)) (products (snd (DELETE_orders no_fault 1 order_23_db)))
     = [(1, 5), (2, 5), (3, 5), (4, 5)]"
    by code_simp
  with h s o i show ?thesis by simp
qed

section \<open>The net ledger entries of an edit\<close>

text \<open>On lists that name no product twice the specification's net change is the sum the
  reconciler computes over its two maps, and item lists that differ as sets of product and
  quantity are changed in the sense of \<open>checkItemsChanged\<close>.\<close>

lemma settles_in_currency_of: "settles_in c k \<longleftrightarrow> currency_of k = c"
  by (cases c) (simp_all add: settles_in_def currency_of_def)

lemma held_item_item_of:
  assumes "distinct (map productId its)"
  shows "held_item its k = item_of its k"
proof (cases "item_of its k")
  case None
  then have "k \<notin> productId ` set its" by (simp add: item_of_None)
  then have "held_item its k = None" by (auto simp: held_item_def find_None_iff)
  with None show ?thesis by simp
next
  case (Some x)
  from item_of_Some [OF Some] have x: "x \<in> set its" "productId x = k" by simp_all
  then have "held_item its k \<noteq> None" by (auto simp: held_item_def find_None_iff)
  then obtain y where y: "held_item its k = Some y" by blast
  then obtain i where "i < length its" "productId (its ! i) = k" "y = its ! i"
    unfolding held_item_def find_Some_iff by blast
  then have "y \<in> set its" "productId y = k" using nth_mem [of i its] by simp_all
  with x assms have "x = y" by (auto simp: distinct_map inj_on_def)
  with y Some show ?thesis by simp
qed

lemma spec_net_change_maps:
  assumes "distinct (map productId old)" and "distinct (map productId new)"
  shows "spec_net_change cat c old new = map_net_change cat c old new"
  by (simp add: spec_net_change_def map_net_change_def settles_in_currency_of
      held_item_item_of [OF assms(1)] held_item_item_of [OF assms(2)])

lemma different_items_changed:
  assumes d1: "distinct (map productId orig)" and d2: "distinct (map productId items)"
    and ne: "item_pairs orig \<noteq> item_pairs items"
  shows "checkItemsChanged orig items"
proof (rule ccontr)
  assume n: "\<not> checkItemsChanged orig items"
  then have a: "\<And>pid q. (pid, q) \<in> set (build_map quantity orig) \<Longrightarrow>
                  map_get (build_map quantity items) pid = Some q"
    and b: "\<And>pid q. (pid, q) \<in> set (build_map quantity items) \<Longrightarrow>
                  map_get (build_map quantity orig) pid \<noteq> None"
    by (auto simp: checkItemsChanged_def Let_def list_ex_iff split: if_splits)
  have entry: "(productId x, quantity x) \<in> set (build_map quantity its)"
    if "x \<in> set its" "distinct (map productId its)" for x its
  proof -
    from item_of_member [OF that] have "map_get (build_map quantity its) (productId x) = Some (quantity x)"
      by (simp add: build_map_get)
    then show ?thesis by (simp add: map_get_def map_of_SomeD)
  qed
  have sub1: "(productId x, quantity x) \<in> item_pairs items" if "x \<in> set orig" for x
  proof -
    from a [OF entry [OF that d1]]
    obtain y where y: "item_of items (productId x) = Some y" "quantity y = quantity x"
      by (auto simp: build_map_get)
    from item_of_Some [OF y(1)] have "y \<in> set items" "productId y = productId x" by simp_all
    with y(2) have "(productId x, quantity x) = (productId y, quantity y)" "y \<in> set items"
      by simp_all
    then show ?thesis unfolding item_pairs_def set_map by (rule image_eqI)
  qed
  have sub2: "(productId y, quantity y) \<in> item_pairs orig" if "y \<in> set items" for y
  proof -
    from b [OF entry [OF that d2]]
    obtain x where x: "item_of orig (productId y) = Some x"
      by (auto simp: build_map_get)
    from item_of_Some [OF x] have xo: "x \<in> set orig" "productId x = productId y" by simp_all
    from a [OF entry [OF xo(1) d1]] xo(2) item_of_member [OF that d2]
    have "quantity y = quantity x" by (simp add: build_map_get)
    with xo have "(productId y, quantity y) = (productId x, quantity x)" "x \<in> set orig"
      by simp_all
    then show ?thesis unfolding item_pairs_def set_map by (rule image_eqI)
  qed
  from sub1 sub2 have "item_pairs orig = item_pairs items"
    by (auto simp: item_pairs_def)
  with ne show False by simp
qed

lemma net_of_maps:
  "eurNetChange (net_of r items oid d) = map_net_change (category_of d) EUR (original_of r) items"
  "mkdNetChange (net_of r items oid d) = map_net_change (category_of d) MKD (original_of r) items"
  by (simp_all add: net_of_def calculateNetDebtChange_net original_of_def)

text \<open>
  Claim C3, amended. A successful order edit whose new items differ from the
  \<open>originalItems\<close> of the same request (as sets of product id and quantity, an absent
  \<open>originalItems\<close> being the empty list), neither list naming a product twice, on an
  order owned by a registered client, appends at most one ledger entry per currency:
  exactly one entry of the order's client for each currency whose net change is not zero,
  with the negated net change as amount, the EUR entry before the MKD entry. The net
  change is taken between the \<open>originalItems\<close> of the request and its new items, not from
  the stored items of the order. For a currency it is the sum, over the products of both
  lists that are routed to it (EUR for smartphone-category products, MKD for all others),
  of: quantity times price for an added product, increase times new price for a quantity
  increase, minus quantity times price for a removed product, minus decrease times old
  price for a quantity decrease. Prices are whole numbers. For \<open>originalItems\<close>
  \<open>{A: 2, B: 1}\<close> and new items \<open>{A: 3, C: 1}\<close> with A at 10, B at 5 and C at 20 MKD, all
  non-smartphone, the net MKD change is 25 and the single entry -25 is appended.
\<close>

theorem edit_appends_net_entries:
  assumes "PUT_orders fault now uid oid r d = (Ok resp, d')"
    and "u_items r = Some items"
    and "distinct (map productId (original_of r))" and "distinct (map productId items)"
    and "item_pairs (original_of r) \<noteq> item_pairs items"
    and "order_client oid d = Some cid" and "cid \<noteq> 0"
  shows "\<exists>es. user_debt_adjustments d' = user_debt_adjustments d @ es \<and>
      map entry_amount es =
        (if spec_net_change (category_of d) EUR (original_of r) items \<noteq> 0
         then [(cid, Some EUR, - spec_net_change (category_of d) EUR (original_of r) items)]
         else []) @
        (if spec_net_change (category_of d) MKD (original_of r) items \<noteq> 0
         then [(cid, Some MKD, - spec_net_change (category_of d) MKD (original_of r) items)]
         else [])"
proof -
  note e = PUT_orders_Ok_effect [OF assms(1)]
  have changed: "checkItemsChanged (original_of r) items"
    by (rule different_items_changed [OF assms(3,4,5)])
  let ?es = "edit_entries (net_of r items oid d) (order_client oid d) uid now"
  from e(5) [OF assms(2) changed]
  have l: "user_debt_adjustments d' = user_debt_adjustments d @ ?es"
    by (simp add: edited_ledger net_of_def)
  have m: "map entry_amount ?es =
        (if spec_net_change (category_of d) EUR (original_of r) items \<noteq> 0
         then [(cid, Some EUR, - spec_net_change (category_of d) EUR (original_of r) items)]
         else []) @
        (if spec_net_change (category_of d) MKD (original_of r) items \<noteq> 0
         then [(cid, Some MKD, - spec_net_change (category_of d) MKD (original_of r) items)]
         else [])"
    using assms(6,7)
    by (simp add: edit_entries_def net_of_maps truthy_def ledger_row_def entry_amount_def
        spec_net_change_maps [OF assms(3,4)])
  from l m show ?thesis by blast
qed


text \<open>
  The example of the specification, with the stored items of order 1 sent as
  \<open>originalItems\<close>, appends the single MKD entry -25. An edit of the phone order from one
  phone to two phones and one A appends an EUR entry of -100 followed by an MKD entry of
  -10.
\<close>

theorem edit_appends_net_entries_witness:
  "PUT_orders no_fault 2000000 1 1 ab_to_ac order_ab_db
     = (Ok \<lparr> r_status = None, r_itemsUpdated = True \<rparr>,
        snd (PUT_orders no_fault 2000000 1 1 ab_to_ac order_ab_db)) \<and>
   u_items ab_to_ac = Some [itemA 3, itemC 1] \<and> original_of ab_to_ac = [itemA 2, itemB 1] \<and>
   stored_as_items 1 order_ab_db = map (\<lambda>it. it\<lparr> name := [] \<rparr>) [itemA 2, itemB 1] \<and>
   item_pairs [itemA 2, itemB 1] \<noteq> item_pairs [itemA 3, itemC 1] \<and>
   order_client 1 order_ab_db = Some 7 \<and>
   spec_net_change (category_of order_ab_db) EUR [itemA 2, itemB 1] [itemA 3, itemC 1] = 0 \<and>
   spec_net_change (category_of order_ab_db) MKD [itemA 2, itemB 1] [itemA 3, itemC 1] = 25 \<and>
   map entry_amount (user_debt_adjustments order_ab_db) = [(7, Some MKD, - 25)] \<and>
   map entry_amount (user_debt_adjustments (snd (PUT_orders no_fault 2000000 1 1 ab_to_ac order_ab_db)))
     = [(7, Some MKD, - 25), (7, Some MKD, - 25)] \<and>
   PUT_orders no_fault 2000000 1 1 add_phone_and_a credit_db
     = (Ok \<lparr> r_status = None, r_itemsUpdated = True \<rparr>,
        snd (PUT_orders no_fault 2000000 1 1 add_phone_and_a credit_db)) \<and>
   u_items add_phone_and_a = Some [itemPhone 2, itemA 1] \<and>
   original_of add_phone_and_a = [itemPhone 1] \<and>
   item_pairs [itemPhone 1] \<noteq> item_pairs [itemPhone 2, itemA 1] \<and>
   order_client 1 credit_db = Some 7 \<and>
   category_of credit_db (productId (itemPhone 1)) = Some Smartphones \<and>
   spec_net_change (category_of credit_db) EUR [itemPhone 1] [itemPhone 2, itemA 1] = 100 \<and>
   spec_net_change (category_of credit_db) MKD [itemPhone 1] [itemPhone 2, itemA 1] = 10 \<and>
   map entry_amount (user_debt_adjustments credit_db) = [(7, Some EUR, - 100), (7, Some EUR, 140)] \<and>
   map entry_amount (user_debt_adjustments (snd (PUT_orders no_fault 2000000 1 1 add_phone_and_a credit_db)))
     = [(7, Some EUR, - 100), (7, Some EUR, 140), (7, Some EUR, - 100), (7, Some MKD, - 10)]"
proof -
  let ?d1 = "snd (PUT_orders no_fault 2000000 1 1 ab_to_ac order_ab_db)"
  let ?d2 = "snd (PUT_orders no_fault 2000000 1 1 add_phone_and_a credit_db)"
  have a1: "PUT_orders no_fault 2000000 1 1 ab_to_ac order_ab_db
              = (Ok \<lparr> r_status = None, r_itemsUpdated = True \<rparr>, ?d1)"
    by code_simp
  have a2: "u_items ab_to_ac = Some [itemA 3, itemC 1]"
    by (simp add: ab_to_ac_def edit_req_def)
  have ao: "original_of ab_to_ac = [itemA 2, itemB 1]"
    by (simp add: ab_to_ac_def edit_req_def original_of_def)
  have as: "stored_as_items 1 order_ab_db = map (\<lambda>it. it\<lparr> name := [] \<rparr>) [itemA 2, itemB 1]"
    by code_simp
  have a3: "distinct (map productId (original_of ab_to_ac))"
    unfolding ao by code_simp
  have a4: "distinct (map productId [itemA 3, itemC 1])"
    by code_simp
  have ap: "item_pairs [itemA 2, itemB 1] \<noteq> item_pairs [itemA 3, itemC 1]"
    by code_simp
  have a5: "item_pairs (original_of ab_to_ac) \<noteq> item_pairs [itemA 3, itemC 1]"
    unfolding ao by (rule ap)
  have a6: "order_client 1 order_ab_db = Some 7"
    by code_simp
  have n: "(7::int) \<noteq> 0" by simp
  have an: "spec_net_change (category_of order_ab_db) EUR [itemA 2, itemB 1] [itemA 3, itemC 1] = 0"
     "spec_net_change (category_of order_ab_db) MKD [itemA 2, itemB 1] [itemA 3, itemC 1] = 25"
    by code_simp+
  have al: "map entry_amount (user_debt_adjustments order_ab_db) = [(7, Some MKD, - 25)]"
    by code_simp
  have b1: "PUT_orders no_fault 2000000 1 1 add_phone_and_a credit_db
              = (Ok \<lparr> r_status = None, r_itemsUpdated = True \<rparr>, ?d2)"
    by code_simp
  have b2: "u_items add_phone_and_a = Some [itemPhone 2, itemA 1]"
    by (simp add: add_phone_and_a_def edit_req_def)
  have bo: "original_of add_phone_and_a = [itemPhone 1]"
    by (simp add: add_phone_and_a_def edit_req_def original_of_def)
  have b3: "distinct (map productId (original_of add_phone_and_a))"
    unfolding bo by code_simp
  have b4: "distinct (map productId [itemPhone 2, itemA 1])"
    by code_simp
  have bp: "item_pairs [itemPhone 1] \<noteq> item_pairs [itemPhone 2, itemA 1]"
    by code_simp
  have b5: "item_pairs (original_of add_phone_and_a) \<noteq> item_pairs [itemPhone 2, itemA 1]"
    unfolding bo by (rule bp)
  have b6: "order_client 1 credit_db = Some 7"
    by code_simp
  have bc: "category_of credit_db (productId (itemPhone 1)) = Some Smartphones"
    by code_simp
  have bn: "spec_net_change (category_of credit_db) EUR [itemPhone 1] [itemPhone 2, itemA 1] = 100"
     "spec_net_change (category_of credit_db) MKD [itemPhone 1] [itemPhone 2, itemA 1] = 10"
    by code_simp+
  have bl: "map entry_amount (user_debt_adjustments credit_db)
              = [(7, Some EUR, - 100), (7, Some EUR, 140)]"
    by code_simp
  from edit_appends_net_entries [OF a1 a2 a3 a4 a5 a6 n]
  have r1: "map entry_amount (user_debt_adjustments ?d1) = [(7, Some MKD, - 25), (7, Some MKD, - 25)]"
    by (auto simp: ao an al)
  from edit_appends_net_entries [OF b1 b2 b3 b4 b5 b6 n]
  have r2: "map entry_amount (user_debt_adjustments ?d2)
              = [(7, Some EUR, - 100), (7, Some EUR, 140), (7, Some EUR, - 100), (7, Some MKD, - 10)]"
    by (auto simp: bo bn bl)
  from a1 a2 ao as ap a6 an al r1 b1 b2 bo bp b6 bc bn bl r2 show ?thesis
    by (intro conjI)
qed

text \<open>
  The claim as stated fails when the request carries no \<open>originalItems\<close>. Order 1 holds
  \<open>{A: 2, B: 1}\<close> and the edit asks for \<open>{A: 3, C: 1}\<close>: the net MKD change between the
  stored and the new items is 25, and the edit appends one MKD entry of -50, every new item
  counting as added.
\<close>

theorem stored_items_net_change_counterexample:
  "PUT_orders no_fault 2000000 1 1 ac_unstated order_ab_db
     = (Ok \<lparr> r_status = None, r_itemsUpdated = True \<rparr>,
        snd (PUT_orders no_fault 2000000 1 1 ac_unstated order_ab_db)) \<and>
   u_items ac_unstated = Some [itemA 3, itemC 1] \<and> u_originalItems ac_unstated = None \<and>
   order_client 1 order_ab_db = Some 7 \<and>
   map (\<lambda>it. (productId it, quantity it, price it)) (stored_as_items 1 order_ab_db)
     = [(2, 2, 10), (3, 1, 5)] \<and>
   map (\<lambda>it. (productId it, quantity it, price it)) [itemA 3, itemC 1] = [(2, 3, 10), (4, 1, 20)] \<and>
   map (category_of order_ab_db) [2, 3, 4] = [Some Accessories, Some Accessories, Some Accessories] \<and>
   spec_net_change (category_of order_ab_db) MKD (stored_as_items 1 order_ab_db) [itemA 3, itemC 1] = 25 \<and>
   map entry_amount (user_debt_adjustments order_ab_db) = [(7, Some MKD, - 25)] \<and>
   map entry_amount (user_debt_adjustments (snd (PUT_orders no_fault 2000000 1 1 ac_unstated order_ab_db)))
     = [(7, Some MKD, - 25), (7, Some MKD, - 50)]"
  by code_simp
end
